(* ===== verification/Ahu_Error.thy ===== *)
theory Ahu_Error
  imports Hoike_Prelude
begin

text \<open>
  The error type of the \<^verbatim>\<open>ahu\<close> crate (\<^verbatim>\<open>crates/ahu/src/error.rs\<close>) and the third-party
  functions the crate calls, gathered in one record that the definitions take as an argument:
  the SHA-256 of \<^verbatim>\<open>sha2\<close>, the hexadecimal of \<^verbatim>\<open>hex\<close>, the UUID constructor of
  \<^verbatim>\<open>uuid\<close> (a UUID is its 16 bytes), and the CBOR writer and reader of \<^verbatim>\<open>ciborium\<close> over its
  \<^verbatim>\<open>Value\<close> type. Nothing is assumed of them here; what a theorem
  relies on is one of the named predicates below, as a premise.
\<close>

section \<open>Errors\<close>

datatype io_error = UnexpectedEof | IoOther string

datatype ahu_error =
    BadMagic bytes
  | UnsupportedVersion u16 u16
  | HeaderOutOfBounds string u64 u64 u64
  | ManifestDecode string
  | ManifestField string
  | SealInvalid string
  | IndexDigestMismatch string string
  | DataDigestMismatch string string
  | IndexNotSorted nat string string
  | DuplicateEntryKey nat string
  | IndexSizeMismatch u64 nat
  | EpochRollback string u64 u64
  | ContinuityBreak string
  | DeltaMissingBase
  | ForkDetected string
  | EntryOutOfBounds u64 u32
  | ReservedNotZero nat
  | Io io_error
  | Write string
  | InvalidOperation string

section \<open>Third-party functions\<close>

text \<open>\<^verbatim>\<open>ciborium::Value\<close>; a float is its IEEE bit pattern.\<close>

datatype cbor =
    CInteger int
  | CBytes bytes
  | CFloat u64
  | CText string
  | CBool bool
  | CNull
  | CTag u64 cbor
  | CArray "cbor list"
  | CMap "(cbor \<times> cbor) list"

record externals =
  sha256 :: "bytes \<Rightarrow> bytes"
  hex_encode :: "bytes \<Rightarrow> string"
  hex_decode :: "string \<Rightarrow> string + bytes"
  uuid_from_slice :: "bytes \<Rightarrow> string + bytes"
  cbor_into :: "cbor \<Rightarrow> bytes"
  cbor_from :: "bytes \<Rightarrow> string + cbor"

text \<open>A SHA-256 digest has 32 bytes.\<close>

definition sha256_length :: "externals \<Rightarrow> bool" where
  "sha256_length E \<longleftrightarrow> (\<forall>bs. length (sha256 E bs) = 32)"

text \<open>\<^verbatim>\<open>hex::decode\<close> inverts \<^verbatim>\<open>hex::encode\<close>, which writes hexadecimal digits only.\<close>

definition hex_roundtrip :: "externals \<Rightarrow> bool" where
  "hex_roundtrip E \<longleftrightarrow> (\<forall>bs. hex_decode E (hex_encode E bs) = Inr bs)"

definition hex_digits :: "externals \<Rightarrow> bool" where
  "hex_digits E \<longleftrightarrow> (\<forall>bs. set (hex_encode E bs) \<subseteq> set ''0123456789abcdef'')"

text \<open>\<^verbatim>\<open>Uuid::from_slice\<close> takes the 16 bytes of a UUID and no other length.\<close>

definition uuid_16 :: "externals \<Rightarrow> bool" where
  "uuid_16 E \<longleftrightarrow>
     (\<forall>bs. if length bs = 16 then uuid_from_slice E bs = Inr bs else \<exists>e. uuid_from_slice E bs = Inl e)"

text \<open>Reading back the encoding of one value: the CBOR round trip at that value.\<close>

definition cbor_roundtrip :: "externals \<Rightarrow> cbor \<Rightarrow> bool" where
  "cbor_roundtrip E v \<longleftrightarrow> cbor_from E (cbor_into E v) = Inr v"

lemma sha256_lengthD: "sha256_length E \<Longrightarrow> length (sha256 E bs) = 32"
  by (simp add: sha256_length_def)

lemma uuid_16_iff: "uuid_16 E \<Longrightarrow> uuid_from_slice E bs = Inr u \<longleftrightarrow> length bs = 16 \<and> u = bs"
  unfolding uuid_16_def by (metis Inl_Inr_False sum.inject(2))

lemma hex_roundtripD: "hex_roundtrip E \<Longrightarrow> hex_decode E (hex_encode E bs) = Inr bs"
  by (simp add: hex_roundtrip_def)

lemma hex_encode_inject: "hex_roundtrip E \<Longrightarrow> hex_encode E a = hex_encode E b \<longleftrightarrow> a = b"
  by (metis hex_roundtripD sum.inject(2))

section \<open>Text\<close>

text \<open>Decimal rendering, for the numbers in error messages.\<close>

fun show_nat :: "nat \<Rightarrow> string" where
  "show_nat n = (if n < 10 then [char_of (48 + n)] else show_nat (n div 10) @ [char_of (48 + n mod 10)])"

declare show_nat.simps [simp del]

definition show_int :: "int \<Rightarrow> string" where
  "show_int i = (if i < 0 then ''-'' @ show_nat (nat (- i)) else show_nat (nat i))"

end
