(* ===== verification/Ahu_Header.thy ===== *)
theory Ahu_Header
  imports Ahu_Error
begin

text \<open>
  The 64-byte file header of a bundle (\<^verbatim>\<open>crates/ahu/src/header.rs\<close>): its record, the reader with
  every error it can return, the writer, and the bounds check of the four sections. A reader takes
  the bytes still to be read and returns the value with the rest, as a \<^verbatim>\<open>Cursor\<close> does.
\<close>

section \<open>Cursor reads and writes\<close>

type_synonym 'a reader = "bytes \<Rightarrow> ahu_error + 'a \<times> bytes"

definition read_exact :: "nat \<Rightarrow> bytes reader" where
  "read_exact n bs = (if length bs < n then Inl (Io UnexpectedEof) else Inr (take n bs, drop n bs))"

definition read_be :: "nat \<Rightarrow> 'w::len word reader" where
  "read_be n bs = bindR (read_exact n bs) (\<lambda>(x, rest). Inr (of_nat (nat_of_be x), rest))"

abbreviation read_u16 :: "u16 reader" where "read_u16 \<equiv> read_be 2"
abbreviation read_u32 :: "u32 reader" where "read_u32 \<equiv> read_be 4"
abbreviation read_u64 :: "u64 reader" where "read_u64 \<equiv> read_be 8"

abbreviation write_u16 :: "u16 \<Rightarrow> bytes" where "write_u16 w \<equiv> be_of_nat 2 (unat w)"
abbreviation write_u32 :: "u32 \<Rightarrow> bytes" where "write_u32 w \<equiv> be_of_nat 4 (unat w)"
abbreviation write_u64 :: "u64 \<Rightarrow> bytes" where "write_u64 w \<equiv> be_of_nat 8 (unat w)"

lemma read_exact_append [simp, codec_simps]: "length xs = n \<Longrightarrow> read_exact n (xs @ ys) = Inr (xs, ys)"
  by (simp add: read_exact_def)

lemma read_exact_Inr: "read_exact n bs = Inr (x, rest) \<longleftrightarrow> bs = x @ rest \<and> length x = n"
  by (auto simp: read_exact_def)

lemma read_be_write:
  assumes "256 ^ n = (2 :: nat) ^ LENGTH('w)"
  shows "read_be n (be_of_nat n (unat w) @ rest) = Inr (w :: 'w::len word, rest)"
proof -
  have "unat w mod 256 ^ n = unat w"
    using assms unsigned_less [of w, where ?'a = nat] by simp
  then show ?thesis by (simp add: read_be_def nat_of_be_of_nat)
qed

lemma write_read_be:
  assumes "read_be n bs = Inr (w :: 'w::len word, rest)" and "256 ^ n = (2 :: nat) ^ LENGTH('w)"
  shows "bs = be_of_nat n (unat w) @ rest"
proof -
  from assms(1) obtain x where x: "bs = x @ rest" "length x = n" and w: "w = of_nat (nat_of_be x)"
    by (auto simp: read_be_def bindR_eq_Inr read_exact_Inr)
  have "nat_of_be x < 2 ^ LENGTH('w)"
    using nat_of_be_bound [of x] x(2) assms(2) by simp
  then have "unat w = nat_of_be x"
    by (simp add: w unat_of_nat)
  then show ?thesis using x be_of_nat_of_be [of x] by simp
qed

lemma read_be_Inr:
  "256 ^ n = (2 :: nat) ^ LENGTH('w) \<Longrightarrow>
   read_be n bs = Inr (w :: 'w::len word, rest) \<longleftrightarrow> bs = be_of_nat n (unat w) @ rest"
  using write_read_be read_be_write by blast

lemma read_u16_Inr: "read_u16 bs = Inr (w, rest) \<longleftrightarrow> bs = write_u16 w @ rest"
  by (rule read_be_Inr) simp

lemma read_u32_Inr: "read_u32 bs = Inr (w, rest) \<longleftrightarrow> bs = write_u32 w @ rest"
  by (rule read_be_Inr) simp

lemma read_u64_Inr: "read_u64 bs = Inr (w, rest) \<longleftrightarrow> bs = write_u64 w @ rest"
  by (rule read_be_Inr) simp

lemmas read_Inr = read_exact_Inr read_u16_Inr read_u32_Inr read_u64_Inr

text \<open>What a read of the written form returns.\<close>

lemma read_u16_write [simp, codec_simps]: "read_u16 (write_u16 w @ rest) = Inr (w, rest)"
  by (simp add: read_u16_Inr)

lemma read_u32_write [simp, codec_simps]: "read_u32 (write_u32 w @ rest) = Inr (w, rest)"
  by (simp add: read_u32_Inr)

lemma read_u64_write [simp, codec_simps]: "read_u64 (write_u64 w @ rest) = Inr (w, rest)"
  by (simp add: read_u64_Inr)

lemma read_u16_write_Nil [simp, codec_simps]: "read_u16 (write_u16 w) = Inr (w, [])"
  by (simp add: read_u16_Inr)

section \<open>The header\<close>

definition MAGIC :: bytes where
  "MAGIC = [0x41, 0x48, 0x55, 0x31]"

definition HEADER_SIZE :: nat where
  "HEADER_SIZE = 64"

definition FORMAT_MAJOR :: u16 where
  "FORMAT_MAJOR = 0"

definition FORMAT_MINOR :: u16 where
  "FORMAT_MINOR = 1"

record FileHeader =
  fh_format_major :: u16
  fh_format_minor :: u16
  fh_manifest_offset :: u64
  fh_manifest_length :: u32
  fh_seal_offset :: u64
  fh_seal_length :: u32
  fh_index_offset :: u64
  fh_index_length :: u64
  fh_data_offset :: u64
  fh_data_length :: u64

definition header_read_from :: "FileHeader reader" where
  "header_read_from bs =
     bindR (read_exact 4 bs) (\<lambda>(magic, bs).
     if magic \<noteq> MAGIC then Inl (BadMagic magic)
     else bindR (read_u16 bs) (\<lambda>(format_major, bs).
     if format_major \<noteq> FORMAT_MAJOR
     then bindR (read_u16 bs) (\<lambda>(format_minor, bs). Inl (UnsupportedVersion format_major format_minor))
     else bindR (read_u16 bs) (\<lambda>(format_minor, bs).
     bindR (read_u64 bs) (\<lambda>(manifest_offset, bs).
     bindR (read_u32 bs) (\<lambda>(manifest_length, bs).
     bindR (read_u64 bs) (\<lambda>(seal_offset, bs).
     bindR (read_u32 bs) (\<lambda>(seal_length, bs).
     bindR (read_u64 bs) (\<lambda>(index_offset, bs).
     bindR (read_u64 bs) (\<lambda>(index_length, bs).
     bindR (read_u64 bs) (\<lambda>(data_offset, bs).
     bindR (read_u64 bs) (\<lambda>(data_length, bs).
     Inr (\<lparr>fh_format_major = format_major, fh_format_minor = format_minor,
           fh_manifest_offset = manifest_offset, fh_manifest_length = manifest_length,
           fh_seal_offset = seal_offset, fh_seal_length = seal_length,
           fh_index_offset = index_offset, fh_index_length = index_length,
           fh_data_offset = data_offset, fh_data_length = data_length\<rparr>, bs))))))))))))"

definition header_write_to :: "FileHeader \<Rightarrow> bytes" where
  "header_write_to h =
     MAGIC
     @ write_u16 (fh_format_major h)
     @ write_u16 (fh_format_minor h)
     @ write_u64 (fh_manifest_offset h)
     @ write_u32 (fh_manifest_length h)
     @ write_u64 (fh_seal_offset h)
     @ write_u32 (fh_seal_length h)
     @ write_u64 (fh_index_offset h)
     @ write_u64 (fh_index_length h)
     @ write_u64 (fh_data_offset h)
     @ write_u64 (fh_data_length h)"

definition check_section :: "u64 \<Rightarrow> string \<Rightarrow> u64 \<Rightarrow> u64 \<Rightarrow> ahu_error + unit" where
  "check_section file_size field offset len =
     (if (case checked_add_u64 offset len of None \<Rightarrow> True | Some end \<Rightarrow> end > file_size)
      then Inl (HeaderOutOfBounds field offset len file_size)
      else Inr ())"

definition validate_bounds :: "FileHeader \<Rightarrow> u64 \<Rightarrow> ahu_error + unit" where
  "validate_bounds h file_size =
     bindR (check_section file_size ''manifest'' (fh_manifest_offset h) (ucast (fh_manifest_length h))) (\<lambda>_.
     bindR (check_section file_size ''seal'' (fh_seal_offset h) (ucast (fh_seal_length h))) (\<lambda>_.
     bindR (check_section file_size ''index'' (fh_index_offset h) (fh_index_length h)) (\<lambda>_.
     bindR (check_section file_size ''data'' (fh_data_offset h) (fh_data_length h)) (\<lambda>_.
     Inr ()))))"

section \<open>Codec and bounds\<close>

lemma length_MAGIC [simp, codec_simps]: "length MAGIC = 4"
  by (simp add: MAGIC_def)

lemma length_header_write_to [simp, codec_simps]: "length (header_write_to h) = HEADER_SIZE"
  by (simp add: header_write_to_def HEADER_SIZE_def)

lemma header_read_write [codec_simps]:
  "fh_format_major h = FORMAT_MAJOR \<Longrightarrow>
   header_read_from (header_write_to h @ rest) = Inr (h, rest)"
  by (simp add: header_read_from_def header_write_to_def)

lemma header_write_read:
  assumes "header_read_from bs = Inr (h, rest)"
  shows "bs = header_write_to h @ rest \<and> fh_format_major h = FORMAT_MAJOR"
  using assms
  by (auto simp: header_read_from_def header_write_to_def bindR_eq_Inr read_Inr split: if_splits)

lemma check_section_Inr:
  "check_section n f off len = Inr u \<longleftrightarrow> unat off + unat len \<le> unat n"
proof (cases "unat off + unat len < 2 ^ 64")
  case True
  then have "unat (off + len) = unat off + unat len"
    by (simp add: unat_word_ariths)
  with True show ?thesis
    by (simp add: check_section_def checked_add_u64_def word_less_nat_alt not_less)
next
  case False
  moreover have "unat n < 2 ^ 64" using unat_u64_bound [of n] by simp
  ultimately show ?thesis
    by (simp add: check_section_def checked_add_u64_def)
qed

text \<open>The four sections lie inside a file of the given size.\<close>

definition sections_within :: "FileHeader \<Rightarrow> nat \<Rightarrow> bool" where
  "sections_within h n \<longleftrightarrow>
     unat (fh_manifest_offset h) + unat (fh_manifest_length h) \<le> n \<and>
     unat (fh_seal_offset h) + unat (fh_seal_length h) \<le> n \<and>
     unat (fh_index_offset h) + unat (fh_index_length h) \<le> n \<and>
     unat (fh_data_offset h) + unat (fh_data_length h) \<le> n"

lemma validate_bounds_Inr: "validate_bounds h n = Inr u \<longleftrightarrow> sections_within h (unat n)"
  by (simp add: validate_bounds_def sections_within_def bindR_eq_Inr check_section_Inr)

end
