(* ===== verification/Ahu_Index.thy ===== *)
theory Ahu_Index
  imports Ahu_Header
begin

unbundle bit_operations_syntax

text \<open>
  The index section of a bundle (\<^verbatim>\<open>crates/ahu/src/index.rs\<close>): the 48-byte records with their
  flag bits and algorithm discriminator, the sort-order check, and the searches the serving path
  runs over the sorted records. \<^verbatim>\<open>slice::binary_search_by\<close> of the Rust standard library is
  modelled with the loop it runs. What a search promises its callers is the locale
  \<open>index_search\<close>; the interpretation shows it for the search of the source.
\<close>

section \<open>Records\<close>

definition INDEX_RECORD_SIZE :: nat where
  "INDEX_RECORD_SIZE = 48"

definition MULTI :: u16 where "MULTI = 1"
definition ALIAS :: u16 where "ALIAS = 2"
definition TOMBSTONE :: u16 where "TOMBSTONE = 4"

definition from_bits_truncate :: "u16 \<Rightarrow> u16" where
  "from_bits_truncate w = w AND (MULTI OR ALIAS OR TOMBSTONE)"

definition flags_contain :: "u16 \<Rightarrow> u16 \<Rightarrow> bool" where
  "flags_contain w f \<longleftrightarrow> w AND f = f"

definition ALG_DISC_DEFAULT :: u16 where "ALG_DISC_DEFAULT = 0"
definition ALG_DISC_ML_DSA_44 :: u16 where "ALG_DISC_ML_DSA_44 = 2"
definition ALG_DISC_ML_DSA_65 :: u16 where "ALG_DISC_ML_DSA_65 = 3"
definition ALG_DISC_ML_DSA_87 :: u16 where "ALG_DISC_ML_DSA_87 = 4"

record IndexRecord =
  ir_entry_key :: bytes
  ir_data_offset :: u64
  ir_data_length :: u32
  ir_flags :: u16
  ir_discriminator :: u16

definition record_read_from :: "IndexRecord reader" where
  "record_read_from bs =
     bindR (read_exact 32 bs) (\<lambda>(entry_key, bs).
     bindR (read_u64 bs) (\<lambda>(data_offset, bs).
     bindR (read_u32 bs) (\<lambda>(data_length, bs).
     bindR (read_u16 bs) (\<lambda>(flags_raw, bs).
     bindR (read_u16 bs) (\<lambda>(discriminator, bs).
     Inr (\<lparr>ir_entry_key = entry_key, ir_data_offset = data_offset, ir_data_length = data_length,
           ir_flags = from_bits_truncate flags_raw, ir_discriminator = discriminator\<rparr>, bs))))))"

definition record_write_to :: "IndexRecord \<Rightarrow> bytes" where
  "record_write_to r =
     ir_entry_key r
     @ write_u64 (ir_data_offset r)
     @ write_u32 (ir_data_length r)
     @ write_u16 (ir_flags r)
     @ write_u16 (ir_discriminator r)"

definition is_tombstone :: "IndexRecord \<Rightarrow> bool" where
  "is_tombstone r \<longleftrightarrow> flags_contain (ir_flags r) TOMBSTONE"

definition is_alias :: "IndexRecord \<Rightarrow> bool" where
  "is_alias r \<longleftrightarrow> flags_contain (ir_flags r) ALIAS"

definition is_multi :: "IndexRecord \<Rightarrow> bool" where
  "is_multi r \<longleftrightarrow> flags_contain (ir_flags r) MULTI"

definition compute_entry_key :: "externals \<Rightarrow> bytes \<Rightarrow> bytes" where
  "compute_entry_key E certid_der = sha256 E certid_der"

text \<open>
  The values the Rust type admits: a 32-byte key and no flag bit outside the three declared ones.
\<close>

definition wf_record :: "IndexRecord \<Rightarrow> bool" where
  "wf_record r \<longleftrightarrow> length (ir_entry_key r) = 32 \<and> from_bits_truncate (ir_flags r) = ir_flags r"

definition record_key :: "IndexRecord \<Rightarrow> bytes \<times> u16" where
  "record_key r = (ir_entry_key r, ir_discriminator r)"

lemma from_bits_truncate_idem [simp]:
  "from_bits_truncate (from_bits_truncate w) = from_bits_truncate w"
  by (simp add: from_bits_truncate_def and.assoc)

lemma length_record_write_to [codec_simps]:
  "wf_record r \<Longrightarrow> length (record_write_to r) = INDEX_RECORD_SIZE"
  by (simp add: record_write_to_def INDEX_RECORD_SIZE_def wf_record_def)

lemma record_read_write [codec_simps]:
  "wf_record r \<Longrightarrow> record_read_from (record_write_to r @ rest) = Inr (r, rest)"
  by (simp add: record_read_from_def record_write_to_def wf_record_def)

lemma record_read_from_wf: "record_read_from bs = Inr (r, rest) \<Longrightarrow> wf_record r"
  by (auto simp: record_read_from_def wf_record_def bindR_eq_Inr read_Inr)

lemma record_read_from_short:
  "length bs < INDEX_RECORD_SIZE \<Longrightarrow> \<exists>e. record_read_from bs = Inl e"
  by (cases "record_read_from bs")
    (auto simp: record_read_from_def INDEX_RECORD_SIZE_def bindR_eq_Inr read_Inr)

lemma record_read_from_length:
  "record_read_from bs = Inr (r, rest) \<Longrightarrow> length bs = INDEX_RECORD_SIZE + length rest"
  by (auto simp: record_read_from_def INDEX_RECORD_SIZE_def bindR_eq_Inr read_Inr)

section \<open>Sort order\<close>

fun validate_sort_from :: "externals \<Rightarrow> nat \<Rightarrow> IndexRecord list \<Rightarrow> ahu_error + unit" where
  "validate_sort_from E i (r # s # rs) =
     (let not_sorted = Inl (IndexNotSorted i (hex_encode E (ir_entry_key r)) (hex_encode E (ir_entry_key s)))
      in if ir_entry_key r > ir_entry_key s then not_sorted
         else if ir_entry_key r = ir_entry_key s
         then if ir_discriminator r = ir_discriminator s
              then Inl (DuplicateEntryKey i (hex_encode E (ir_entry_key r)))
              else if ir_discriminator r > ir_discriminator s then not_sorted
              else validate_sort_from E (Suc i) (s # rs)
         else validate_sort_from E (Suc i) (s # rs))"
| "validate_sort_from E i _ = Inr ()"

definition validate_sort_order :: "externals \<Rightarrow> IndexRecord list \<Rightarrow> ahu_error + unit" where
  "validate_sort_order E records = validate_sort_from E 0 records"

definition sorted_index :: "IndexRecord list \<Rightarrow> bool" where
  "sorted_index rs \<longleftrightarrow> sorted_wrt (<) (map record_key rs)"

lemma record_key_less_iff:
  "record_key r < record_key s \<longleftrightarrow>
     ir_entry_key r < ir_entry_key s \<or>
     ir_entry_key r = ir_entry_key s \<and> ir_discriminator r < ir_discriminator s"
  by (auto simp: record_key_def less_prod_def)

lemma sorted_index_Cons2:
  "sorted_index (r # s # rs) \<longleftrightarrow> record_key r < record_key s \<and> sorted_index (s # rs)"
  by (auto simp: sorted_index_def intro: less_trans)

lemma validate_sort_from_Inr: "validate_sort_from E i rs = Inr u \<longleftrightarrow> sorted_index rs"
proof (induction E i rs rule: validate_sort_from.induct)
  case (1 E i r s rs)
  then show ?case
    by (auto simp: Let_def sorted_index_Cons2 record_key_less_iff not_less_iff_gr_or_eq)
qed (simp_all add: sorted_index_def)

lemma validate_sort_order_Inr: "validate_sort_order E rs = Inr u \<longleftrightarrow> sorted_index rs"
  by (simp add: validate_sort_order_def validate_sort_from_Inr)

lemma sorted_index_nth_less:
  "sorted_index rs \<Longrightarrow> i < j \<Longrightarrow> j < length rs \<Longrightarrow> record_key (rs ! i) < record_key (rs ! j)"
  unfolding sorted_index_def using sorted_wrt_nth_less [of "(<)" "map record_key rs" i j] by simp

lemma sorted_index_distinct: "sorted_index rs \<Longrightarrow> distinct (map record_key rs)"
  by (simp add: sorted_index_def strict_sorted_iff)

lemma sorted_index_nth_inject:
  "sorted_index rs \<Longrightarrow> i < length rs \<Longrightarrow> j < length rs \<Longrightarrow>
   record_key (rs ! i) = record_key (rs ! j) \<Longrightarrow> i = j"
  by (metis linorder_neqE_nat order_less_irrefl sorted_index_nth_less)

section \<open>Searches\<close>

datatype ordering = Less | Equal | Greater

definition cmp :: "'a::linorder \<Rightarrow> 'a \<Rightarrow> ordering" where
  "cmp a b = (if a < b then Less else if a = b then Equal else Greater)"

definition ordering_then :: "ordering \<Rightarrow> ordering \<Rightarrow> ordering" where
  "ordering_then a b = (case a of Equal \<Rightarrow> b | _ \<Rightarrow> a)"

text \<open>
  The loop of \<^verbatim>\<open>slice::binary_search_by\<close>: halve the window, keeping the half that starts at
  the midpoint unless the element there compares greater.
\<close>

function bsearch_base :: "('a \<Rightarrow> ordering) \<Rightarrow> 'a list \<Rightarrow> nat \<Rightarrow> nat \<Rightarrow> nat" where
  "bsearch_base f xs base sz =
     (if sz > 1
      then let half = sz div 2; mid = base + half
           in bsearch_base f xs (if f (xs ! mid) = Greater then base else mid) (sz - half)
      else base)"
  by pat_completeness auto
termination
  by (relation "measure (\<lambda>(f, xs, base, sz). sz)") auto

declare bsearch_base.simps [simp del]

definition binary_search_by :: "('a \<Rightarrow> ordering) \<Rightarrow> 'a list \<Rightarrow> nat + nat" where
  "binary_search_by f xs =
     (if xs = [] then Inl 0
      else let base = bsearch_base f xs 0 (length xs)
           in case f (xs ! base) of
                Equal \<Rightarrow> Inr base
              | Less \<Rightarrow> Inl (base + 1)
              | Greater \<Rightarrow> Inl base)"

definition binary_search_with_discriminator :: "IndexRecord list \<Rightarrow> bytes \<Rightarrow> u16 \<Rightarrow> nat option" where
  "binary_search_with_discriminator records entry_key discriminator =
     (case binary_search_by
        (\<lambda>r. ordering_then (cmp (ir_entry_key r) entry_key) (cmp (ir_discriminator r) discriminator)) records
      of Inr i \<Rightarrow> Some i | Inl _ \<Rightarrow> None)"

definition binary_search :: "IndexRecord list \<Rightarrow> bytes \<Rightarrow> nat option" where
  "binary_search records entry_key =
     binary_search_with_discriminator records entry_key ALG_DISC_DEFAULT"

fun search_preferences :: "IndexRecord list \<Rightarrow> bytes \<Rightarrow> u16 list \<Rightarrow> nat option" where
  "search_preferences records entry_key [] = None"
| "search_preferences records entry_key (disc # preferences) =
     (case binary_search_with_discriminator records entry_key disc of
        Some idx \<Rightarrow> Some idx
      | None \<Rightarrow> search_preferences records entry_key preferences)"

definition binary_search_preferred :: "IndexRecord list \<Rightarrow> bytes \<Rightarrow> u16 list \<Rightarrow> nat option" where
  "binary_search_preferred records entry_key preferences =
     (case search_preferences records entry_key preferences of
        Some idx \<Rightarrow> Some idx
      | None \<Rightarrow>
          if ALG_DISC_DEFAULT \<notin> set preferences
          then binary_search_with_discriminator records entry_key ALG_DISC_DEFAULT
          else None)"

section \<open>What a search promises\<close>

text \<open>
  The index as a map from keys to records, and the choice the preference list makes on it: the
  first preferred discriminator that is present, the default one after all preferences.
\<close>

definition index_map :: "IndexRecord list \<Rightarrow> bytes \<times> u16 \<Rightarrow> IndexRecord option" where
  "index_map rs = map_of (map (\<lambda>r. (record_key r, r)) rs)"

definition preferred_record :: "(bytes \<times> u16 \<Rightarrow> 'r option) \<Rightarrow> bytes \<Rightarrow> u16 list \<Rightarrow> 'r option" where
  "preferred_record m k prefs =
     (case find (\<lambda>d. m (k, d) \<noteq> None) (prefs @ [ALG_DISC_DEFAULT]) of
        None \<Rightarrow> None | Some d \<Rightarrow> m (k, d))"

locale index_search =
  fixes search :: "IndexRecord list \<Rightarrow> bytes \<Rightarrow> u16 \<Rightarrow> nat option"
  assumes search_sound:
      "search rs k d = Some i \<Longrightarrow> i < length rs \<and> record_key (rs ! i) = (k, d)"
    and search_complete:
      "sorted_index rs \<Longrightarrow> i < length rs \<Longrightarrow> record_key (rs ! i) = (k, d) \<Longrightarrow> search rs k d \<noteq> None"
begin

lemma search_Some_iff:
  assumes "sorted_index rs"
  shows "search rs k d = Some i \<longleftrightarrow> i < length rs \<and> record_key (rs ! i) = (k, d)"
proof
  assume i: "i < length rs \<and> record_key (rs ! i) = (k, d)"
  then obtain j where j: "search rs k d = Some j"
    using search_complete [OF assms] by blast
  then have "j = i"
    using search_sound [OF j] i by (intro sorted_index_nth_inject [OF assms]) auto
  with j show "search rs k d = Some i" by simp
qed (rule search_sound)

lemma search_None_iff:
  assumes "sorted_index rs"
  shows "search rs k d = None \<longleftrightarrow> (k, d) \<notin> record_key ` set rs"
proof (cases "search rs k d")
  case None
  then have "\<And>i. i < length rs \<Longrightarrow> record_key (rs ! i) \<noteq> (k, d)"
    using search_complete [OF assms] by blast
  then show ?thesis using None by (fastforce simp: in_set_conv_nth)
next
  case (Some i)
  then show ?thesis using search_sound [OF Some] by (auto simp: image_iff intro!: bexI [of _ "rs ! i"])
qed

lemma search_index_map:
  assumes "sorted_index rs"
  shows "map_option ((!) rs) (search rs k d) = index_map rs (k, d)"
proof (cases "search rs k d")
  case None
  then have "(k, d) \<notin> fst ` set (map (\<lambda>r. (record_key r, r)) rs)"
    using search_None_iff [OF assms, of k d] by (simp add: image_image)
  then have "index_map rs (k, d) = None"
    unfolding index_map_def by (simp only: map_of_eq_None_iff not_False_eq_True)
  with None show ?thesis by simp
next
  case (Some i)
  then have i: "i < length rs" "record_key (rs ! i) = (k, d)"
    using search_sound by auto
  have "((k, d), rs ! i) \<in> set (map (\<lambda>r. (record_key r, r)) rs)"
    using i by (auto intro!: image_eqI [of _ _ "rs ! i"])
  moreover have "distinct (map fst (map (\<lambda>r. (record_key r, r)) rs))"
    using sorted_index_distinct [OF assms] by (simp add: comp_def)
  ultimately have "index_map rs (k, d) = Some (rs ! i)"
    unfolding index_map_def by (intro map_of_is_SomeI)
  with Some show ?thesis by simp
qed

end

lemma ordering_then_cmp:
  "ordering_then (cmp (fst a) (fst b)) (cmp (snd a) (snd b)) = cmp (a :: 'a::linorder \<times> 'b::linorder) b"
  by (cases a, cases b) (auto simp: ordering_then_def cmp_def less_prod_def split: ordering.splits if_splits)

lemma record_probe_cmp:
  "ordering_then (cmp (ir_entry_key r) k) (cmp (ir_discriminator r) d) = cmp (record_key r) (k, d)"
  using ordering_then_cmp [of "record_key r" "(k, d)"] by (simp add: record_key_def)

text \<open>
  The window of the loop keeps the answer: an element that compares equal stays inside it.
\<close>

lemma bsearch_base_window:
  assumes "\<And>i j. i < j \<Longrightarrow> j < length xs \<Longrightarrow> g (xs ! i) < g (xs ! j)"
    and "0 < sz" and "base + sz \<le> length xs"
    and "base \<le> t" and "t < base + sz" and "g (xs ! t) = (key :: 'k::linorder)"
  shows "bsearch_base (\<lambda>x. cmp (g x) key) xs base sz = t"
  using assms(2-5)
proof (induction sz arbitrary: base rule: less_induct)
  case (less sz)
  show ?case
  proof (cases "sz > 1")
    case False
    with less.prems show ?thesis by (subst bsearch_base.simps) simp
  next
    case True
    let ?half = "sz div 2"
    let ?mid = "base + ?half"
    let ?base = "if cmp (g (xs ! ?mid)) key = Greater then base else ?mid"
    have step: "bsearch_base (\<lambda>x. cmp (g x) key) xs base sz
        = bsearch_base (\<lambda>x. cmp (g x) key) xs ?base (sz - ?half)"
      using True by (subst bsearch_base.simps) (simp add: Let_def)
    have half: "0 < ?half" "?half < sz" using True by auto
    have mid: "cmp (g (xs ! ?mid)) key = Greater \<longleftrightarrow> t < ?mid"
      using assms(1) [of t ?mid] assms(1) [of ?mid t] assms(6) less.prems half
      by (cases t ?mid rule: linorder_cases) (auto simp: cmp_def)
    have "?base \<le> t \<and> t < ?base + (sz - ?half) \<and> ?base + (sz - ?half) \<le> length xs"
      using mid less.prems half by (auto simp: not_less)
    then show ?thesis
      using less.IH [of "sz - ?half" ?base] half step by simp
  qed
qed

lemma bsearch_base_bound: "0 < sz \<Longrightarrow> bsearch_base f xs base sz < base + sz"
proof (induction f xs base sz rule: bsearch_base.induct)
  case (1 f xs base sz)
  show ?case
  proof (cases "sz > 1")
    case False
    with 1 show ?thesis by (subst bsearch_base.simps) simp
  next
    case True
    let ?half = "sz div 2"
    let ?base = "if f (xs ! (base + ?half)) = Greater then base else base + ?half"
    have "bsearch_base f xs ?base (sz - ?half) < ?base + (sz - ?half)"
      using "1.IH" [OF True refl refl] True by auto
    moreover have "bsearch_base f xs base sz = bsearch_base f xs ?base (sz - ?half)"
      using True by (subst bsearch_base.simps) (simp add: Let_def)
    ultimately show ?thesis by auto
  qed
qed

lemma binary_search_by_Inr:
  "binary_search_by f xs = Inr i \<Longrightarrow> i < length xs \<and> f (xs ! i) = Equal"
  using bsearch_base_bound [of "length xs" f xs 0]
  by (auto simp: binary_search_by_def Let_def split: if_splits ordering.splits)

lemma cmp_Equal [simp]: "cmp a b = Equal \<longleftrightarrow> a = b"
  by (auto simp: cmp_def)

lemma cmp_refl [simp]: "cmp a a = Equal"
  by simp

lemma binary_search_with_discriminator_probe:
  "binary_search_with_discriminator rs k d =
     (case binary_search_by (\<lambda>r. cmp (record_key r) (k, d)) rs of Inr i \<Rightarrow> Some i | Inl _ \<Rightarrow> None)"
  by (simp add: binary_search_with_discriminator_def record_probe_cmp)

lemma binary_search_by_found:
  assumes "sorted_index rs" and "i < length rs" and "record_key (rs ! i) = key"
  shows "binary_search_by (\<lambda>r. cmp (record_key r) key) rs = Inr i"
proof -
  have "bsearch_base (\<lambda>r. cmp (record_key r) key) rs 0 (length rs) = i"
    using assms by (intro bsearch_base_window) (auto intro: sorted_index_nth_less)
  with assms show ?thesis by (auto simp: binary_search_by_def)
qed

interpretation heap_search: index_search binary_search_with_discriminator
proof (unfold_locales, goal_cases)
  case (1 rs k d i)
  then have "binary_search_by (\<lambda>r. cmp (record_key r) (k, d)) rs = Inr i"
    by (simp add: binary_search_with_discriminator_probe split: sum.splits)
  then show ?case
    using binary_search_by_Inr [of "\<lambda>r. cmp (record_key r) (k, d)" rs i] by simp
next
  case (2 rs i k d)
  then show ?case
    by (simp add: binary_search_with_discriminator_probe binary_search_by_found)
qed

lemma search_preferences_find:
  "search_preferences rs k prefs =
     (case find (\<lambda>d. binary_search_with_discriminator rs k d \<noteq> None) prefs of
        None \<Rightarrow> None | Some d \<Rightarrow> binary_search_with_discriminator rs k d)"
  by (induction prefs) (auto split: option.splits)

lemma find_append: "find P (xs @ ys) = (case find P xs of None \<Rightarrow> find P ys | Some x \<Rightarrow> Some x)"
  by (induction xs) auto

lemma preferred_record_map_option:
  assumes "\<And>d. n (k, d) = map_option f (m (k, d))"
  shows "preferred_record n k prefs = map_option f (preferred_record m k prefs)"
  unfolding preferred_record_def assms by (simp split: option.splits)

lemma binary_search_preferred_record:
  "binary_search_preferred rs k prefs =
     preferred_record (\<lambda>(k, d). binary_search_with_discriminator rs k d) k prefs"
proof (cases "find (\<lambda>d. binary_search_with_discriminator rs k d \<noteq> None) prefs")
  case None
  moreover from None have "ALG_DISC_DEFAULT \<in> set prefs \<Longrightarrow>
      binary_search_with_discriminator rs k ALG_DISC_DEFAULT = None"
    by (simp add: find_None_iff)
  ultimately show ?thesis
    by (simp add: binary_search_preferred_def preferred_record_def search_preferences_find
        find_append del: not_None_eq)
next
  case (Some d)
  then have "binary_search_with_discriminator rs k d \<noteq> None"
    by (auto simp: find_Some_iff simp del: not_None_eq)
  then obtain i where "binary_search_with_discriminator rs k d = Some i" by blast
  with Some show ?thesis
    by (simp add: binary_search_preferred_def preferred_record_def search_preferences_find
        find_append del: not_None_eq)
qed

lemma preferred_search_record:
  assumes "sorted_index rs"
  shows "map_option ((!) rs) (binary_search_preferred rs k prefs) = preferred_record (index_map rs) k prefs"
  unfolding binary_search_preferred_record
  by (rule preferred_record_map_option [symmetric])
    (simp add: heap_search.search_index_map [OF assms])

end
