(* ===== verification/Ahu_Manifest.thy ===== *)
theory Ahu_Manifest
  imports Ahu_Error
begin

text \<open>
  The bundle manifest (\<^verbatim>\<open>crates/ahu/src/manifest.rs\<close>): its types, the CBOR value it is written
  as, and the reader of that value with each of its errors. The bytes of a CBOR value are those of
  \<^verbatim>\<open>ciborium\<close>, the functions \<open>cbor_into\<close> and \<open>cbor_from\<close> of the externals.
\<close>

section \<open>Types\<close>

datatype BundleType = FullBundle | DeltaBundle
datatype Completeness = Partial | AuthoritativeComplete
datatype ResponderIdType = ByName | ByKey

record ResponderId =
  rid_id_type :: ResponderIdType
  rid_value :: bytes

record CaScope =
  cs_hash_algorithm :: bytes
  cs_issuer_name_hash :: bytes
  cs_issuer_key_hash :: bytes
  cs_epoch :: u64
  cs_responder_id :: ResponderId
  cs_responder_chain :: "bytes list option"
  cs_signature_algorithm :: bytes
  cs_completeness :: Completeness

record Window =
  w_produced_at :: u64
  w_this_update_min :: u64
  w_next_update_min :: u64
  w_next_update_max :: u64

record Integrity =
  in_index_digest :: bytes
  in_data_digest :: bytes

record Continuity =
  co_prev_manifest_digest :: "bytes option"
  co_base_manifest_digest :: "bytes option"
  co_chain_length :: u64

record Shard =
  sh_shard_index :: u64
  sh_shard_count :: u64
  sh_shard_fn :: u64

datatype CompressionAlgorithm = CompressionNone | Zstd

record Compression =
  cm_algorithm :: CompressionAlgorithm
  cm_dictionary_digest :: "bytes option"

record Manifest =
  mf_format_version :: u64
  mf_bundle_id :: bytes
  mf_producer_id :: string
  mf_created_at :: u64
  mf_bundle_type :: BundleType
  mf_ca_scopes :: "CaScope list"
  mf_window :: Window
  mf_integrity :: Integrity
  mf_entry_count :: u64
  mf_continuity :: Continuity
  mf_shard :: "Shard option"
  mf_compression :: "Compression option"
  mf_extensions :: "(string \<times> cbor) list option"

section \<open>Encoding\<close>

type_synonym cbor_map = "(cbor \<times> cbor) list"

definition uint_val :: "u64 \<Rightarrow> cbor" where
  "uint_val w = CInteger (uint w)"

definition field :: "int \<Rightarrow> cbor \<Rightarrow> cbor \<times> cbor" where
  "field k v = (CInteger k, v)"

definition opt_field :: "int \<Rightarrow> ('a \<Rightarrow> cbor) \<Rightarrow> 'a option \<Rightarrow> cbor_map" where
  "opt_field k f x = (case x of None \<Rightarrow> [] | Some y \<Rightarrow> [field k (f y)])"

definition bundle_type_code :: "BundleType \<Rightarrow> int" where
  "bundle_type_code t = (case t of FullBundle \<Rightarrow> 0 | DeltaBundle \<Rightarrow> 1)"

definition completeness_code :: "Completeness \<Rightarrow> int" where
  "completeness_code c = (case c of Partial \<Rightarrow> 0 | AuthoritativeComplete \<Rightarrow> 1)"

definition responder_id_type_code :: "ResponderIdType \<Rightarrow> int" where
  "responder_id_type_code t = (case t of ByName \<Rightarrow> 0 | ByKey \<Rightarrow> 1)"

definition compression_code :: "CompressionAlgorithm \<Rightarrow> int" where
  "compression_code c = (case c of CompressionNone \<Rightarrow> 0 | Zstd \<Rightarrow> 1)"

definition responder_id_to_val :: "ResponderId \<Rightarrow> cbor" where
  "responder_id_to_val rid =
     CMap [field 1 (CInteger (responder_id_type_code (rid_id_type rid))),
           field 2 (CBytes (rid_value rid))]"

definition ca_scope_to_val :: "CaScope \<Rightarrow> cbor" where
  "ca_scope_to_val s =
     CMap ([field 1 (CBytes (cs_hash_algorithm s)),
            field 2 (CBytes (cs_issuer_name_hash s)),
            field 3 (CBytes (cs_issuer_key_hash s)),
            field 4 (uint_val (cs_epoch s)),
            field 5 (responder_id_to_val (cs_responder_id s))]
           @ opt_field 6 (\<lambda>chain. CArray (map CBytes chain)) (cs_responder_chain s)
           @ [field 7 (CBytes (cs_signature_algorithm s)),
              field 8 (CInteger (completeness_code (cs_completeness s)))])"

definition window_to_val :: "Window \<Rightarrow> cbor" where
  "window_to_val w =
     CMap [field 1 (uint_val (w_produced_at w)),
           field 2 (uint_val (w_this_update_min w)),
           field 3 (uint_val (w_next_update_min w)),
           field 4 (uint_val (w_next_update_max w))]"

definition integrity_to_val :: "Integrity \<Rightarrow> cbor" where
  "integrity_to_val i =
     CMap [field 1 (CBytes (in_index_digest i)), field 2 (CBytes (in_data_digest i))]"

definition continuity_to_val :: "Continuity \<Rightarrow> cbor" where
  "continuity_to_val c =
     CMap (opt_field 1 CBytes (co_prev_manifest_digest c)
           @ opt_field 2 CBytes (co_base_manifest_digest c)
           @ [field 3 (uint_val (co_chain_length c))])"

definition shard_to_val :: "Shard \<Rightarrow> cbor" where
  "shard_to_val s =
     CMap [field 1 (uint_val (sh_shard_index s)),
           field 2 (uint_val (sh_shard_count s)),
           field 3 (uint_val (sh_shard_fn s))]"

definition compression_to_val :: "Compression \<Rightarrow> cbor" where
  "compression_to_val c =
     CMap ([field 1 (CInteger (compression_code (cm_algorithm c)))]
           @ opt_field 2 CBytes (cm_dictionary_digest c))"

definition extensions_to_val :: "(string \<times> cbor) list \<Rightarrow> cbor" where
  "extensions_to_val exts = CMap (map (\<lambda>(k, v). (CText k, v)) exts)"

definition manifest_to_val :: "Manifest \<Rightarrow> cbor" where
  "manifest_to_val m =
     CMap ([field 1 (uint_val (mf_format_version m)),
            field 2 (CBytes (mf_bundle_id m)),
            field 3 (CText (mf_producer_id m)),
            field 4 (uint_val (mf_created_at m)),
            field 5 (CInteger (bundle_type_code (mf_bundle_type m))),
            field 6 (CArray (map ca_scope_to_val (mf_ca_scopes m))),
            field 7 (window_to_val (mf_window m)),
            field 8 (integrity_to_val (mf_integrity m)),
            field 9 (uint_val (mf_entry_count m)),
            field 10 (continuity_to_val (mf_continuity m))]
           @ opt_field 11 shard_to_val (mf_shard m)
           @ opt_field 12 compression_to_val (mf_compression m)
           @ opt_field 13 extensions_to_val (mf_extensions m))"

definition to_cbor :: "externals \<Rightarrow> Manifest \<Rightarrow> bytes" where
  "to_cbor E m = cbor_into E (manifest_to_val m)"

section \<open>Decoding\<close>

text \<open>
  The value of the first entry with the integer key, which every getter of the reader looks for.
\<close>

fun find_key :: "cbor_map \<Rightarrow> int \<Rightarrow> cbor option" where
  "find_key [] key = None"
| "find_key ((CInteger ki, v) # m) key = (if ki = key then Some v else find_key m key)"
| "find_key (_ # m) key = find_key m key"

fun as_map :: "cbor \<Rightarrow> cbor_map option" where
  "as_map (CMap m) = Some m"
| "as_map _ = None"

fun as_array :: "cbor \<Rightarrow> cbor list option" where
  "as_array (CArray a) = Some a"
| "as_array _ = None"

fun as_bytes :: "cbor \<Rightarrow> bytes option" where
  "as_bytes (CBytes b) = Some b"
| "as_bytes _ = None"

fun as_text :: "cbor \<Rightarrow> string option" where
  "as_text (CText s) = Some s"
| "as_text _ = None"

fun as_integer :: "cbor \<Rightarrow> int option" where
  "as_integer (CInteger i) = Some i"
| "as_integer _ = None"

definition field_error :: "int \<Rightarrow> string \<Rightarrow> ahu_error" where
  "field_error key what = ManifestField (''key '' @ show_int key @ '': '' @ what)"

definition get_required :: "(cbor \<Rightarrow> 'a option) \<Rightarrow> string \<Rightarrow> cbor_map \<Rightarrow> int \<Rightarrow> ahu_error + 'a" where
  "get_required as_t expected m key =
     (case find_key m key of
        None \<Rightarrow> Inl (field_error key ''missing'')
      | Some v \<Rightarrow> ok_orR (field_error key (''expected '' @ expected)) (as_t v))"

definition get_uint :: "cbor_map \<Rightarrow> int \<Rightarrow> ahu_error + u64" where
  "get_uint m key =
     bindR (get_required as_integer ''integer'' m key) (\<lambda>n.
       if 0 \<le> n \<and> n < 2 ^ 64 then Inr (word_of_int n)
       else Inl (field_error key ''integer out of u64 range''))"

definition get_bytes :: "cbor_map \<Rightarrow> int \<Rightarrow> ahu_error + bytes" where
  "get_bytes = get_required as_bytes ''bytes''"

definition get_text :: "cbor_map \<Rightarrow> int \<Rightarrow> ahu_error + string" where
  "get_text = get_required as_text ''text''"

definition get_map :: "cbor_map \<Rightarrow> int \<Rightarrow> ahu_error + cbor_map" where
  "get_map = get_required as_map ''map''"

definition get_array :: "cbor_map \<Rightarrow> int \<Rightarrow> ahu_error + cbor list" where
  "get_array = get_required as_array ''array''"

definition get_optional_bytes :: "cbor_map \<Rightarrow> int \<Rightarrow> ahu_error + bytes option" where
  "get_optional_bytes m key =
     (case find_key m key of
        None \<Rightarrow> Inr None
      | Some v \<Rightarrow>
          (case as_bytes v of
             Some b \<Rightarrow> Inr (Some b)
           | None \<Rightarrow> Inl (field_error key ''expected bytes'')))"

definition get_optional_map :: "cbor_map \<Rightarrow> int \<Rightarrow> cbor_map option" where
  "get_optional_map m key = Option.bind (find_key m key) as_map"

definition to_fixed_32 :: "bytes \<Rightarrow> ahu_error + bytes" where
  "to_fixed_32 v =
     (if length v = 32 then Inr v else Inl (ManifestField ''expected 32-byte digest''))"

definition transposeR :: "('a \<Rightarrow> 'e + 'b) \<Rightarrow> 'a option \<Rightarrow> 'e + 'b option" where
  "transposeR f x = (case x of None \<Rightarrow> Inr None | Some y \<Rightarrow> bindR (f y) (\<lambda>z. Inr (Some z)))"

definition unknown_code :: "string \<Rightarrow> u64 \<Rightarrow> ahu_error" where
  "unknown_code what n = ManifestField (''unknown '' @ what @ '': '' @ show_nat (unat n))"

definition responder_id_from_map :: "cbor_map \<Rightarrow> ahu_error + ResponderId" where
  "responder_id_from_map m =
     bindR (get_uint m 1) (\<lambda>n.
     bindR (if n = 0 then Inr ByName else if n = 1 then Inr ByKey
            else Inl (unknown_code ''responder_id type'' n)) (\<lambda>id_type.
     bindR (get_bytes m 2) (\<lambda>value.
     Inr \<lparr>rid_id_type = id_type, rid_value = value\<rparr>)))"

text \<open>
  The loop over the scope's entries does not stop at the first key 6: a later array replaces an
  earlier one, and an entry of another type is skipped.
\<close>

fun responder_chain_from :: "bytes list option \<Rightarrow> cbor_map \<Rightarrow> ahu_error + bytes list option" where
  "responder_chain_from chain [] = Inr chain"
| "responder_chain_from chain ((CInteger ki, CArray arr) # m) =
     (if ki = 6
      then bindR (mapR (\<lambda>c. ok_orR (ManifestField ''responder chain entry is not bytes'') (as_bytes c)) arr)
             (\<lambda>certs. responder_chain_from (Some certs) m)
      else responder_chain_from chain m)"
| "responder_chain_from chain (_ # m) = responder_chain_from chain m"

definition ca_scope_from_val :: "cbor \<Rightarrow> ahu_error + CaScope" where
  "ca_scope_from_val scope_val =
     bindR (ok_orR (ManifestField ''ca_scope entry is not a map'') (as_map scope_val)) (\<lambda>scope_map.
     bindR (get_map scope_map 5) (\<lambda>rid_map.
     bindR (responder_id_from_map rid_map) (\<lambda>responder_id.
     bindR (responder_chain_from None scope_map) (\<lambda>responder_chain.
     bindR (get_bytes scope_map 1) (\<lambda>hash_algorithm.
     bindR (get_bytes scope_map 2) (\<lambda>issuer_name_hash.
     bindR (get_bytes scope_map 3) (\<lambda>issuer_key_hash.
     bindR (get_uint scope_map 4) (\<lambda>epoch.
     bindR (get_bytes scope_map 7) (\<lambda>signature_algorithm.
     bindR (get_uint scope_map 8) (\<lambda>n.
     bindR (if n = 0 then Inr Partial else if n = 1 then Inr AuthoritativeComplete
            else Inl (unknown_code ''completeness'' n)) (\<lambda>completeness.
     Inr \<lparr>cs_hash_algorithm = hash_algorithm, cs_issuer_name_hash = issuer_name_hash,
          cs_issuer_key_hash = issuer_key_hash, cs_epoch = epoch, cs_responder_id = responder_id,
          cs_responder_chain = responder_chain, cs_signature_algorithm = signature_algorithm,
          cs_completeness = completeness\<rparr>)))))))))))"

definition window_from_map :: "cbor_map \<Rightarrow> ahu_error + Window" where
  "window_from_map m =
     bindR (get_uint m 1) (\<lambda>produced_at.
     bindR (get_uint m 2) (\<lambda>this_update_min.
     bindR (get_uint m 3) (\<lambda>next_update_min.
     bindR (get_uint m 4) (\<lambda>next_update_max.
     Inr \<lparr>w_produced_at = produced_at, w_this_update_min = this_update_min,
          w_next_update_min = next_update_min, w_next_update_max = next_update_max\<rparr>))))"

definition integrity_from_map :: "cbor_map \<Rightarrow> ahu_error + Integrity" where
  "integrity_from_map m =
     bindR (bindR (get_bytes m 1) to_fixed_32) (\<lambda>index_digest.
     bindR (bindR (get_bytes m 2) to_fixed_32) (\<lambda>data_digest.
     Inr \<lparr>in_index_digest = index_digest, in_data_digest = data_digest\<rparr>))"

definition continuity_from_map :: "cbor_map \<Rightarrow> ahu_error + Continuity" where
  "continuity_from_map m =
     bindR (bindR (get_optional_bytes m 1) (transposeR to_fixed_32)) (\<lambda>prev.
     bindR (bindR (get_optional_bytes m 2) (transposeR to_fixed_32)) (\<lambda>base.
     bindR (get_uint m 3) (\<lambda>chain_length.
     Inr \<lparr>co_prev_manifest_digest = prev, co_base_manifest_digest = base,
          co_chain_length = chain_length\<rparr>)))"

definition shard_from_map :: "cbor_map \<Rightarrow> ahu_error + Shard" where
  "shard_from_map m =
     bindR (get_uint m 1) (\<lambda>shard_index.
     bindR (get_uint m 2) (\<lambda>shard_count.
     bindR (get_uint m 3) (\<lambda>shard_fn.
     Inr \<lparr>sh_shard_index = shard_index, sh_shard_count = shard_count, sh_shard_fn = shard_fn\<rparr>)))"

definition compression_from_map :: "cbor_map \<Rightarrow> ahu_error + Compression" where
  "compression_from_map m =
     bindR (get_uint m 1) (\<lambda>n.
     bindR (if n = 0 then Inr CompressionNone else if n = 1 then Inr Zstd
            else Inl (unknown_code ''compression algorithm'' n)) (\<lambda>algo.
     bindR (bindR (get_optional_bytes m 2) (transposeR to_fixed_32)) (\<lambda>dict.
     Inr \<lparr>cm_algorithm = algo, cm_dictionary_digest = dict\<rparr>)))"

definition extensions_from_map :: "cbor_map \<Rightarrow> (string \<times> cbor) list" where
  "extensions_from_map m =
     List.map_filter (\<lambda>(k, v). map_option (\<lambda>key. (key, v)) (as_text k)) m"

definition manifest_from_map :: "externals \<Rightarrow> cbor_map \<Rightarrow> ahu_error + Manifest" where
  "manifest_from_map E m =
     bindR (get_uint m 1) (\<lambda>format_version.
     bindR (get_bytes m 2) (\<lambda>bundle_id_bytes.
     bindR (map_errR (\<lambda>e. ManifestField (''bundle_id: '' @ e)) (uuid_from_slice E bundle_id_bytes)) (\<lambda>bundle_id.
     bindR (get_text m 3) (\<lambda>producer_id.
     bindR (get_uint m 4) (\<lambda>created_at.
     bindR (get_uint m 5) (\<lambda>bundle_type_raw.
     bindR (if bundle_type_raw = 0 then Inr FullBundle
            else if bundle_type_raw = 1 then Inr DeltaBundle
            else Inl (unknown_code ''bundle_type'' bundle_type_raw)) (\<lambda>bundle_type.
     bindR (get_array m 6) (\<lambda>ca_scope_arr.
     bindR (mapR ca_scope_from_val ca_scope_arr) (\<lambda>ca_scopes.
     bindR (bindR (get_map m 7) window_from_map) (\<lambda>window.
     bindR (bindR (get_map m 8) integrity_from_map) (\<lambda>integrity.
     bindR (get_uint m 9) (\<lambda>entry_count.
     bindR (bindR (get_map m 10) continuity_from_map) (\<lambda>continuity.
     bindR (transposeR shard_from_map (get_optional_map m 11)) (\<lambda>shard.
     bindR (transposeR compression_from_map (get_optional_map m 12)) (\<lambda>compression.
     Inr \<lparr>mf_format_version = format_version, mf_bundle_id = bundle_id, mf_producer_id = producer_id,
          mf_created_at = created_at, mf_bundle_type = bundle_type, mf_ca_scopes = ca_scopes,
          mf_window = window, mf_integrity = integrity, mf_entry_count = entry_count,
          mf_continuity = continuity, mf_shard = shard, mf_compression = compression,
          mf_extensions = map_option extensions_from_map (get_optional_map m 13)\<rparr>)))))))))))))))"

definition from_cbor :: "externals \<Rightarrow> bytes \<Rightarrow> ahu_error + Manifest" where
  "from_cbor E data =
     bindR (map_errR ManifestDecode (cbor_from E data)) (\<lambda>val.
     bindR (ok_orR (ManifestDecode ''root is not a map'') (as_map val)) (manifest_from_map E))"

section \<open>Well-formed manifests\<close>

text \<open>The lengths that the Rust types fix: 16-byte UUID, 32-byte digests.\<close>

definition opt_digest :: "bytes option \<Rightarrow> bool" where
  "opt_digest d \<longleftrightarrow> (case d of None \<Rightarrow> True | Some b \<Rightarrow> length b = 32)"

definition wf_manifest :: "Manifest \<Rightarrow> bool" where
  "wf_manifest m \<longleftrightarrow>
     length (mf_bundle_id m) = 16 \<and>
     length (in_index_digest (mf_integrity m)) = 32 \<and>
     length (in_data_digest (mf_integrity m)) = 32 \<and>
     opt_digest (co_prev_manifest_digest (mf_continuity m)) \<and>
     opt_digest (co_base_manifest_digest (mf_continuity m)) \<and>
     (case mf_compression m of None \<Rightarrow> True | Some c \<Rightarrow> opt_digest (cm_dictionary_digest c))"

section \<open>Reading back what was written\<close>

lemma find_key_field [simp]:
  "find_key (field k v # m) key = (if k = key then Some v else find_key m key)"
  by (simp add: field_def)

lemma find_key_opt_field [simp]:
  "find_key (opt_field k f x @ m) key =
     (if k = key \<and> x \<noteq> None then map_option f x else find_key m key)"
  by (auto simp: opt_field_def split: option.splits)

lemma find_key_opt_field_end [simp]:
  "find_key (opt_field k f x) key = (if k = key then map_option f x else None)"
  by (auto simp: opt_field_def split: option.splits)

lemma u64_of_uint: "0 \<le> uint w" "uint (w :: u64) < 18446744073709551616" "word_of_int (uint w) = w"
  using unsigned_less [of w, where ?'a = int] by simp_all

lemmas getter_defs = get_uint_def get_bytes_def get_text_def get_map_def get_array_def
  get_optional_bytes_def get_optional_map_def get_required_def uint_val_def u64_of_uint

lemma responder_id_roundtrip:
  "as_map (responder_id_to_val rid) = Some m \<Longrightarrow> responder_id_from_map m = Inr rid"
  by (cases rid; cases "rid_id_type rid")
    (auto simp: responder_id_to_val_def responder_id_from_map_def responder_id_type_code_def getter_defs)

lemma responder_chain_from_field [simp]:
  "k \<noteq> 6 \<Longrightarrow> responder_chain_from chain (field k v # m) = responder_chain_from chain m"
  by (cases v) (simp_all add: field_def)

lemma mapR_certs [simp]: "mapR (\<lambda>c. ok_orR e (as_bytes c)) (map CBytes chain) = Inr chain"
  by (induction chain) simp_all

lemma responder_chain_from_opt_field [simp]:
  "responder_chain_from None (opt_field 6 (\<lambda>chain. CArray (map CBytes chain)) x @ m)
     = responder_chain_from x m"
  by (cases x) (simp_all add: opt_field_def field_def)

lemma ca_scope_roundtrip: "ca_scope_from_val (ca_scope_to_val s) = Inr s"
proof -
  obtain m where m: "responder_id_to_val (cs_responder_id s) = CMap m"
    by (simp add: responder_id_to_val_def)
  then have "responder_id_from_map m = Inr (cs_responder_id s)"
    by (simp add: responder_id_roundtrip)
  with m show ?thesis
    by (cases s; cases "cs_completeness s")
      (auto simp: ca_scope_to_val_def ca_scope_from_val_def completeness_code_def getter_defs)
qed

lemma ca_scopes_roundtrip [simp]: "mapR ca_scope_from_val (map ca_scope_to_val ss) = Inr ss"
  using mapR_map_Inr [of ss ca_scope_from_val ca_scope_to_val "\<lambda>s. s"]
  by (simp add: ca_scope_roundtrip)

lemma window_roundtrip:
  "as_map (window_to_val w) = Some m \<Longrightarrow> window_from_map m = Inr w"
  by (auto simp: window_to_val_def window_from_map_def getter_defs)

lemma integrity_roundtrip:
  "as_map (integrity_to_val i) = Some m \<Longrightarrow> length (in_index_digest i) = 32 \<Longrightarrow>
   length (in_data_digest i) = 32 \<Longrightarrow> integrity_from_map m = Inr i"
  by (auto simp: integrity_to_val_def integrity_from_map_def to_fixed_32_def getter_defs)

lemma transpose_digest [simp]: "opt_digest d \<Longrightarrow> transposeR to_fixed_32 d = Inr d"
  by (cases d) (auto simp: opt_digest_def transposeR_def to_fixed_32_def)

lemma get_optional_bytes_opt_field [simp]:
  "get_optional_bytes (opt_field k CBytes d @ m) k =
     (case d of None \<Rightarrow> get_optional_bytes m k | Some b \<Rightarrow> Inr d)"
  "get_optional_bytes (opt_field k CBytes d) k = Inr d"
  "j \<noteq> k \<Longrightarrow> get_optional_bytes (opt_field j CBytes d @ m) k = get_optional_bytes m k"
  "j \<noteq> k \<Longrightarrow> get_optional_bytes (field j v # m) k = get_optional_bytes m k"
  "get_optional_bytes [] k = Inr None"
  by (auto simp: get_optional_bytes_def split: option.splits)

lemma continuity_roundtrip:
  "as_map (continuity_to_val c) = Some m \<Longrightarrow> opt_digest (co_prev_manifest_digest c) \<Longrightarrow>
   opt_digest (co_base_manifest_digest c) \<Longrightarrow> continuity_from_map m = Inr c"
  by (cases "co_prev_manifest_digest c"; cases "co_base_manifest_digest c"; cases c)
    (auto simp: continuity_to_val_def continuity_from_map_def get_uint_def get_required_def
      uint_val_def u64_of_uint)

lemma shard_roundtrip: "as_map (shard_to_val s) = Some m \<Longrightarrow> shard_from_map m = Inr s"
  by (auto simp: shard_to_val_def shard_from_map_def getter_defs)

lemma compression_roundtrip:
  "as_map (compression_to_val c) = Some m \<Longrightarrow> opt_digest (cm_dictionary_digest c) \<Longrightarrow>
   compression_from_map m = Inr c"
  by (cases c; cases "cm_algorithm c")
    (auto simp: compression_to_val_def compression_from_map_def compression_code_def
      get_uint_def get_required_def)

lemma extensions_roundtrip:
  "extensions_from_map (map (\<lambda>(k, v). (CText k, v)) exts) = exts"
  by (induction exts) (auto simp: extensions_from_map_def map_filter_simps)

lemma bundle_type_code_cases:
  "word_of_int (bundle_type_code t) = (0 :: u64) \<longleftrightarrow> t = FullBundle"
  "word_of_int (bundle_type_code t) = (1 :: u64) \<longleftrightarrow> t = DeltaBundle"
  "0 \<le> bundle_type_code t" "bundle_type_code t < 18446744073709551616"
  by (cases t; simp add: bundle_type_code_def)+

lemma as_map_vals:
  "\<exists>m. window_to_val w = CMap m" "\<exists>m. integrity_to_val i = CMap m"
  "\<exists>m. continuity_to_val c = CMap m" "\<exists>m. shard_to_val s = CMap m"
  "\<exists>m. compression_to_val z = CMap m"
  by (simp_all add: window_to_val_def integrity_to_val_def continuity_to_val_def shard_to_val_def
      compression_to_val_def)

lemma transposeR_shard [simp]:
  "transposeR shard_from_map (Option.bind (map_option shard_to_val x) as_map) = Inr x"
  using as_map_vals(4) by (cases x) (auto simp: transposeR_def shard_to_val_def shard_roundtrip)

lemma manifest_from_to_val:
  assumes "wf_manifest m" and "uuid_16 E" and "manifest_to_val m = CMap v"
  shows "manifest_from_map E v = Inr m"
proof -
  obtain w i c where vals: "window_to_val (mf_window m) = CMap w"
    "integrity_to_val (mf_integrity m) = CMap i" "continuity_to_val (mf_continuity m) = CMap c"
    using as_map_vals by metis
  have parts: "window_from_map w = Inr (mf_window m)" "integrity_from_map i = Inr (mf_integrity m)"
    "continuity_from_map c = Inr (mf_continuity m)"
    using vals assms(1)
    by (simp_all add: window_roundtrip integrity_roundtrip continuity_roundtrip wf_manifest_def)
  have uuid: "uuid_from_slice E (mf_bundle_id m) = Inr (mf_bundle_id m)"
    using assms(1,2) by (simp add: uuid_16_iff wf_manifest_def)
  have shard: "transposeR shard_from_map (Option.bind (map_option shard_to_val (mf_shard m)) as_map)
      = Inr (mf_shard m)" by simp
  have comp: "transposeR compression_from_map
      (Option.bind (map_option compression_to_val (mf_compression m)) as_map) = Inr (mf_compression m)"
    using assms(1) as_map_vals(5)
    by (cases "mf_compression m")
      (auto simp: transposeR_def compression_to_val_def compression_roundtrip wf_manifest_def)
  have ext: "map_option extensions_from_map
      (Option.bind (map_option extensions_to_val (mf_extensions m)) as_map) = mf_extensions m"
    by (cases "mf_extensions m") (auto simp: extensions_to_val_def extensions_roundtrip)
  have v: "v = [field 1 (uint_val (mf_format_version m)),
            field 2 (CBytes (mf_bundle_id m)),
            field 3 (CText (mf_producer_id m)),
            field 4 (uint_val (mf_created_at m)),
            field 5 (CInteger (bundle_type_code (mf_bundle_type m))),
            field 6 (CArray (map ca_scope_to_val (mf_ca_scopes m))),
            field 7 (window_to_val (mf_window m)),
            field 8 (integrity_to_val (mf_integrity m)),
            field 9 (uint_val (mf_entry_count m)),
            field 10 (continuity_to_val (mf_continuity m))]
           @ opt_field 11 shard_to_val (mf_shard m)
           @ opt_field 12 compression_to_val (mf_compression m)
           @ opt_field 13 extensions_to_val (mf_extensions m)"
    using assms(3) by (simp add: manifest_to_val_def)
  have opts: "find_key v 11 = map_option shard_to_val (mf_shard m)"
    "find_key v 12 = map_option compression_to_val (mf_compression m)"
    "find_key v 13 = map_option extensions_to_val (mf_extensions m)"
    by (cases "mf_shard m"; cases "mf_compression m"; simp add: v)+
  have reqs: "find_key v 1 = Some (uint_val (mf_format_version m))"
    "find_key v 2 = Some (CBytes (mf_bundle_id m))" "find_key v 3 = Some (CText (mf_producer_id m))"
    "find_key v 4 = Some (uint_val (mf_created_at m))"
    "find_key v 5 = Some (CInteger (bundle_type_code (mf_bundle_type m)))"
    "find_key v 6 = Some (CArray (map ca_scope_to_val (mf_ca_scopes m)))"
    "find_key v 7 = Some (CMap w)" "find_key v 8 = Some (CMap i)"
    "find_key v 9 = Some (uint_val (mf_entry_count m))" "find_key v 10 = Some (CMap c)"
    by (simp_all add: v vals)
  show ?thesis
    by (cases "mf_bundle_type m")
      (simp_all add: manifest_from_map_def opts reqs parts uuid comp ext getter_defs bundle_type_code_cases)
qed

lemma from_cbor_to_cbor:
  assumes "wf_manifest m" and "uuid_16 E" and "cbor_roundtrip E (manifest_to_val m)"
  shows "from_cbor E (to_cbor E m) = Inr m"
proof -
  obtain v where "manifest_to_val m = CMap v" by (simp add: manifest_to_val_def)
  with assms manifest_from_to_val [OF assms(1,2)] show ?thesis
    by (simp add: from_cbor_def to_cbor_def cbor_roundtrip_def)
qed

text \<open>Whatever the reader accepts is well-formed.\<close>

lemma transpose_digest_Inr: "transposeR to_fixed_32 d = Inr d' \<Longrightarrow> opt_digest d'"
  by (cases d) (auto simp: transposeR_def to_fixed_32_def opt_digest_def split: if_splits)

lemma integrity_from_map_wf:
  "integrity_from_map m = Inr i \<Longrightarrow> length (in_index_digest i) = 32 \<and> length (in_data_digest i) = 32"
  by (auto simp: integrity_from_map_def bindR_eq_Inr to_fixed_32_def split: if_splits)

lemma continuity_from_map_wf:
  "continuity_from_map m = Inr c \<Longrightarrow> opt_digest (co_prev_manifest_digest c) \<and> opt_digest (co_base_manifest_digest c)"
  by (auto simp: continuity_from_map_def bindR_eq_Inr dest: transpose_digest_Inr)

lemma transposeR_simps:
  "transposeR f None = Inr None"
  "transposeR f (Some y) = bindR (f y) (\<lambda>z. Inr (Some z))"
  by (simp_all add: transposeR_def)

lemma compression_from_map_wf:
  "transposeR compression_from_map x = Inr c \<Longrightarrow>
   (case c of None \<Rightarrow> True | Some z \<Rightarrow> opt_digest (cm_dictionary_digest z))"
  by (cases x)
    (auto simp: transposeR_simps compression_from_map_def bindR_eq_Inr dest: transpose_digest_Inr)

lemma from_cbor_wf:
  assumes "from_cbor E data = Inr m" and "uuid_16 E"
  shows "wf_manifest m"
proof -
  obtain v where "manifest_from_map E v = Inr m"
    using assms(1) by (auto simp: from_cbor_def bindR_eq_Inr)
  then obtain b u i c z x y where "uuid_from_slice E b = Inr (mf_bundle_id m)"
    and "integrity_from_map i = Inr (mf_integrity m)" and "continuity_from_map c = Inr (mf_continuity m)"
    and "transposeR compression_from_map z = Inr (mf_compression m)"
    unfolding manifest_from_map_def bindR_eq_Inr map_errR_eq_Inr by auto
  then show ?thesis
    using assms(2) integrity_from_map_wf continuity_from_map_wf compression_from_map_wf
    by (auto simp: wf_manifest_def uuid_16_iff)
qed

end
