(* ===== verification/Ahu_Bundle.thy ===== *)
theory Ahu_Bundle
  imports Ahu_Index Ahu_Manifest
begin

text \<open>
  Bundles in memory (\<^verbatim>\<open>crates/ahu/src/bundle.rs\<close>): parsing and serialising the four sections,
  looking up a response, and the builder that sorts the entries, lays out the data section with
  shared payloads stored once, and writes the file. \<^verbatim>\<open>HashMap\<close> is a map, the stable
  \<^verbatim>\<open>sort_by_key\<close> is \<^const>\<open>sort_key\<close>. No Rust allocation exceeds \<^verbatim>\<open>isize::MAX\<close> bytes, which
  the predicate \<open>vec_fits\<close> states where a length is cast to \<^verbatim>\<open>u64\<close>.
\<close>

section \<open>Parsing and lookup\<close>

record Bundle =
  b_header :: FileHeader
  b_manifest :: Manifest
  b_manifest_bytes :: bytes
  b_seal_bytes :: bytes
  b_index :: "IndexRecord list"
  b_data :: bytes

definition vec_fits :: "'a list \<Rightarrow> bool" where
  "vec_fits xs \<longleftrightarrow> length xs < 2 ^ 63"

definition len_u64 :: "'a list \<Rightarrow> u64" where
  "len_u64 xs = of_nat (length xs)"

definition len_u32 :: "'a list \<Rightarrow> u32" where
  "len_u32 xs = of_nat (length xs)"

definition read_section :: "bytes \<Rightarrow> u64 \<Rightarrow> u64 \<Rightarrow> ahu_error + bytes" where
  "read_section bs offset len =
     ok_orR (HeaderOutOfBounds ''section'' offset len (len_u64 bs))
       (Option.bind (checked_add_usize (unat offset) (unat len)) (slice_get bs (unat offset)))"

fun read_records :: "nat \<Rightarrow> bytes \<Rightarrow> ahu_error + IndexRecord list" where
  "read_records 0 bs = Inr []"
| "read_records (Suc n) bs =
     bindR (record_read_from bs) (\<lambda>(r, bs). bindR (read_records n bs) (\<lambda>rs. Inr (r # rs)))"

definition parse_index :: "bytes \<Rightarrow> ahu_error + IndexRecord list" where
  "parse_index index_bytes =
     (if length index_bytes mod INDEX_RECORD_SIZE \<noteq> 0
      then Inl (IndexSizeMismatch (len_u64 index_bytes) INDEX_RECORD_SIZE)
      else read_records (length index_bytes div INDEX_RECORD_SIZE) index_bytes)"

definition from_bytes :: "externals \<Rightarrow> bytes \<Rightarrow> ahu_error + Bundle" where
  "from_bytes E bs =
     bindR (header_read_from bs) (\<lambda>(header, _).
     bindR (validate_bounds header (len_u64 bs)) (\<lambda>_.
     bindR (read_section bs (fh_manifest_offset header) (ucast (fh_manifest_length header))) (\<lambda>manifest_bytes.
     bindR (from_cbor E manifest_bytes) (\<lambda>manifest.
     bindR (read_section bs (fh_seal_offset header) (ucast (fh_seal_length header))) (\<lambda>seal_bytes.
     bindR (read_section bs (fh_index_offset header) (fh_index_length header)) (\<lambda>index_bytes.
     bindR (parse_index index_bytes) (\<lambda>index.
     bindR (read_section bs (fh_data_offset header) (fh_data_length header)) (\<lambda>data.
     Inr \<lparr>b_header = header, b_manifest = manifest, b_manifest_bytes = manifest_bytes,
          b_seal_bytes = seal_bytes, b_index = index, b_data = data\<rparr>))))))))"

text \<open>\<^verbatim>\<open>from_file\<close>, with what reading the path returned.\<close>

definition from_file :: "externals \<Rightarrow> io_error + bytes \<Rightarrow> ahu_error + Bundle" where
  "from_file E contents = bindR (map_errR Io contents) (from_bytes E)"

definition try_len_u32 :: "string \<Rightarrow> bytes \<Rightarrow> ahu_error + u32" where
  "try_len_u32 message xs =
     (if length xs < 2 ^ 32 then Inr (len_u32 xs) else Inl (InvalidOperation message))"

definition write_index :: "IndexRecord list \<Rightarrow> bytes" where
  "write_index rs = concat (map record_write_to rs)"

definition to_bytes :: "Bundle \<Rightarrow> ahu_error + bytes" where
  "to_bytes b =
     (let index = write_index (b_index b); manifest_offset = of_nat HEADER_SIZE in
     bindR (try_len_u32 ''manifest too large'' (b_manifest_bytes b)) (\<lambda>manifest_length.
     let seal_offset = manifest_offset + ucast manifest_length in
     bindR (try_len_u32 ''seal too large'' (b_seal_bytes b)) (\<lambda>seal_length.
     let index_offset = seal_offset + ucast seal_length; index_length = len_u64 index in
     bindR (ok_orR (InvalidOperation ''bundle too large'') (checked_add_u64 index_offset index_length)) (\<lambda>data_offset.
     Inr (header_write_to
            ((b_header b)\<lparr>fh_manifest_offset := manifest_offset, fh_manifest_length := manifest_length,
               fh_seal_offset := seal_offset, fh_seal_length := seal_length,
               fh_index_offset := index_offset, fh_index_length := index_length,
               fh_data_offset := data_offset, fh_data_length := len_u64 (b_data b)\<rparr>)
          @ b_manifest_bytes b @ b_seal_bytes b @ index @ b_data b)))))"

definition entry_bytes :: "Bundle \<Rightarrow> IndexRecord \<Rightarrow> bytes option" where
  "entry_bytes b record =
     (if is_tombstone record then None
      else Option.bind (checked_add_usize (unat (ir_data_offset record)) (unat (ir_data_length record)))
             (slice_get (b_data b) (unat (ir_data_offset record))))"

definition entry_at :: "Bundle \<Rightarrow> nat \<Rightarrow> bytes option" where
  "entry_at b idx = (if idx < length (b_index b) then entry_bytes b (b_index b ! idx) else None)"

definition lookup :: "Bundle \<Rightarrow> bytes \<Rightarrow> bytes option" where
  "lookup b entry_key = Option.bind (binary_search (b_index b) entry_key) (entry_at b)"

definition lookup_preferred :: "Bundle \<Rightarrow> bytes \<Rightarrow> u16 list \<Rightarrow> bytes option" where
  "lookup_preferred b entry_key preferences =
     Option.bind (binary_search_preferred (b_index b) entry_key preferences) (entry_at b)"

section \<open>The builder\<close>

record BundleBuilder =
  bb_manifest :: Manifest
  bb_entries :: "(IndexRecord \<times> bytes) list"

definition builder_new :: "Manifest \<Rightarrow> BundleBuilder" where
  "builder_new m = \<lparr>bb_manifest = m, bb_entries = []\<rparr>"

definition push_entry :: "IndexRecord \<Rightarrow> bytes \<Rightarrow> BundleBuilder \<Rightarrow> BundleBuilder" where
  "push_entry r payload b = b\<lparr>bb_entries := bb_entries b @ [(r, payload)]\<rparr>"

definition add_entry_with_discriminator :: "bytes \<Rightarrow> u16 \<Rightarrow> bytes \<Rightarrow> BundleBuilder \<Rightarrow> BundleBuilder" where
  "add_entry_with_discriminator entry_key discriminator response_der b =
     push_entry \<lparr>ir_entry_key = entry_key, ir_data_offset = 0, ir_data_length = len_u32 response_der,
                 ir_flags = 0, ir_discriminator = discriminator\<rparr> response_der b"

definition add_entry :: "bytes \<Rightarrow> bytes \<Rightarrow> BundleBuilder \<Rightarrow> BundleBuilder" where
  "add_entry entry_key response_der b = add_entry_with_discriminator entry_key 0 response_der b"

definition add_dual_entry_with_discriminator ::
    "bytes \<Rightarrow> bytes \<Rightarrow> bytes \<Rightarrow> u16 \<Rightarrow> BundleBuilder \<Rightarrow> BundleBuilder" where
  "add_dual_entry_with_discriminator entry_key_1 entry_key_2 response_der discriminator b =
     (let len = len_u32 response_der; flags = ALIAS OR MULTI;
          record = (\<lambda>k. \<lparr>ir_entry_key = k, ir_data_offset = 0, ir_data_length = len,
                         ir_flags = flags, ir_discriminator = discriminator\<rparr>)
      in push_entry (record entry_key_2) response_der (push_entry (record entry_key_1) response_der b))"

definition add_dual_entry :: "bytes \<Rightarrow> bytes \<Rightarrow> bytes \<Rightarrow> BundleBuilder \<Rightarrow> BundleBuilder" where
  "add_dual_entry entry_key_1 entry_key_2 response_der b =
     add_dual_entry_with_discriminator entry_key_1 entry_key_2 response_der 0 b"

definition add_tombstone :: "bytes \<Rightarrow> u16 \<Rightarrow> BundleBuilder \<Rightarrow> BundleBuilder" where
  "add_tombstone entry_key discriminator b =
     push_entry \<lparr>ir_entry_key = entry_key, ir_data_offset = 0, ir_data_length = 0,
                 ir_flags = TOMBSTONE, ir_discriminator = discriminator\<rparr> [] b"

record layout =
  la_data :: bytes
  la_index :: "IndexRecord list"
  la_offsets :: "bytes \<Rightarrow> (u64 \<times> u32) option"

definition layout_empty :: layout where
  "layout_empty = \<lparr>la_data = [], la_index = [], la_offsets = (\<lambda>_. None)\<rparr>"

definition place :: "IndexRecord \<Rightarrow> u64 \<Rightarrow> u32 \<Rightarrow> IndexRecord" where
  "place r offset len = r\<lparr>ir_data_offset := offset, ir_data_length := len\<rparr>"

definition layout_entry :: "externals \<Rightarrow> layout \<Rightarrow> IndexRecord \<times> bytes \<Rightarrow> layout" where
  "layout_entry E st e =
     (let (record, payload) = e; offset = len_u64 (la_data st); len = len_u32 payload in
      if is_tombstone record then st\<lparr>la_index := la_index st @ [place record 0 0]\<rparr>
      else if is_alias record then
        (let digest = sha256 E payload in
         case la_offsets st digest of
           Some (offset', len') \<Rightarrow> st\<lparr>la_index := la_index st @ [place record offset' len']\<rparr>
         | None \<Rightarrow>
             \<lparr>la_data = la_data st @ payload,
              la_index = la_index st @ [place record offset len],
              la_offsets = (la_offsets st)(digest \<mapsto> (offset, len))\<rparr>)
      else st\<lparr>la_data := la_data st @ payload, la_index := la_index st @ [place record offset len]\<rparr>)"

definition layout_entries :: "externals \<Rightarrow> (IndexRecord \<times> bytes) list \<Rightarrow> layout" where
  "layout_entries E entries = foldl (layout_entry E) layout_empty entries"

definition sort_entries :: "(IndexRecord \<times> bytes) list \<Rightarrow> (IndexRecord \<times> bytes) list" where
  "sort_entries entries = sort_key (\<lambda>a. record_key (fst a)) entries"

definition finish_manifest :: "externals \<Rightarrow> Manifest \<Rightarrow> bytes \<Rightarrow> bytes \<Rightarrow> nat \<Rightarrow> Manifest" where
  "finish_manifest E m index_section data_section n =
     m\<lparr>mf_integrity := \<lparr>in_index_digest = sha256 E index_section, in_data_digest = sha256 E data_section\<rparr>,
       mf_entry_count := of_nat n\<rparr>"

definition build_header :: "bytes \<Rightarrow> bytes \<Rightarrow> bytes \<Rightarrow> bytes \<Rightarrow> FileHeader" where
  "build_header manifest_bytes seal_bytes index_section data_section =
     (let manifest_offset = of_nat HEADER_SIZE; manifest_length = len_u32 manifest_bytes;
          seal_offset = manifest_offset + ucast manifest_length; seal_length = len_u32 seal_bytes;
          index_offset = seal_offset + ucast seal_length; index_length = len_u64 index_section;
          data_offset = index_offset + index_length; data_length = len_u64 data_section
      in \<lparr>fh_format_major = FORMAT_MAJOR, fh_format_minor = FORMAT_MINOR,
          fh_manifest_offset = manifest_offset, fh_manifest_length = manifest_length,
          fh_seal_offset = seal_offset, fh_seal_length = seal_length,
          fh_index_offset = index_offset, fh_index_length = index_length,
          fh_data_offset = data_offset, fh_data_length = data_length\<rparr>)"

definition build :: "externals \<Rightarrow> (bytes \<Rightarrow> ahu_error + bytes) \<Rightarrow> BundleBuilder \<Rightarrow> ahu_error + bytes" where
  "build E seal_fn b =
     (let st = layout_entries E (sort_entries (bb_entries b));
          data_section = la_data st;
          index_records = la_index st;
          index_section = write_index index_records;
          manifest = finish_manifest E (bb_manifest b) index_section data_section (length index_records);
          manifest_bytes = to_cbor E manifest
      in bindR (seal_fn manifest_bytes) (\<lambda>seal_bytes.
         Inr (header_write_to (build_header manifest_bytes seal_bytes index_section data_section)
              @ manifest_bytes @ seal_bytes @ index_section @ data_section)))"

section \<open>Contiguous sections\<close>

text \<open>
  A header describes sections written back to back after it when its offsets and lengths are the
  running sums of theirs. Both writers produce such a header; the reader then finds every section.
\<close>

definition describes :: "FileHeader \<Rightarrow> bytes \<Rightarrow> bytes \<Rightarrow> bytes \<Rightarrow> bytes \<Rightarrow> bool" where
  "describes h man seal idx dat \<longleftrightarrow>
     unat (fh_manifest_offset h) = HEADER_SIZE \<and>
     unat (fh_manifest_length h) = length man \<and>
     unat (fh_seal_offset h) = HEADER_SIZE + length man \<and>
     unat (fh_seal_length h) = length seal \<and>
     unat (fh_index_offset h) = HEADER_SIZE + length man + length seal \<and>
     unat (fh_index_length h) = length idx \<and>
     unat (fh_data_offset h) = HEADER_SIZE + length man + length seal + length idx \<and>
     unat (fh_data_length h) = length dat"

definition bundle_size :: "bytes \<Rightarrow> bytes \<Rightarrow> bytes \<Rightarrow> bytes \<Rightarrow> nat" where
  "bundle_size man seal idx dat = HEADER_SIZE + length man + length seal + length idx + length dat"

lemma vec_fits_len_u64: "vec_fits xs \<Longrightarrow> unat (len_u64 xs) = length xs"
  by (simp add: vec_fits_def len_u64_def unat_of_nat)

lemma unat_len_u64: "length xs < 2 ^ 64 \<Longrightarrow> unat (len_u64 xs) = length xs"
  by (simp add: len_u64_def unat_of_nat)

lemma unat_len_u32: "length xs < 2 ^ 32 \<Longrightarrow> unat (len_u32 xs) = length xs"
  by (simp add: len_u32_def unat_of_nat)

lemma read_section_at:
  assumes "bs = pre @ sec @ post" and "unat off = length pre" and "unat len = length sec"
    and "length bs < 2 ^ 64"
  shows "read_section bs off len = Inr sec"
  using assms by (simp add: read_section_def checked_add_usize_def usize_bound_def slice_get_append_left)

lemma read_section_Inr:
  "read_section bs off len = Inr sec \<longleftrightarrow>
     unat off + unat len < 2 ^ 64 \<and> slice_get bs (unat off) (unat off + unat len) = Some sec"
  by (auto simp: read_section_def ok_orR_eq_Inr checked_add_usize_def usize_bound_def)

lemma length_write_index: "list_all wf_record rs \<Longrightarrow> length (write_index rs) = INDEX_RECORD_SIZE * length rs"
  by (induction rs) (simp_all add: write_index_def length_record_write_to)

lemma read_records_write:
  "list_all wf_record rs \<Longrightarrow> read_records (length rs) (write_index rs @ rest) = Inr rs"
  by (induction rs) (simp_all add: write_index_def record_read_write)

lemma parse_write_index: "list_all wf_record rs \<Longrightarrow> parse_index (write_index rs) = Inr rs"
  using read_records_write [of rs "[]"] length_write_index [of rs]
  by (simp add: parse_index_def INDEX_RECORD_SIZE_def)

lemma read_records_wf: "read_records n bs = Inr rs \<Longrightarrow> list_all wf_record rs \<and> length rs = n"
  by (induction n arbitrary: bs rs) (auto simp: bindR_eq_Inr dest: record_read_from_wf)

lemma parse_index_wf: "parse_index bs = Inr rs \<Longrightarrow> list_all wf_record rs"
  by (auto simp: parse_index_def dest: read_records_wf split: if_splits)

lemma from_bytes_sections:
  assumes "describes h man seal idx dat" and "fh_format_major h = FORMAT_MAJOR"
    and "bundle_size man seal idx dat < 2 ^ 64"
    and "from_cbor E man = Inr m" and "parse_index idx = Inr rs"
  shows "from_bytes E (header_write_to h @ man @ seal @ idx @ dat) =
    Inr \<lparr>b_header = h, b_manifest = m, b_manifest_bytes = man, b_seal_bytes = seal,
         b_index = rs, b_data = dat\<rparr>"
proof -
  let ?hd = "header_write_to h"
  let ?bs = "?hd @ man @ seal @ idx @ dat"
  note d = assms(1) [unfolded describes_def]
  have size: "length ?bs = bundle_size man seal idx dat"
    by (simp add: bundle_size_def)
  have fits: "length ?bs < 2 ^ 64" using assms(3) size by simp
  have "read_section ?bs (fh_manifest_offset h) (ucast (fh_manifest_length h)) = Inr man"
    by (rule read_section_at [where pre = ?hd and post = "seal @ idx @ dat"]) (use d fits in simp_all)
  moreover have "read_section ?bs (fh_seal_offset h) (ucast (fh_seal_length h)) = Inr seal"
    by (rule read_section_at [where pre = "?hd @ man" and post = "idx @ dat"]) (use d fits in simp_all)
  moreover have "read_section ?bs (fh_index_offset h) (fh_index_length h) = Inr idx"
    by (rule read_section_at [where pre = "?hd @ man @ seal" and post = "dat"]) (use d fits in simp_all)
  moreover have "read_section ?bs (fh_data_offset h) (fh_data_length h) = Inr dat"
    by (rule read_section_at [where pre = "?hd @ man @ seal @ idx" and post = "[]"]) (use d fits in simp_all)
  moreover have "validate_bounds h (len_u64 ?bs) = Inr ()"
    using d by (simp add: validate_bounds_Inr sections_within_def unat_len_u64 [OF fits])
  ultimately show ?thesis
    using assms(2,4,5) by (simp add: from_bytes_def header_read_write)
qed

section \<open>The data section\<close>

definition stored :: "bytes \<Rightarrow> u64 \<Rightarrow> u32 \<Rightarrow> bytes \<Rightarrow> bool" where
  "stored dat offset len p \<longleftrightarrow> slice_get dat (unat offset) (unat offset + unat len) = Some p"

definition placed :: "bytes \<Rightarrow> IndexRecord \<times> bytes \<Rightarrow> IndexRecord \<Rightarrow> bool" where
  "placed dat e r \<longleftrightarrow>
     (\<exists>offset len. r = place (fst e) offset len \<and>
        (if is_tombstone (fst e) then offset = 0 \<and> len = 0 else stored dat offset len (snd e)))"

definition alias_payloads :: "(IndexRecord \<times> bytes) list \<Rightarrow> bytes set" where
  "alias_payloads es = {p. \<exists>r. (r, p) \<in> set es \<and> is_alias r}"

definition layout_ok :: "externals \<Rightarrow> (IndexRecord \<times> bytes) list \<Rightarrow> layout \<Rightarrow> bool" where
  "layout_ok E es st \<longleftrightarrow>
     list_all2 (placed (la_data st)) es (la_index st) \<and>
     (\<forall>d offset len. la_offsets st d = Some (offset, len) \<longrightarrow>
        (\<exists>p \<in> alias_payloads es. sha256 E p = d \<and> stored (la_data st) offset len p))"

lemma place_simps [simp]:
  "record_key (place r offset len) = record_key r"
  "is_tombstone (place r offset len) = is_tombstone r"
  "is_alias (place r offset len) = is_alias r"
  "wf_record (place r offset len) = wf_record r"
  "ir_flags (place r offset len) = ir_flags r"
  "ir_data_offset (place r offset len) = offset"
  "ir_data_length (place r offset len) = len"
  by (simp_all add: place_def record_key_def is_tombstone_def is_alias_def wf_record_def)

lemma alias_payloads_simps [simp]:
  "alias_payloads [] = {}"
  "alias_payloads (es @ [(r, p)]) = (if is_alias r then insert p (alias_payloads es) else alias_payloads es)"
  by (auto simp: alias_payloads_def)

lemma stored_append: "stored dat offset len p \<Longrightarrow> stored (dat @ rest) offset len p"
  by (auto simp: stored_def slice_get_Some)

lemma stored_at_end:
  "length dat + length p < 2 ^ 64 \<Longrightarrow> length p < 2 ^ 32 \<Longrightarrow> stored (dat @ p) (len_u64 dat) (len_u32 p) p"
  by (simp add: stored_def unat_len_u64 unat_len_u32 slice_get_def)

lemma placed_append: "placed dat e r \<Longrightarrow> placed (dat @ rest) e r"
  by (auto simp: placed_def split: if_splits intro: stored_append)

lemma placed_append_all:
  "list_all2 (placed dat) es rs \<Longrightarrow> list_all2 (placed (dat @ rest)) es rs"
  by (erule list_all2_mono) (rule placed_append)

lemma layout_ok_empty: "layout_ok E [] layout_empty"
  by (simp add: layout_ok_def layout_empty_def)

text \<open>Appending a fresh payload, with or without remembering its digest, keeps the layout.\<close>

lemma layout_ok_fresh:
  assumes "layout_ok E es st" and "length (la_data st @ p) < 2 ^ 64" and "length p < 2 ^ 32"
    and "\<not> is_tombstone r"
    and "offs = la_offsets st \<or>
      is_alias r \<and> offs = (la_offsets st)(sha256 E p \<mapsto> (len_u64 (la_data st), len_u32 p))"
  shows "layout_ok E (es @ [(r, p)])
    \<lparr>la_data = la_data st @ p,
     la_index = la_index st @ [place r (len_u64 (la_data st)) (len_u32 p)], la_offsets = offs\<rparr>"
proof -
  have end_p: "stored (la_data st @ p) (len_u64 (la_data st)) (len_u32 p) p"
    using assms(2,3) by (intro stored_at_end) auto
  then have "placed (la_data st @ p) (r, p) (place r (len_u64 (la_data st)) (len_u32 p))"
    using assms(4) by (auto simp: placed_def)
  moreover have "list_all2 (placed (la_data st @ p)) es (la_index st)"
    using assms(1) by (simp add: layout_ok_def placed_append_all)
  ultimately have "list_all2 (placed (la_data st @ p)) (es @ [(r, p)])
      (la_index st @ [place r (len_u64 (la_data st)) (len_u32 p)])"
    by (simp add: list_all2_appendI)
  moreover have "\<exists>q \<in> alias_payloads (es @ [(r, p)]). sha256 E q = d \<and> stored (la_data st @ p) offset len q"
    if "offs d = Some (offset, len)" for d offset len
  proof (cases "la_offsets st d = Some (offset, len)")
    case True
    then obtain q where "q \<in> alias_payloads es" "sha256 E q = d" "stored (la_data st) offset len q"
      using assms(1) unfolding layout_ok_def by blast
    then show ?thesis by (auto intro: stored_append)
  next
    case False
    with that assms(5) have "is_alias r" "d = sha256 E p" "offset = len_u64 (la_data st)" "len = len_u32 p"
      by (auto split: if_splits)
    with end_p show ?thesis by auto
  qed
  ultimately show ?thesis by (simp add: layout_ok_def)
qed

text \<open>
  One round of the loop. That an alias entry finds its own payload rests on the digests of the
  shared payloads being distinct.
\<close>

lemma layout_entry_ok:
  assumes "layout_ok E es st" and "inj_on (sha256 E) (alias_payloads (es @ [(r, p)]))"
    and "length (la_data (layout_entry E st (r, p))) < 2 ^ 64" and "length p < 2 ^ 32"
  shows "layout_ok E (es @ [(r, p)]) (layout_entry E st (r, p))"
proof -
  have old: "layout_ok E (es @ [(r, p)]) (st\<lparr>la_index := la_index st @ [r']\<rparr>)"
    if "placed (la_data st) (r, p) r'" for r'
    using assms(1) that by (fastforce simp: layout_ok_def intro!: list_all2_appendI)
  consider (tombstone) "is_tombstone r"
    | (shared) offset len where "\<not> is_tombstone r" "is_alias r" "la_offsets st (sha256 E p) = Some (offset, len)"
    | (fresh) "\<not> is_tombstone r" "is_alias r" "la_offsets st (sha256 E p) = None"
    | (plain) "\<not> is_tombstone r" "\<not> is_alias r"
    by (metis option.exhaust surj_pair)
  then show ?thesis
  proof cases
    case tombstone
    then show ?thesis by (auto simp: layout_entry_def placed_def intro!: old)
  next
    case shared
    then obtain q where q: "q \<in> alias_payloads es" "sha256 E q = sha256 E p" "stored (la_data st) offset len q"
      using assms(1) unfolding layout_ok_def by blast
    then have "q = p" using assms(2) shared(2) by (auto simp: inj_on_def)
    with q(3) shared(1) have "placed (la_data st) (r, p) (place r offset len)"
      by (auto simp: placed_def)
    from old [OF this] shared show ?thesis by (simp add: layout_entry_def)
  next
    case fresh
    then have "layout_entry E st (r, p) = \<lparr>la_data = la_data st @ p,
        la_index = la_index st @ [place r (len_u64 (la_data st)) (len_u32 p)],
        la_offsets = (la_offsets st)(sha256 E p \<mapsto> (len_u64 (la_data st), len_u32 p))\<rparr>"
      by (simp add: layout_entry_def Let_def)
    then show ?thesis using layout_ok_fresh [OF assms(1) _ assms(4) fresh(1)] assms(3) fresh(2) by simp
  next
    case plain
    then have "layout_entry E st (r, p) = \<lparr>la_data = la_data st @ p,
        la_index = la_index st @ [place r (len_u64 (la_data st)) (len_u32 p)], la_offsets = la_offsets st\<rparr>"
      by (cases st) (simp add: layout_entry_def)
    then show ?thesis using layout_ok_fresh [OF assms(1) _ assms(4) plain(1)] assms(3) by simp
  qed
qed

lemma layout_entry_grows: "length (la_data st) \<le> length (la_data (layout_entry E st e))"
  by (cases e) (auto simp: layout_entry_def Let_def split: option.split)

lemma layout_entries_ok:
  assumes "inj_on (sha256 E) (alias_payloads es)" and "length (la_data (layout_entries E es)) < 2 ^ 64"
    and "\<forall>e \<in> set es. length (snd e) < 2 ^ 32"
  shows "layout_ok E es (layout_entries E es)"
  using assms
proof (induction es rule: rev_induct)
  case Nil
  then show ?case by (simp add: layout_entries_def layout_ok_empty)
next
  case (snoc e es)
  obtain r p where e: "e = (r, p)" by (cases e)
  have step: "layout_entries E (es @ [e]) = layout_entry E (layout_entries E es) (r, p)"
    by (simp add: layout_entries_def e)
  have "length (la_data (layout_entries E es)) < 2 ^ 64"
    using snoc.prems(2) layout_entry_grows [of "layout_entries E es" E e] step e by simp
  then have "layout_ok E es (layout_entries E es)"
    using snoc.prems e by (auto intro!: snoc.IH intro: inj_on_subset split: if_splits)
  then show ?case
    using snoc.prems layout_entry_ok [of E es "layout_entries E es" r p] step by (simp add: e)
qed

section \<open>Lookups against the bundle as a map\<close>

text \<open>
  A bundle as a map from entry key and discriminator: a key that is absent, one that is present
  without bytes (a tombstone, or a range outside the data section), or one with its response.
\<close>

definition bundle_map :: "Bundle \<Rightarrow> bytes \<times> u16 \<Rightarrow> bytes option option" where
  "bundle_map b kd = map_option (entry_bytes b) (index_map (b_index b) kd)"

definition entry_map :: "(IndexRecord \<times> bytes) list \<Rightarrow> bytes \<times> u16 \<Rightarrow> bytes option option" where
  "entry_map es = map_of (map (\<lambda>(r, p). (record_key r, if is_tombstone r then None else Some p)) es)"

definition opt_join :: "'a option option \<Rightarrow> 'a option" where
  "opt_join x = (case x of Some y \<Rightarrow> y | None \<Rightarrow> None)"

lemma search_preferred_bound:
  assumes "binary_search_preferred rs k prefs = Some i"
  shows "i < length rs"
proof -
  from assms obtain d where "binary_search_with_discriminator rs k d = Some i"
    by (auto simp: binary_search_preferred_record preferred_record_def split: option.splits)
  then show ?thesis using heap_search.search_sound by blast
qed

lemma lookup_preferred_bundle_map:
  assumes "sorted_index (b_index b)"
  shows "lookup_preferred b k prefs = opt_join (preferred_record (bundle_map b) k prefs)"
proof -
  have "preferred_record (bundle_map b) k prefs
      = map_option (entry_bytes b) (preferred_record (index_map (b_index b)) k prefs)"
    by (rule preferred_record_map_option) (simp add: bundle_map_def)
  also have "\<dots> = map_option (\<lambda>i. entry_bytes b (b_index b ! i)) (binary_search_preferred (b_index b) k prefs)"
    by (simp flip: preferred_search_record [OF assms] add: option.map_comp comp_def)
  finally show ?thesis
    by (auto simp: lookup_preferred_def entry_at_def opt_join_def search_preferred_bound
        split: option.splits bind_splits)
qed

lemma search_entry_bundle_map:
  assumes "sorted_index (b_index b)"
  shows "Option.bind (binary_search_with_discriminator (b_index b) k d) (entry_at b) = opt_join (bundle_map b (k, d))"
proof -
  have "bundle_map b (k, d)
      = map_option (\<lambda>i. entry_bytes b (b_index b ! i)) (binary_search_with_discriminator (b_index b) k d)"
    by (simp add: bundle_map_def option.map_comp comp_def flip: heap_search.search_index_map [OF assms])
  then show ?thesis
    using heap_search.search_sound [of "b_index b" k d]
    by (auto simp: entry_at_def opt_join_def split: option.splits bind_splits)
qed

lemma lookup_bundle_map:
  "sorted_index (b_index b) \<Longrightarrow> lookup b k = opt_join (bundle_map b (k, ALG_DISC_DEFAULT))"
  by (simp add: lookup_def binary_search_def search_entry_bundle_map)

lemma dom_bundle_map: "dom (bundle_map b) = record_key ` set (b_index b)"
proof -
  have "dom (bundle_map b) = dom (index_map (b_index b))"
    by (auto simp: bundle_map_def dom_def)
  then show ?thesis by (simp add: index_map_def dom_map_of_conv_image_fst image_image)
qed

lemma bundle_map_record:
  assumes "sorted_index (b_index b)" and "r \<in> set (b_index b)"
  shows "bundle_map b (record_key r) = Some (entry_bytes b r)"
proof -
  have "distinct (map fst (map (\<lambda>r. (record_key r, r)) (b_index b)))"
    using sorted_index_distinct [OF assms(1)] by (simp add: comp_def)
  then have "index_map (b_index b) (record_key r) = Some r"
    unfolding index_map_def using assms(2) by (intro map_of_is_SomeI) auto
  then show ?thesis by (simp add: bundle_map_def)
qed

section \<open>What the builder writes\<close>

definition wf_builder :: "externals \<Rightarrow> BundleBuilder \<Rightarrow> bool" where
  "wf_builder E b \<longleftrightarrow>
     wf_manifest (bb_manifest b) \<and>
     (\<forall>e \<in> set (bb_entries b). wf_record (fst e) \<and> length (snd e) < 2 ^ 32) \<and>
     distinct (map (\<lambda>e. record_key (fst e)) (bb_entries b)) \<and>
     inj_on (sha256 E) (alias_payloads (bb_entries b))"

text \<open>The layout, manifest and parsed form that \<^const>\<open>build\<close> produces.\<close>

definition built_layout :: "externals \<Rightarrow> BundleBuilder \<Rightarrow> layout" where
  "built_layout E b = layout_entries E (sort_entries (bb_entries b))"

definition built_manifest :: "externals \<Rightarrow> BundleBuilder \<Rightarrow> Manifest" where
  "built_manifest E b =
     (let st = built_layout E b
      in finish_manifest E (bb_manifest b) (write_index (la_index st)) (la_data st) (length (la_index st)))"

definition built_bundle :: "externals \<Rightarrow> BundleBuilder \<Rightarrow> bytes \<Rightarrow> Bundle" where
  "built_bundle E b seal =
     (let st = built_layout E b; man = to_cbor E (built_manifest E b)
      in \<lparr>b_header = build_header man seal (write_index (la_index st)) (la_data st),
          b_manifest = built_manifest E b, b_manifest_bytes = man, b_seal_bytes = seal,
          b_index = la_index st, b_data = la_data st\<rparr>)"

lemma set_sort_entries [simp]: "set (sort_entries es) = set es"
  by (simp add: sort_entries_def)

lemma length_sort_entries [simp]: "length (sort_entries es) = length es"
  by (simp add: sort_entries_def)

lemma alias_payloads_sort_entries [simp]: "alias_payloads (sort_entries es) = alias_payloads es"
  by (simp add: alias_payloads_def)

definition layout_fits :: "externals \<Rightarrow> BundleBuilder \<Rightarrow> bool" where
  "layout_fits E b \<longleftrightarrow>
     length (la_data (built_layout E b)) + INDEX_RECORD_SIZE * length (bb_entries b) < 2 ^ 63"

lemma built_layout_ok:
  assumes "wf_builder E b" and "layout_fits E b"
  shows "layout_ok E (sort_entries (bb_entries b)) (built_layout E b)"
  using assms unfolding built_layout_def wf_builder_def layout_fits_def
  by (intro layout_entries_ok) auto

lemma placed_record_keys:
  "list_all2 (placed dat) es rs \<Longrightarrow> map record_key rs = map (\<lambda>e. record_key (fst e)) es"
  by (induction rule: list_all2_induct) (auto simp: placed_def)

lemma built_index_sorted:
  assumes "wf_builder E b" and "layout_fits E b"
  shows "sorted_index (la_index (built_layout E b))"
proof -
  let ?es = "sort_entries (bb_entries b)"
  have "map record_key (la_index (built_layout E b)) = map (\<lambda>e. record_key (fst e)) ?es"
    using built_layout_ok [OF assms] by (auto simp: layout_ok_def dest: placed_record_keys)
  moreover have "sorted (map (\<lambda>e. record_key (fst e)) ?es)"
    unfolding sort_entries_def by (rule sorted_sort_key)
  moreover have "distinct (map (\<lambda>e. record_key (fst e)) ?es)"
    using assms(1) by (auto simp: wf_builder_def sort_entries_def distinct_map)
  ultimately show ?thesis by (simp add: sorted_index_def strict_sorted_iff)
qed

lemma built_index_wf:
  assumes "wf_builder E b" and "layout_fits E b"
  shows "list_all wf_record (la_index (built_layout E b))"
    and "length (la_index (built_layout E b)) = length (bb_entries b)"
proof -
  have "list_all2 (placed (la_data (built_layout E b))) (sort_entries (bb_entries b)) (la_index (built_layout E b))"
    using built_layout_ok [OF assms] by (simp add: layout_ok_def)
  moreover have "\<forall>e \<in> set (sort_entries (bb_entries b)). wf_record (fst e)"
    using assms by (simp add: wf_builder_def)
  ultimately show "list_all wf_record (la_index (built_layout E b))"
    by (induction rule: list_all2_induct) (auto simp: placed_def)
  show "length (la_index (built_layout E b)) = length (bb_entries b)"
    using built_layout_ok [OF assms] by (auto simp: layout_ok_def dest!: list_all2_lengthD)
qed

lemma wf_built_manifest:
  "wf_builder E b \<Longrightarrow> sha256_length E \<Longrightarrow> wf_manifest (built_manifest E b)"
  by (simp add: wf_builder_def built_manifest_def finish_manifest_def wf_manifest_def Let_def sha256_lengthD)

lemma built_data_bound: "layout_fits E b \<Longrightarrow> length (la_data (built_layout E b)) < 2 ^ 64"
  by (simp add: layout_fits_def)

lemma placed_entry_bytes:
  assumes "placed (b_data b) e r" and "length (b_data b) < 2 ^ 64"
  shows "(record_key r, entry_bytes b r) = (record_key (fst e), if is_tombstone (fst e) then None else Some (snd e))"
  using assms
  by (auto simp: placed_def entry_bytes_def stored_def slice_get_Some checked_add_usize_def
      usize_bound_def split: if_splits)

lemma built_bundle_map:
  assumes "wf_builder E b" and "layout_fits E b"
  shows "bundle_map (built_bundle E b seal) = entry_map (bb_entries b)"
proof -
  let ?B = "built_bundle E b seal" and ?es = "sort_entries (bb_entries b)"
  let ?g = "\<lambda>(r, p). (record_key r, if is_tombstone r then None else Some p)"
  have parts: "b_index ?B = la_index (built_layout E b)" "b_data ?B = la_data (built_layout E b)"
    by (simp_all add: built_bundle_def Let_def)
  have "list_all2 (placed (b_data ?B)) ?es (b_index ?B)"
    using built_layout_ok [OF assms] parts by (simp add: layout_ok_def)
  then have "list_all2 (\<lambda>e r. ?g e = (record_key r, entry_bytes ?B r)) ?es (b_index ?B)"
  proof (rule list_all2_mono)
    fix e r
    assume "placed (b_data ?B) e r"
    then show "?g e = (record_key r, entry_bytes ?B r)"
      using placed_entry_bytes [of ?B e r] built_data_bound [OF assms(2)] parts by (simp add: case_prod_beta)
  qed
  then have lists: "map ?g ?es = map (\<lambda>r. (record_key r, entry_bytes ?B r)) (b_index ?B)"
    by (induction rule: list_all2_induct) auto
  have "bundle_map ?B = map_of (map (\<lambda>r. (record_key r, entry_bytes ?B r)) (b_index ?B))"
    using map_of_map [of "entry_bytes ?B" "map (\<lambda>r. (record_key r, r)) (b_index ?B)"]
    by (simp add: bundle_map_def index_map_def fun_eq_iff comp_def)
  also have "\<dots> = map_of (map ?g ?es)" by (simp only: lists)
  also have "\<dots> = map_of (map ?g (bb_entries b))"
  proof -
    have fst_g: "fst \<circ> ?g = (\<lambda>e. record_key (fst e))" by (simp add: fun_eq_iff case_prod_beta)
    have "distinct (map (\<lambda>e. record_key (fst e)) (bb_entries b))"
      "distinct (map (\<lambda>e. record_key (fst e)) ?es)"
      using assms by (auto simp: wf_builder_def sort_entries_def distinct_map)
    then show ?thesis
      by (intro map_of_inject_set [THEN iffD2]) (simp_all add: fst_g)
  qed
  finally show ?thesis by (simp add: entry_map_def)
qed

lemma build_header_describes:
  assumes "length man < 2 ^ 32" and "length seal < 2 ^ 32" and "length idx + length dat < 2 ^ 63"
  shows "describes (build_header man seal idx dat) man seal idx dat"
    and "fh_format_major (build_header man seal idx dat) = FORMAT_MAJOR"
    and "bundle_size man seal idx dat < 2 ^ 64"
proof -
  have add: "unat (x + y) = unat x + unat y" if "unat x + unat y < 2 ^ 64" for x y :: u64
    using that by (simp add: unat_word_ariths)
  note len = unat_len_u32 [OF assms(1)] unat_len_u32 [OF assms(2)]
  have len64: "unat (len_u64 idx) = length idx" "unat (len_u64 dat) = length dat"
    using assms(3) by (simp_all add: unat_len_u64)
  show "describes (build_header man seal idx dat) man seal idx dat"
  proof -
    have m: "unat (of_nat HEADER_SIZE :: u64) = HEADER_SIZE" by (simp add: HEADER_SIZE_def)
    have s: "unat (of_nat HEADER_SIZE + ucast (len_u32 man) :: u64) = HEADER_SIZE + length man"
      using assms(1) m len by (subst add) (simp_all add: HEADER_SIZE_def)
    have i: "unat (of_nat HEADER_SIZE + ucast (len_u32 man) + ucast (len_u32 seal) :: u64)
        = HEADER_SIZE + length man + length seal"
      using assms(1,2) s len by (subst add) (simp_all add: HEADER_SIZE_def)
    have d: "unat (of_nat HEADER_SIZE + ucast (len_u32 man) + ucast (len_u32 seal) + len_u64 idx)
        = HEADER_SIZE + length man + length seal + length idx"
      using assms i len64 by (subst add) (simp_all add: HEADER_SIZE_def)
    show ?thesis
      unfolding describes_def build_header_def Let_def using m s i d len len64 by simp
  qed
  show "fh_format_major (build_header man seal idx dat) = FORMAT_MAJOR"
    by (simp add: build_header_def Let_def)
  show "bundle_size man seal idx dat < 2 ^ 64"
    using assms by (simp add: bundle_size_def HEADER_SIZE_def)
qed

lemma built_index_bytes:
  assumes "wf_builder E b" and "layout_fits E b"
  shows "length (write_index (la_index (built_layout E b))) + length (la_data (built_layout E b)) < 2 ^ 63"
  using built_index_wf [OF assms] assms(2) by (simp add: length_write_index layout_fits_def)

lemma build_Inr:
  "build E seal_fn b = Inr out \<longleftrightarrow>
     (\<exists>seal. seal_fn (to_cbor E (built_manifest E b)) = Inr seal \<and>
        out = header_write_to (b_header (built_bundle E b seal))
              @ b_manifest_bytes (built_bundle E b seal) @ seal
              @ write_index (b_index (built_bundle E b seal)) @ b_data (built_bundle E b seal))"
  by (auto simp: build_def built_bundle_def built_manifest_def built_layout_def Let_def bindR_eq_Inr)

lemma length_la_index: "length (la_index (layout_entries E es)) = length es"
proof (induction es rule: rev_induct)
  case (snoc e es)
  then show ?case
    by (cases e) (auto simp: layout_entries_def layout_entry_def Let_def split: option.split)
qed (simp add: layout_entries_def layout_empty_def)

lemma layout_entries_wf:
  "\<forall>e \<in> set es. wf_record (fst e) \<Longrightarrow> list_all wf_record (la_index (layout_entries E es))"
proof (induction es rule: rev_induct)
  case (snoc e es)
  then show ?case
    by (cases e) (auto simp: layout_entries_def layout_entry_def Let_def split: option.split)
qed (simp add: layout_entries_def layout_empty_def)

text \<open>An output that fits an allocation bounds the layout it was written from.\<close>

lemma build_layout_fits:
  assumes "wf_builder E b" and "build E seal_fn b = Inr out" and "vec_fits out"
  shows "layout_fits E b"
proof -
  have "list_all wf_record (la_index (built_layout E b))"
    unfolding built_layout_def using assms(1) by (intro layout_entries_wf) (simp add: wf_builder_def)
  then have "length (write_index (la_index (built_layout E b))) = INDEX_RECORD_SIZE * length (bb_entries b)"
    by (simp add: length_write_index built_layout_def length_la_index)
  then show ?thesis
    using assms(2,3) by (auto simp: build_Inr built_bundle_def vec_fits_def layout_fits_def Let_def)
qed

lemma from_bytes_build:
  assumes "wf_builder E b" and "sha256_length E" and "uuid_16 E"
    and "cbor_roundtrip E (manifest_to_val (built_manifest E b))"
    and "length (to_cbor E (built_manifest E b)) < 2 ^ 32"
    and "seal_fn (to_cbor E (built_manifest E b)) = Inr seal" and "length seal < 2 ^ 32"
    and "build E seal_fn b = Inr out" and "vec_fits out"
  shows "from_bytes E out = Inr (built_bundle E b seal)"
proof -
  note fits = build_layout_fits [OF assms(1,8,9)]
  have "from_cbor E (to_cbor E (built_manifest E b)) = Inr (built_manifest E b)"
    using from_cbor_to_cbor [OF wf_built_manifest [OF assms(1,2)] assms(3,4)] .
  then show ?thesis
    using from_bytes_sections [OF build_header_describes [OF assms(5,7) built_index_bytes [OF assms(1) fits]]]
      parse_write_index [OF built_index_wf(1) [OF assms(1) fits]] assms(6,8)
    by (auto simp: build_Inr built_bundle_def Let_def)
qed

section \<open>Serialising a parsed bundle\<close>

text \<open>
  \<^const>\<open>to_bytes\<close> moves the sections of a bundle next to one another and keeps their bytes, so
  what is read back differs from the bundle in the header's offsets at most.
\<close>

lemma to_bytes_describes:
  assumes "to_bytes b = Inr out" and "vec_fits out"
  shows "\<exists>h. fh_format_major h = fh_format_major (b_header b) \<and>
    describes h (b_manifest_bytes b) (b_seal_bytes b) (write_index (b_index b)) (b_data b) \<and>
    bundle_size (b_manifest_bytes b) (b_seal_bytes b) (write_index (b_index b)) (b_data b) < 2 ^ 64 \<and>
    out = header_write_to h @ b_manifest_bytes b @ b_seal_bytes b @ write_index (b_index b) @ b_data b"
proof -
  let ?man = "b_manifest_bytes b" and ?seal = "b_seal_bytes b"
  let ?idx = "write_index (b_index b)" and ?dat = "b_data b"
  let ?so = "of_nat HEADER_SIZE + ucast (len_u32 ?man) :: u64"
  let ?io = "?so + ucast (len_u32 ?seal)"
  from assms(1) obtain off where small: "length ?man < 2 ^ 32" "length ?seal < 2 ^ 32"
    and off: "checked_add_u64 ?io (len_u64 ?idx) = Some off"
    and out: "out = header_write_to
            ((b_header b)\<lparr>fh_manifest_offset := of_nat HEADER_SIZE, fh_manifest_length := len_u32 ?man,
               fh_seal_offset := ?so, fh_seal_length := len_u32 ?seal,
               fh_index_offset := ?io, fh_index_length := len_u64 ?idx,
               fh_data_offset := off, fh_data_length := len_u64 ?dat\<rparr>)
          @ ?man @ ?seal @ ?idx @ ?dat" (is "out = header_write_to ?h @ _")
    by (auto simp: to_bytes_def try_len_u32_def Let_def bindR_eq_Inr ok_orR_eq_Inr split: if_splits)
  have size: "length ?idx + length ?dat < 2 ^ 63"
    using assms(2) out by (simp add: vec_fits_def)
  have "off = ?io + len_u64 ?idx"
    using off by (auto simp: checked_add_u64_def split: if_splits)
  then have "describes ?h ?man ?seal ?idx ?dat"
    using build_header_describes(1) [OF small size] by (simp add: describes_def build_header_def Let_def)
  then show ?thesis
    using out build_header_describes(3) [OF small size] by (intro exI [of _ ?h]) simp
qed

lemma from_bytes_to_bytes:
  assumes "to_bytes b = Inr out" and "vec_fits out" and "fh_format_major (b_header b) = FORMAT_MAJOR"
    and "list_all wf_record (b_index b)" and "from_cbor E (b_manifest_bytes b) = Inr (b_manifest b)"
  shows "\<exists>h. from_bytes E out = Inr (b\<lparr>b_header := h\<rparr>)"
proof -
  obtain h where h: "fh_format_major h = fh_format_major (b_header b)"
    "describes h (b_manifest_bytes b) (b_seal_bytes b) (write_index (b_index b)) (b_data b)"
    "bundle_size (b_manifest_bytes b) (b_seal_bytes b) (write_index (b_index b)) (b_data b) < 2 ^ 64"
    "out = header_write_to h @ b_manifest_bytes b @ b_seal_bytes b @ write_index (b_index b) @ b_data b"
    using to_bytes_describes [OF assms(1,2)] by blast
  have "from_bytes E out = Inr (b\<lparr>b_header := h\<rparr>)"
    using from_bytes_sections [OF h(2) _ h(3) assms(5) parse_write_index [OF assms(4)]] h(1,4) assms(3)
    by (cases b) simp
  then show ?thesis by blast
qed

lemma from_bytes_wf:
  assumes "from_bytes E bs = Inr b"
  shows "fh_format_major (b_header b) = FORMAT_MAJOR" and "list_all wf_record (b_index b)"
    and "from_cbor E (b_manifest_bytes b) = Inr (b_manifest b)"
  using assms
  by (auto simp: from_bytes_def bindR_eq_Inr dest!: header_write_read parse_index_wf)

end
