(* ===== verification/Ahu_Mmap.thy ===== *)
theory Ahu_Mmap
  imports Ahu_Bundle
begin

text \<open>
  Memory-mapped bundles (\<^verbatim>\<open>crates/ahu/src/mmap_bundle.rs\<close>): opening a mapped file, searching its
  index in place and slicing a response out of the mapping. The mapping is the immutable byte
  string of the file, as the module's safety comment requires of its publishers. A slice
  \<^verbatim>\<open>mmap[a..b]\<close> panics outside the mapping; \<open>open_ranges\<close> below shows that the ranges an opened
  bundle reads all lie inside. The searches meet the same contract as those of a bundle
  in memory, so both views of a file answer alike.
\<close>

section \<open>Opening and reading\<close>

record MmapBundle =
  mm_mmap :: bytes
  mm_header :: FileHeader
  mm_manifest :: Manifest
  mm_manifest_start :: nat
  mm_manifest_end :: nat
  mm_seal_start :: nat
  mm_seal_end :: nat
  mm_index_offset :: nat
  mm_index_count :: nat
  mm_data_offset :: nat
  mm_data_length :: nat

definition mmap_slice :: "bytes \<Rightarrow> nat \<Rightarrow> nat \<Rightarrow> bytes" where
  "mmap_slice xs a b = take (b - a) (drop a xs)"

definition mmap_open :: "externals \<Rightarrow> bytes \<Rightarrow> ahu_error + MmapBundle" where
  "mmap_open E mmap =
     (let file_size = len_u64 mmap in
      if file_size < of_nat HEADER_SIZE
      then Inl (HeaderOutOfBounds ''file'' 0 (of_nat HEADER_SIZE) file_size)
      else
      bindR (header_read_from (take HEADER_SIZE mmap)) (\<lambda>(header, _).
      bindR (validate_bounds header file_size) (\<lambda>_.
      let manifest_start = unat (fh_manifest_offset header);
          manifest_end = manifest_start + unat (fh_manifest_length header) in
      bindR (from_cbor E (mmap_slice mmap manifest_start manifest_end)) (\<lambda>manifest.
      let seal_start = unat (fh_seal_offset header);
          seal_end = seal_start + unat (fh_seal_length header);
          index_offset = unat (fh_index_offset header);
          index_length = unat (fh_index_length header) in
      if index_length mod INDEX_RECORD_SIZE \<noteq> 0
      then Inl (IndexSizeMismatch (fh_index_length header) INDEX_RECORD_SIZE)
      else Inr \<lparr>mm_mmap = mmap, mm_header = header, mm_manifest = manifest,
                mm_manifest_start = manifest_start, mm_manifest_end = manifest_end,
                mm_seal_start = seal_start, mm_seal_end = seal_end,
                mm_index_offset = index_offset,
                mm_index_count = index_length div INDEX_RECORD_SIZE,
                mm_data_offset = unat (fh_data_offset header),
                mm_data_length = unat (fh_data_length header)\<rparr>))))"

definition read_entry_key :: "MmapBundle \<Rightarrow> nat \<Rightarrow> bytes" where
  "read_entry_key mb n =
     (let offset = mm_index_offset mb + n * INDEX_RECORD_SIZE in mmap_slice (mm_mmap mb) offset (offset + 32))"

definition read_discriminator :: "MmapBundle \<Rightarrow> nat \<Rightarrow> u16" where
  "read_discriminator mb n =
     (let base = mm_index_offset mb + n * INDEX_RECORD_SIZE
      in of_nat (nat_of_be (mmap_slice (mm_mmap mb) (base + 46) (base + 48))))"

definition read_record_fields :: "MmapBundle \<Rightarrow> nat \<Rightarrow> u64 \<times> u32 \<times> u16 \<times> u16" where
  "read_record_fields mb n =
     (let base = mm_index_offset mb + n * INDEX_RECORD_SIZE;
          data_offset = of_nat (nat_of_be (mmap_slice (mm_mmap mb) (base + 32) (base + 40)));
          data_length = of_nat (nat_of_be (mmap_slice (mm_mmap mb) (base + 40) (base + 44)));
          flags_raw = of_nat (nat_of_be (mmap_slice (mm_mmap mb) (base + 44) (base + 46)));
          discriminator = of_nat (nat_of_be (mmap_slice (mm_mmap mb) (base + 46) (base + 48)))
      in (data_offset, data_length, from_bits_truncate flags_raw, discriminator))"

definition entry_at_mmap :: "MmapBundle \<Rightarrow> nat \<Rightarrow> bytes option" where
  "entry_at_mmap mb idx =
     (let (offset, len, flags, _) = read_record_fields mb idx; relative = unat offset in
      if flags_contain flags TOMBSTONE then None
      else Option.bind (checked_add_usize relative (unat len)) (\<lambda>relative_end.
           if relative_end > mm_data_length mb then None
           else Option.bind (checked_add_usize (mm_data_offset mb) relative) (\<lambda>start.
                Option.bind (checked_add_usize (mm_data_offset mb) relative_end) (\<lambda>end'.
                slice_get (mm_mmap mb) start end'))))"

text \<open>The loop of \<^verbatim>\<open>binary_search_disc\<close>, over what comparing the record at an index returns.\<close>

function mmap_search_loop :: "(nat \<Rightarrow> ordering) \<Rightarrow> nat \<Rightarrow> nat \<Rightarrow> nat option" where
  "mmap_search_loop probe lo hi =
     (if lo < hi
      then let mid = lo + (hi - lo) div 2
           in case probe mid of
                Equal \<Rightarrow> Some mid
              | Less \<Rightarrow> mmap_search_loop probe (mid + 1) hi
              | Greater \<Rightarrow> mmap_search_loop probe lo mid
      else None)"
  by pat_completeness auto
termination
  by (relation "measure (\<lambda>(probe, lo, hi). hi - lo)") auto

declare mmap_search_loop.simps [simp del]

definition binary_search_disc :: "MmapBundle \<Rightarrow> bytes \<Rightarrow> u16 \<Rightarrow> nat option" where
  "binary_search_disc mb entry_key disc =
     mmap_search_loop
       (\<lambda>mid. ordering_then (cmp (read_entry_key mb mid) entry_key) (cmp (read_discriminator mb mid) disc))
       0 (mm_index_count mb)"

definition mmap_lookup :: "MmapBundle \<Rightarrow> bytes \<Rightarrow> bytes option" where
  "mmap_lookup mb entry_key = Option.bind (binary_search_disc mb entry_key 0) (entry_at_mmap mb)"

fun mmap_lookup_preferences :: "MmapBundle \<Rightarrow> bytes \<Rightarrow> u16 list \<Rightarrow> bytes option option" where
  "mmap_lookup_preferences mb entry_key [] = None"
| "mmap_lookup_preferences mb entry_key (disc # preferences) =
     (case binary_search_disc mb entry_key disc of
        Some idx \<Rightarrow> Some (entry_at_mmap mb idx)
      | None \<Rightarrow> mmap_lookup_preferences mb entry_key preferences)"

definition mmap_lookup_preferred :: "MmapBundle \<Rightarrow> bytes \<Rightarrow> u16 list \<Rightarrow> bytes option" where
  "mmap_lookup_preferred mb entry_key preferences =
     (case mmap_lookup_preferences mb entry_key preferences of
        Some result \<Rightarrow> result
      | None \<Rightarrow>
          if 0 \<notin> set preferences
          then Option.bind (binary_search_disc mb entry_key 0) (entry_at_mmap mb)
          else None)"

definition mmap_manifest_bytes :: "MmapBundle \<Rightarrow> bytes" where
  "mmap_manifest_bytes mb = mmap_slice (mm_mmap mb) (mm_manifest_start mb) (mm_manifest_end mb)"

definition mmap_seal_bytes :: "MmapBundle \<Rightarrow> bytes" where
  "mmap_seal_bytes mb = mmap_slice (mm_mmap mb) (mm_seal_start mb) (mm_seal_end mb)"

definition mmap_entry_count :: "MmapBundle \<Rightarrow> nat" where
  "mmap_entry_count mb = mm_index_count mb"

section \<open>The search in place\<close>

lemma mmap_search_loop_sound:
  "mmap_search_loop probe lo hi = Some i \<Longrightarrow> lo \<le> i \<and> i < hi \<and> probe i = Equal"
proof (induction probe lo hi rule: mmap_search_loop.induct)
  case (1 probe lo hi)
  have "lo < hi" using "1.prems" by (simp add: mmap_search_loop.simps [of probe lo hi] split: if_splits)
  then show ?case
    using "1.prems" "1.IH" [OF \<open>lo < hi\<close> refl]
    by (auto simp: mmap_search_loop.simps [of probe lo hi] Let_def split: ordering.splits)
qed

lemma mmap_search_loop_complete:
  assumes "\<And>i. i < t \<Longrightarrow> probe i = Less" and "\<And>i. t < i \<Longrightarrow> i < n \<Longrightarrow> probe i = Greater"
    and "probe t = Equal" and "hi \<le> n" and "lo \<le> t" and "t < hi"
  shows "mmap_search_loop probe lo hi = Some t"
  using assms(4-6)
proof (induction "hi - lo" arbitrary: lo hi rule: less_induct)
  case less
  let ?mid = "lo + (hi - lo) div 2"
  have mid: "lo \<le> ?mid" "?mid < hi" using less.prems by auto
  show ?case
  proof (cases t ?mid rule: linorder_cases)
    case less
    then have "mmap_search_loop probe lo hi = mmap_search_loop probe lo ?mid"
      using assms(2) [of ?mid] mid \<open>hi \<le> n\<close> by (subst mmap_search_loop.simps) (simp add: Let_def)
    with less less.hyps [of ?mid lo] less.prems mid show ?thesis by simp
  next
    case equal
    then show ?thesis
      using assms(3) mid by (subst mmap_search_loop.simps) (simp add: Let_def)
  next
    case greater
    then have "mmap_search_loop probe lo hi = mmap_search_loop probe (?mid + 1) hi"
      using assms(1) [of ?mid] mid by (subst mmap_search_loop.simps) (simp add: Let_def)
    with greater less.hyps [of hi "?mid + 1"] less.prems mid show ?thesis by simp
  qed
qed

definition search_in_place :: "IndexRecord list \<Rightarrow> bytes \<Rightarrow> u16 \<Rightarrow> nat option" where
  "search_in_place rs k d = mmap_search_loop (\<lambda>i. cmp (record_key (rs ! i)) (k, d)) 0 (length rs)"

interpretation mmap_search: index_search search_in_place
proof (unfold_locales, goal_cases)
  case (1 rs k d i)
  then show ?case
    using mmap_search_loop_sound [of "\<lambda>i. cmp (record_key (rs ! i)) (k, d)" 0 "length rs" i]
    by (simp add: search_in_place_def)
next
  case (2 rs i k d)
  have "search_in_place rs k d = Some i"
    unfolding search_in_place_def
  proof (rule mmap_search_loop_complete [where n = "length rs"])
    show "cmp (record_key (rs ! j)) (k, d) = Less" if "j < i" for j
      using sorted_index_nth_less [OF 2(1) that 2(2)] 2(3) by (simp add: cmp_def)
    show "cmp (record_key (rs ! j)) (k, d) = Greater" if "i < j" "j < length rs" for j
      using sorted_index_nth_less [OF 2(1) that] 2(3) by (auto simp: cmp_def)
  qed (use 2 in auto)
  then show ?case by simp
qed

lemma search_in_place_eq:
  "sorted_index rs \<Longrightarrow> search_in_place rs k d = binary_search_with_discriminator rs k d"
  using heap_search.search_Some_iff [of rs k d] mmap_search.search_Some_iff [of rs k d]
  by (metis option.exhaust)

section \<open>The mapped index and the parsed index\<close>

lemma record_read_from_raw:
  "record_read_from xs = Inr (r, rest) \<longleftrightarrow>
     (\<exists>raw. from_bits_truncate raw = ir_flags r \<and> length (ir_entry_key r) = 32 \<and>
        xs = ir_entry_key r @ write_u64 (ir_data_offset r) @ write_u32 (ir_data_length r)
             @ write_u16 raw @ write_u16 (ir_discriminator r) @ rest)"
proof
  assume "record_read_from xs = Inr (r, rest)"
  then show "\<exists>raw. from_bits_truncate raw = ir_flags r \<and> length (ir_entry_key r) = 32 \<and>
        xs = ir_entry_key r @ write_u64 (ir_data_offset r) @ write_u32 (ir_data_length r)
             @ write_u16 raw @ write_u16 (ir_discriminator r) @ rest"
    by (auto simp: record_read_from_def bindR_eq_Inr read_Inr)
qed (auto simp: record_read_from_def)

lemma record_read_from_append:
  "record_read_from xs = Inr (r, rest) \<Longrightarrow> record_read_from (xs @ ys) = Inr (r, rest @ ys)"
  unfolding record_read_from_raw by auto

lemma read_records_nth:
  "read_records n bs = Inr rs \<Longrightarrow> i < n \<Longrightarrow>
   \<exists>rest. record_read_from (drop (i * INDEX_RECORD_SIZE) bs) = Inr (rs ! i, rest)"
proof (induction n arbitrary: bs rs i)
  case (Suc n)
  then obtain r bs' rs' where r: "record_read_from bs = Inr (r, bs')" "read_records n bs' = Inr rs'" "rs = r # rs'"
    by (auto simp: bindR_eq_Inr)
  have "length bs = INDEX_RECORD_SIZE + length bs'"
    by (rule record_read_from_length [OF r(1)])
  moreover have "\<exists>pre. bs = pre @ bs'"
    using r(1) by (auto simp: record_read_from_raw)
  ultimately have drop: "drop INDEX_RECORD_SIZE bs = bs'" by auto
  show ?case
  proof (cases i)
    case 0
    then show ?thesis using r by simp
  next
    case (Suc j)
    then have "drop (i * INDEX_RECORD_SIZE) bs = drop (j * INDEX_RECORD_SIZE) bs'"
      by (simp flip: drop add: add.commute)
    then show ?thesis
      using Suc.IH [OF r(2), of j] Suc.prems r(3) Suc by simp
  qed
qed simp

lemma slice_of_drop: "mmap_slice xs (base + a) (base + b) = take (b - a) (drop a (drop base xs))"
  by (simp add: mmap_slice_def add.commute)

lemma read_fields_of_record:
  assumes "record_read_from (drop base xs) = Inr (r, rest)"
  shows "mmap_slice xs base (base + 32) = ir_entry_key r"
    and "of_nat (nat_of_be (mmap_slice xs (base + 32) (base + 40))) = ir_data_offset r"
    and "of_nat (nat_of_be (mmap_slice xs (base + 40) (base + 44))) = ir_data_length r"
    and "from_bits_truncate (of_nat (nat_of_be (mmap_slice xs (base + 44) (base + 46)))) = ir_flags r"
    and "of_nat (nat_of_be (mmap_slice xs (base + 46) (base + 48))) = ir_discriminator r"
proof -
  have be: "of_nat (nat_of_be (be_of_nat 8 (unat w))) = (w :: u64)"
    "of_nat (nat_of_be (be_of_nat 4 (unat v))) = (v :: u32)"
    "of_nat (nat_of_be (be_of_nat 2 (unat u))) = (u :: u16)" for w v u
    using unat_u64_bound [of w] unat_u32_bound [of v] unat_u16_bound [of u]
    by (simp_all add: nat_of_be_of_nat)
  obtain raw where raw: "from_bits_truncate raw = ir_flags r" "length (ir_entry_key r) = 32"
    "drop base xs = ir_entry_key r @ write_u64 (ir_data_offset r) @ write_u32 (ir_data_length r)
             @ write_u16 raw @ write_u16 (ir_discriminator r) @ rest"
    using assms by (auto simp: record_read_from_raw)
  show "mmap_slice xs base (base + 32) = ir_entry_key r"
    using slice_of_drop [of xs base 0 32] raw(2,3) by simp
  show "of_nat (nat_of_be (mmap_slice xs (base + 32) (base + 40))) = ir_data_offset r"
    "of_nat (nat_of_be (mmap_slice xs (base + 40) (base + 44))) = ir_data_length r"
    "from_bits_truncate (of_nat (nat_of_be (mmap_slice xs (base + 44) (base + 46)))) = ir_flags r"
    "of_nat (nat_of_be (mmap_slice xs (base + 46) (base + 48))) = ir_discriminator r"
    using raw(1,2) by (simp_all add: slice_of_drop raw(3) be)
qed

section \<open>Both views of one file\<close>

text \<open>The ranges a mapped bundle reads lie inside its mapping.\<close>

definition open_ranges :: "MmapBundle \<Rightarrow> bool" where
  "open_ranges mb \<longleftrightarrow>
     mm_manifest_start mb \<le> mm_manifest_end mb \<and> mm_manifest_end mb \<le> length (mm_mmap mb) \<and>
     mm_seal_start mb \<le> mm_seal_end mb \<and> mm_seal_end mb \<le> length (mm_mmap mb) \<and>
     mm_index_offset mb + mm_index_count mb * INDEX_RECORD_SIZE \<le> length (mm_mmap mb) \<and>
     mm_data_offset mb + mm_data_length mb \<le> length (mm_mmap mb)"

definition mapped :: "bytes \<Rightarrow> FileHeader \<Rightarrow> Manifest \<Rightarrow> MmapBundle" where
  "mapped bs h man =
     \<lparr>mm_mmap = bs, mm_header = h, mm_manifest = man,
      mm_manifest_start = unat (fh_manifest_offset h),
      mm_manifest_end = unat (fh_manifest_offset h) + unat (fh_manifest_length h),
      mm_seal_start = unat (fh_seal_offset h),
      mm_seal_end = unat (fh_seal_offset h) + unat (fh_seal_length h),
      mm_index_offset = unat (fh_index_offset h),
      mm_index_count = unat (fh_index_length h) div INDEX_RECORD_SIZE,
      mm_data_offset = unat (fh_data_offset h),
      mm_data_length = unat (fh_data_length h)\<rparr>"

definition header_slice :: "bytes \<Rightarrow> FileHeader \<Rightarrow> bytes" where
  "header_slice bs h =
     mmap_slice bs (unat (fh_manifest_offset h)) (unat (fh_manifest_offset h) + unat (fh_manifest_length h))"

lemma header_read_take:
  "header_read_from (take HEADER_SIZE bs) = Inr (h, rest) \<longleftrightarrow>
     rest = [] \<and> header_read_from bs = Inr (h, drop HEADER_SIZE bs)"
proof
  assume *: "header_read_from (take HEADER_SIZE bs) = Inr (h, rest)"
  then have t: "take HEADER_SIZE bs = header_write_to h @ rest" "fh_format_major h = FORMAT_MAJOR"
    using header_write_read by auto
  then have "HEADER_SIZE + length rest \<le> HEADER_SIZE"
    by (metis length_append length_header_write_to length_take min.cobounded2)
  then have "rest = []" by simp
  moreover have "bs = header_write_to h @ drop HEADER_SIZE bs"
    using t(1) \<open>rest = []\<close> append_take_drop_id [of HEADER_SIZE bs] by simp
  then have "header_read_from bs = Inr (h, drop HEADER_SIZE bs)"
    using header_read_write [OF t(2)] by metis
  ultimately show "rest = [] \<and> header_read_from bs = Inr (h, drop HEADER_SIZE bs)" by blast
next
  assume *: "rest = [] \<and> header_read_from bs = Inr (h, drop HEADER_SIZE bs)"
  then have t: "bs = header_write_to h @ drop HEADER_SIZE bs" "fh_format_major h = FORMAT_MAJOR"
    using header_write_read by blast+
  then have "take HEADER_SIZE bs = header_write_to h"
    by (metis append_eq_conv_conj length_header_write_to)
  then show "header_read_from (take HEADER_SIZE bs) = Inr (h, rest)"
    using header_read_write [OF t(2), of "[]"] * by simp
qed

lemma header_read_rest: "header_read_from bs = Inr (h, rest) \<Longrightarrow> rest = drop HEADER_SIZE bs \<and> HEADER_SIZE \<le> length bs"
  using header_write_read [of bs h rest] by (metis append_eq_conv_conj length_append length_header_write_to le_add1)

lemma mmap_open_Inr:
  assumes "length bs < 2 ^ 64"
  shows "mmap_open E bs = Inr mb \<longleftrightarrow>
     (\<exists>h man rest. header_read_from bs = Inr (h, rest) \<and> sections_within h (length bs) \<and>
        from_cbor E (header_slice bs h) = Inr man \<and>
        unat (fh_index_length h) mod INDEX_RECORD_SIZE = 0 \<and> mb = mapped bs h man)"
    (is "_ \<longleftrightarrow> ?R")
proof
  assume "mmap_open E bs = Inr mb"
  then show ?R
    using assms
    by (auto simp: mmap_open_def Let_def bindR_eq_Inr validate_bounds_Inr unat_len_u64 header_slice_def
        mapped_def header_read_take split: if_splits)
next
  assume ?R
  then obtain h man bs' where h: "header_read_from bs = Inr (h, bs')"
    and rest: "sections_within h (length bs)" "from_cbor E (header_slice bs h) = Inr man"
      "unat (fh_index_length h) mod INDEX_RECORD_SIZE = 0" "mb = mapped bs h man"
    by (elim exE conjE) (rule that)
  have "header_read_from (take HEADER_SIZE bs) = Inr (h, [])"
    using h header_read_rest [OF h] by (simp add: header_read_take)
  moreover have "\<not> len_u64 bs < of_nat HEADER_SIZE" "validate_bounds h (len_u64 bs) = Inr ()"
    using assms rest(1) header_read_rest [OF h]
    by (simp_all add: word_less_nat_alt unat_len_u64 HEADER_SIZE_def validate_bounds_Inr)
  ultimately show "mmap_open E bs = Inr mb" using rest
    by (simp add: mmap_open_def Let_def header_slice_def mapped_def)
qed

lemma mmap_open_ranges: "mmap_open E bs = Inr mb \<Longrightarrow> length bs < 2 ^ 64 \<Longrightarrow> open_ranges mb"
  by (auto simp: mmap_open_Inr mapped_def open_ranges_def sections_within_def minus_mod_eq_div_mult [symmetric])

lemma from_bytes_Inr:
  assumes "length bs < 2 ^ 64"
  shows "from_bytes E bs = Inr b \<longleftrightarrow>
     (\<exists>h man rest rs. header_read_from bs = Inr (h, rest) \<and> sections_within h (length bs) \<and>
        from_cbor E (header_slice bs h) = Inr man \<and>
        parse_index (mmap_slice bs (unat (fh_index_offset h)) (unat (fh_index_offset h) + unat (fh_index_length h))) = Inr rs \<and>
        b = \<lparr>b_header = h, b_manifest = man, b_manifest_bytes = header_slice bs h,
             b_seal_bytes = mmap_slice bs (unat (fh_seal_offset h)) (unat (fh_seal_offset h) + unat (fh_seal_length h)),
             b_index = rs,
             b_data = mmap_slice bs (unat (fh_data_offset h)) (unat (fh_data_offset h) + unat (fh_data_length h))\<rparr>)"
proof -
  have sec: "read_section bs off len = Inr sec \<longleftrightarrow> sec = mmap_slice bs (unat off) (unat off + unat len)"
    if "unat off + unat len \<le> length bs" for off len sec
    using that assms by (auto simp: read_section_Inr slice_get_Some mmap_slice_def)
  show ?thesis
    by (auto simp: from_bytes_def bindR_eq_Inr validate_bounds_Inr unat_len_u64 [OF assms]
        sections_within_def sec header_slice_def cong: conj_cong)
qed

lemma record_read_from_total:
  "INDEX_RECORD_SIZE \<le> length bs \<Longrightarrow> \<exists>r rest. record_read_from bs = Inr (r, rest)"
  by (auto simp: record_read_from_def read_be_def read_exact_def INDEX_RECORD_SIZE_def)

lemma read_records_total:
  "n * INDEX_RECORD_SIZE \<le> length bs \<Longrightarrow> \<exists>rs. read_records n bs = Inr rs"
proof (induction n arbitrary: bs)
  case (Suc n)
  then obtain r rest where r: "record_read_from bs = Inr (r, rest)"
    using record_read_from_total [of bs] by auto
  moreover have "n * INDEX_RECORD_SIZE \<le> length rest"
    using record_read_from_length [OF r] Suc.prems by simp
  ultimately show ?case using Suc.IH [of rest] by auto
qed simp

lemma parse_index_total:
  "(\<exists>rs. parse_index bs = Inr rs) \<longleftrightarrow> length bs mod INDEX_RECORD_SIZE = 0"
  using read_records_total [of "length bs div INDEX_RECORD_SIZE" bs]
  by (auto simp: parse_index_def)

lemma length_mmap_slice: "b \<le> length xs \<Longrightarrow> length (mmap_slice xs a b) = b - a"
  by (simp add: mmap_slice_def)

text \<open>A file opens as a mapping exactly when it parses into memory.\<close>

lemma mmap_open_iff_from_bytes:
  assumes "length bs < 2 ^ 64"
  shows "(\<exists>mb. mmap_open E bs = Inr mb) \<longleftrightarrow> (\<exists>b. from_bytes E bs = Inr b)"
proof -
  have idx: "(\<exists>rs. parse_index (mmap_slice bs (unat (fh_index_offset h)) (unat (fh_index_offset h) + unat (fh_index_length h))) = Inr rs)
      \<longleftrightarrow> unat (fh_index_length h) mod INDEX_RECORD_SIZE = 0" if "sections_within h (length bs)" for h
    using that by (simp add: parse_index_total length_mmap_slice sections_within_def)
  show ?thesis
    by (simp add: mmap_open_Inr [OF assms] from_bytes_Inr [OF assms]) (metis idx)
qed

definition mmap_record :: "MmapBundle \<Rightarrow> nat \<Rightarrow> IndexRecord" where
  "mmap_record mb n =
     (let (offset, len, flags, disc) = read_record_fields mb n
      in \<lparr>ir_entry_key = read_entry_key mb n, ir_data_offset = offset, ir_data_length = len,
          ir_flags = flags, ir_discriminator = disc\<rparr>)"

lemma mmap_record_fields:
  assumes "record_read_from (drop (mm_index_offset mb + n * INDEX_RECORD_SIZE) (mm_mmap mb)) = Inr (r, rest)"
  shows "mmap_record mb n = r" and "read_entry_key mb n = ir_entry_key r"
    and "read_discriminator mb n = ir_discriminator r"
    and "read_record_fields mb n = (ir_data_offset r, ir_data_length r, ir_flags r, ir_discriminator r)"
  using read_fields_of_record [OF assms]
  by (cases r; simp add: mmap_record_def read_entry_key_def read_discriminator_def read_record_fields_def Let_def)+

lemma parse_index_nth:
  assumes "parse_index (mmap_slice bs off (off + len)) = Inr rs" and "off + len \<le> length bs"
  shows "length rs = len div INDEX_RECORD_SIZE"
    and "i < length rs \<Longrightarrow> \<exists>rest. record_read_from (drop (off + i * INDEX_RECORD_SIZE) bs) = Inr (rs ! i, rest)"
proof -
  let ?idx = "mmap_slice bs off (off + len)"
  have len: "length ?idx = len" using assms(2) by (simp add: length_mmap_slice)
  then have rs: "read_records (len div INDEX_RECORD_SIZE) ?idx = Inr rs"
    using assms(1) by (simp add: parse_index_def split: if_splits)
  then show n: "length rs = len div INDEX_RECORD_SIZE" using read_records_wf by blast
  assume "i < length rs"
  then obtain rest where "record_read_from (drop (i * INDEX_RECORD_SIZE) ?idx) = Inr (rs ! i, rest)"
    using read_records_nth [OF rs, of i] n by auto
  moreover have "drop (i * INDEX_RECORD_SIZE) ?idx
      = take (len - i * INDEX_RECORD_SIZE) (drop (off + i * INDEX_RECORD_SIZE) bs)"
    by (simp add: mmap_slice_def drop_take add.commute)
  ultimately show "\<exists>rest. record_read_from (drop (off + i * INDEX_RECORD_SIZE) bs) = Inr (rs ! i, rest)"
    by (metis record_read_from_append append_take_drop_id)
qed

lemma mmap_search_loop_cong:
  "(\<And>i. i < hi \<Longrightarrow> p i = q i) \<Longrightarrow> mmap_search_loop p lo hi = mmap_search_loop q lo hi"
proof (induction "hi - lo" arbitrary: lo hi rule: less_induct)
  case less
  let ?mid = "lo + (hi - lo) div 2"
  show ?case
  proof (cases "lo < hi")
    case True
    then have "p ?mid = q ?mid" "mmap_search_loop p (?mid + 1) hi = mmap_search_loop q (?mid + 1) hi"
      "mmap_search_loop p lo ?mid = mmap_search_loop q lo ?mid"
      using less by (auto intro!: less.hyps less.prems)
    then show ?thesis
      using True
      by (simp add: mmap_search_loop.simps [of p lo hi] mmap_search_loop.simps [of q lo hi] Let_def
          split: ordering.split)
  next
    case False
    then show ?thesis
      by (simp add: mmap_search_loop.simps [of p lo hi] mmap_search_loop.simps [of q lo hi])
  qed
qed

definition same_file :: "MmapBundle \<Rightarrow> Bundle \<Rightarrow> bool" where
  "same_file mb b \<longleftrightarrow>
     mm_index_count mb = length (b_index b) \<and>
     (\<forall>i < length (b_index b). mmap_record mb i = b_index b ! i \<and>
        read_entry_key mb i = ir_entry_key (b_index b ! i) \<and>
        read_discriminator mb i = ir_discriminator (b_index b ! i) \<and>
        read_record_fields mb i =
          (ir_data_offset (b_index b ! i), ir_data_length (b_index b ! i), ir_flags (b_index b ! i),
           ir_discriminator (b_index b ! i))) \<and>
     b_data b = mmap_slice (mm_mmap mb) (mm_data_offset mb) (mm_data_offset mb + mm_data_length mb) \<and>
     mm_data_offset mb + mm_data_length mb \<le> length (mm_mmap mb) \<and> length (mm_mmap mb) < 2 ^ 64"

lemma mapped_sel [simp]:
  "mm_mmap (mapped bs h man) = bs"
  "mm_index_offset (mapped bs h man) = unat (fh_index_offset h)"
  "mm_index_count (mapped bs h man) = unat (fh_index_length h) div INDEX_RECORD_SIZE"
  "mm_data_offset (mapped bs h man) = unat (fh_data_offset h)"
  "mm_data_length (mapped bs h man) = unat (fh_data_length h)"
  by (simp_all add: mapped_def)

lemma opened_same_file:
  assumes "mmap_open E bs = Inr mb" and "from_bytes E bs = Inr b" and "length bs < 2 ^ 64"
  shows "same_file mb b"
proof -
  from assms obtain h man where mb: "mb = mapped bs h man" and within: "sections_within h (length bs)"
    and idx: "parse_index (mmap_slice bs (unat (fh_index_offset h)) (unat (fh_index_offset h) + unat (fh_index_length h))) = Inr (b_index b)"
    and dat: "b_data b = mmap_slice bs (unat (fh_data_offset h)) (unat (fh_data_offset h) + unat (fh_data_length h))"
    by (auto simp: mmap_open_Inr [OF assms(3)] from_bytes_Inr [OF assms(3)])
  have bound: "unat (fh_index_offset h) + unat (fh_index_length h) \<le> length bs"
    using within by (simp add: sections_within_def)
  have "length (b_index b) = mm_index_count mb"
    using parse_index_nth(1) [OF idx bound] mb by simp
  moreover have "mmap_record mb i = b_index b ! i \<and>
        read_entry_key mb i = ir_entry_key (b_index b ! i) \<and>
        read_discriminator mb i = ir_discriminator (b_index b ! i) \<and>
        read_record_fields mb i =
          (ir_data_offset (b_index b ! i), ir_data_length (b_index b ! i), ir_flags (b_index b ! i),
           ir_discriminator (b_index b ! i))" if i: "i < length (b_index b)" for i
  proof -
    obtain rest where "record_read_from (drop (mm_index_offset mb + i * INDEX_RECORD_SIZE) (mm_mmap mb))
        = Inr (b_index b ! i, rest)"
      using parse_index_nth(2) [OF idx bound i] mb by auto
    then show ?thesis using mmap_record_fields by blast
  qed
  ultimately show ?thesis
    using mb dat within assms(3) by (simp add: same_file_def sections_within_def)
qed

lemma same_file_search:
  assumes "same_file mb b"
  shows "binary_search_disc mb k d = search_in_place (b_index b) k d"
  using assms
  by (auto simp: binary_search_disc_def search_in_place_def same_file_def record_probe_cmp
      intro!: mmap_search_loop_cong)

lemma slice_get_within:
  assumes "off + len \<le> length xs" and "s \<le> e" and "e \<le> len"
  shows "slice_get xs (off + s) (off + e) = slice_get (take len (drop off xs)) s e"
proof -
  have "min (e - s) (len - s) = e - s" using assms by simp
  then show ?thesis using assms by (simp add: slice_get_def drop_take add.commute)
qed

lemma same_file_entry:
  assumes "same_file mb b" and "i < length (b_index b)"
  shows "entry_at_mmap mb i = entry_at b i"
proof -
  let ?r = "b_index b ! i" and ?off = "mm_data_offset mb" and ?len = "mm_data_length mb"
  have f: "read_record_fields mb i = (ir_data_offset ?r, ir_data_length ?r, ir_flags ?r, ir_discriminator ?r)"
    and dat: "b_data b = take ?len (drop ?off (mm_mmap mb))"
    and bound: "?off + ?len \<le> length (mm_mmap mb)" "length (mm_mmap mb) < 2 ^ 64"
    using assms by (simp_all add: same_file_def mmap_slice_def)
  let ?s = "unat (ir_data_offset ?r)" and ?e = "unat (ir_data_offset ?r) + unat (ir_data_length ?r)"
  have len: "length (b_data b) = ?len" using dat bound by simp
  show ?thesis
  proof (cases "is_tombstone ?r \<or> ?len < ?e")
    case True
    then show ?thesis
      using f assms(2) len
      by (auto simp: entry_at_mmap_def entry_at_def entry_bytes_def is_tombstone_def checked_add_usize_def
          slice_get_def)
  next
    case False
    then have "slice_get (mm_mmap mb) (?off + ?s) (?off + ?e) = slice_get (b_data b) ?s ?e"
      using slice_get_within [of ?off ?len "mm_mmap mb" ?s ?e] bound dat by simp
    moreover have "checked_add_usize ?s (unat (ir_data_length ?r)) = Some ?e"
      "checked_add_usize ?off ?s = Some (?off + ?s)" "checked_add_usize ?off ?e = Some (?off + ?e)"
      using False bound by (simp_all add: checked_add_usize_def usize_bound_def)
    ultimately show ?thesis
      using f assms(2) False
      by (simp add: Let_def entry_at_mmap_def entry_at_def entry_bytes_def is_tombstone_def)
  qed
qed

lemma mmap_lookup_preferences_find:
  "mmap_lookup_preferences mb k prefs =
     (case find (\<lambda>d. binary_search_disc mb k d \<noteq> None) prefs of
        None \<Rightarrow> None | Some d \<Rightarrow> map_option (entry_at_mmap mb) (binary_search_disc mb k d))"
  by (induction prefs) (auto split: option.splits)

lemma mmap_lookup_preferred_record:
  "mmap_lookup_preferred mb k prefs =
     opt_join (map_option (entry_at_mmap mb) (preferred_record (\<lambda>(k, d). binary_search_disc mb k d) k prefs))"
proof (cases "find (\<lambda>d. binary_search_disc mb k d \<noteq> None) prefs")
  case None
  then have "mmap_lookup_preferences mb k prefs = None"
    by (simp add: mmap_lookup_preferences_find del: not_None_eq)
  moreover from None have "0 \<in> set prefs \<Longrightarrow> binary_search_disc mb k 0 = None"
    by (simp add: find_None_iff)
  ultimately show ?thesis
    using None
    by (auto simp: mmap_lookup_preferred_def preferred_record_def find_append ALG_DISC_DEFAULT_def
        opt_join_def simp del: not_None_eq split: option.splits)
next
  case (Some d)
  then obtain i where "binary_search_disc mb k d = Some i"
    by (auto simp: find_Some_iff)
  with Some show ?thesis
    by (simp add: mmap_lookup_preferred_def preferred_record_def find_append mmap_lookup_preferences_find
        opt_join_def del: not_None_eq)
qed

text \<open>Over one file with a sorted index the mapped bundle answers as the parsed one does.\<close>

lemma same_file_lookup_preferred:
  assumes "same_file mb b" and "sorted_index (b_index b)"
  shows "mmap_lookup_preferred mb k prefs = lookup_preferred b k prefs"
proof -
  have "(\<lambda>(k, d). binary_search_disc mb k d) = (\<lambda>(k, d). binary_search_with_discriminator (b_index b) k d)"
    using same_file_search [OF assms(1)] search_in_place_eq [OF assms(2)] by auto
  then show ?thesis
    by (auto simp: mmap_lookup_preferred_record lookup_preferred_def opt_join_def
        same_file_entry [OF assms(1)] search_preferred_bound
        simp flip: binary_search_preferred_record split: option.splits bind_splits)
qed

lemma same_file_lookup:
  assumes "same_file mb b" and "sorted_index (b_index b)"
  shows "mmap_lookup mb k = lookup b k"
  using heap_search.search_sound same_file_entry [OF assms(1)]
  by (auto simp: mmap_lookup_def lookup_def binary_search_def ALG_DISC_DEFAULT_def same_file_search [OF assms(1)]
      search_in_place_eq [OF assms(2)] split: bind_splits)

end
