(* ===== verification/Ahu_Verify.thy ===== *)
theory Ahu_Verify
  imports Ahu_Bundle
begin

text \<open>
  Structural verification of a parsed bundle (\<^verbatim>\<open>crates/ahu/src/verify.rs\<close>): the checks in their
  order with the error each returns, the manifest digest and the epoch check against high-water
  marks. \<open>structurally_sound\<close> says what a bundle that passes satisfies.
\<close>

section \<open>Verification\<close>

record VerifyResult =
  vr_header_ok :: bool
  vr_manifest_ok :: bool
  vr_index_digest_ok :: bool
  vr_data_digest_ok :: bool
  vr_sort_order_ok :: bool
  vr_entry_bounds_ok :: bool
  vr_seal_present :: bool
  vr_entry_count_matches :: bool
  vr_warnings :: "string list"

definition check_entry :: "Bundle \<Rightarrow> IndexRecord \<Rightarrow> ahu_error + unit" where
  "check_entry b record =
     (if is_tombstone record then Inr ()
      else if entry_bytes b record = None
      then Inl (EntryOutOfBounds (ir_data_offset record) (ir_data_length record))
      else Inr ())"

definition verify_structure :: "externals \<Rightarrow> Bundle \<Rightarrow> ahu_error + VerifyResult" where
  "verify_structure E b =
     bindR (from_cbor E (b_manifest_bytes b)) (\<lambda>manifest.
     if to_cbor E manifest \<noteq> to_cbor E (b_manifest b)
     then Inl (ManifestField ''decoded manifest does not match manifest bytes'')
     else
     (let integrity = mf_integrity manifest;
          seal_present = b_seal_bytes b \<noteq> [];
          computed_index_digest = sha256 E (write_index (b_index b));
          computed_data_digest = sha256 E (b_data b)
      in
      if computed_index_digest \<noteq> in_index_digest integrity
      then Inl (IndexDigestMismatch (hex_encode E (in_index_digest integrity)) (hex_encode E computed_index_digest))
      else if computed_data_digest \<noteq> in_data_digest integrity
      then Inl (DataDigestMismatch (hex_encode E (in_data_digest integrity)) (hex_encode E computed_data_digest))
      else
      bindR (validate_sort_order E (b_index b)) (\<lambda>_.
      let entry_count_matches = len_u64 (b_index b) = mf_entry_count manifest;
          count_warnings =
            (if entry_count_matches then []
             else [''entry_count in manifest ('' @ show_nat (unat (mf_entry_count manifest))
                   @ '') does not match index record count ('' @ show_nat (length (b_index b)) @ '')''])
      in
      bindR (allR (check_entry b) (b_index b)) (\<lambda>_.
      if mf_bundle_type manifest = DeltaBundle \<and> co_base_manifest_digest (mf_continuity manifest) = None
      then Inl DeltaMissingBase
      else Inr \<lparr>vr_header_ok = True, vr_manifest_ok = True, vr_index_digest_ok = True,
                vr_data_digest_ok = True, vr_sort_order_ok = True, vr_entry_bounds_ok = True,
                vr_seal_present = seal_present, vr_entry_count_matches = entry_count_matches,
                vr_warnings = count_warnings @ (if seal_present then [] else [''seal section is empty''])\<rparr>))))"

definition manifest_digest :: "externals \<Rightarrow> bytes \<Rightarrow> bytes" where
  "manifest_digest E manifest_bytes = sha256 E manifest_bytes"

definition check_epochs :: "externals \<Rightarrow> Bundle \<Rightarrow> (string \<times> bytes \<Rightarrow> u64 option) \<Rightarrow> ahu_error + unit" where
  "check_epochs E b high_water_marks =
     allR (\<lambda>scope.
       case high_water_marks (mf_producer_id (b_manifest b), cs_issuer_key_hash scope) of
         Some hw \<Rightarrow>
           if cs_epoch scope \<le> hw
           then Inl (EpochRollback (hex_encode E (cs_issuer_key_hash scope)) (cs_epoch scope) hw)
           else Inr ()
       | None \<Rightarrow> Inr ()) (mf_ca_scopes (b_manifest b))"

section \<open>What verification establishes\<close>

text \<open>
  The manifest bytes decode to a manifest that encodes as the parsed one does, and that manifest's
  digests are those of the sections; the index is strictly sorted, every entry that is not a
  tombstone has its bytes, and a delta names its base.
\<close>

definition structurally_sound :: "externals \<Rightarrow> Bundle \<Rightarrow> bool" where
  "structurally_sound E b \<longleftrightarrow>
     (\<exists>m. from_cbor E (b_manifest_bytes b) = Inr m \<and>
        to_cbor E m = to_cbor E (b_manifest b) \<and>
        in_index_digest (mf_integrity m) = sha256 E (write_index (b_index b)) \<and>
        in_data_digest (mf_integrity m) = sha256 E (b_data b) \<and>
        (mf_bundle_type m = DeltaBundle \<longrightarrow> co_base_manifest_digest (mf_continuity m) \<noteq> None)) \<and>
     sorted_index (b_index b) \<and>
     (\<forall>r \<in> set (b_index b). is_tombstone r \<or> entry_bytes b r \<noteq> None)"

lemma check_entry_Inr: "check_entry b r = Inr u \<longleftrightarrow> is_tombstone r \<or> entry_bytes b r \<noteq> None"
  by (auto simp: check_entry_def)

lemma verify_structure_sound: "verify_structure E b = Inr r \<Longrightarrow> structurally_sound E b"
  unfolding structurally_sound_def verify_structure_def
  by (auto simp: Let_def bindR_eq_Inr validate_sort_order_Inr allR_eq_Inr check_entry_Inr split: if_splits)

lemma verify_structure_complete:
  assumes "structurally_sound E b"
  shows "\<exists>r. verify_structure E b = Inr r"
proof -
  have "validate_sort_order E (b_index b) = Inr ()" "allR (check_entry b) (b_index b) = Inr ()"
    using assms by (simp_all add: structurally_sound_def validate_sort_order_Inr allR_eq_Inr check_entry_Inr)
  moreover obtain m where "from_cbor E (b_manifest_bytes b) = Inr m"
      "to_cbor E m = to_cbor E (b_manifest b)"
      "in_index_digest (mf_integrity m) = sha256 E (write_index (b_index b))"
      "in_data_digest (mf_integrity m) = sha256 E (b_data b)"
      "\<not> (mf_bundle_type m = DeltaBundle \<and> co_base_manifest_digest (mf_continuity m) = None)"
    using assms by (auto simp: structurally_sound_def)
  ultimately show ?thesis
    unfolding verify_structure_def Let_def by (simp only: bindR_simps simp_thms if_False) blast
qed

lemma verify_structure_sound_iff:
  "(\<exists>r. verify_structure E b = Inr r) \<longleftrightarrow> structurally_sound E b"
  using verify_structure_sound verify_structure_complete by blast

lemma verify_structure_result:
  assumes "verify_structure E b = Inr r"
  shows "vr_seal_present r \<longleftrightarrow> b_seal_bytes b \<noteq> []"
    and "from_cbor E (b_manifest_bytes b) = Inr m \<Longrightarrow> vr_entry_count_matches r \<longleftrightarrow> len_u64 (b_index b) = mf_entry_count m"
  using assms by (auto simp: verify_structure_def Let_def bindR_eq_Inr split: if_splits)

lemma check_epochs_Inr:
  "check_epochs E b hwm = Inr u \<longleftrightarrow>
     (\<forall>s \<in> set (mf_ca_scopes (b_manifest b)). \<forall>hw.
        hwm (mf_producer_id (b_manifest b), cs_issuer_key_hash s) = Some hw \<longrightarrow> hw < cs_epoch s)"
  by (auto simp: check_epochs_def allR_eq_Inr not_le split: option.splits if_splits) (metis not_le)

text \<open>The builder's own output passes.\<close>

lemma built_bundle_sound:
  assumes "wf_builder E b" and "sha256_length E" and "uuid_16 E" and "layout_fits E b"
    and "cbor_roundtrip E (manifest_to_val (built_manifest E b))"
    and "mf_bundle_type (bb_manifest b) = DeltaBundle \<longrightarrow>
      co_base_manifest_digest (mf_continuity (bb_manifest b)) \<noteq> None"
  shows "structurally_sound E (built_bundle E b seal)"
proof -
  let ?B = "built_bundle E b seal"
  have parts: "b_manifest_bytes ?B = to_cbor E (built_manifest E b)" "b_manifest ?B = built_manifest E b"
    "b_index ?B = la_index (built_layout E b)" "b_data ?B = la_data (built_layout E b)"
    by (simp_all add: built_bundle_def Let_def)
  have man: "from_cbor E (b_manifest_bytes ?B) = Inr (built_manifest E b)"
    using from_cbor_to_cbor [OF wf_built_manifest [OF assms(1,2)] assms(3,5)] parts by simp
  have digests: "in_index_digest (mf_integrity (built_manifest E b)) = sha256 E (write_index (b_index ?B))"
    "in_data_digest (mf_integrity (built_manifest E b)) = sha256 E (b_data ?B)"
    "mf_bundle_type (built_manifest E b) = mf_bundle_type (bb_manifest b)"
    "mf_continuity (built_manifest E b) = mf_continuity (bb_manifest b)"
    by (simp_all add: built_manifest_def finish_manifest_def parts Let_def)
  have "is_tombstone r \<or> entry_bytes ?B r \<noteq> None" if "r \<in> set (b_index ?B)" for r
  proof -
    have "list_all2 (placed (b_data ?B)) (sort_entries (bb_entries b)) (b_index ?B)"
      using built_layout_ok [OF assms(1,4)] parts by (simp add: layout_ok_def)
    moreover obtain i where "i < length (b_index ?B)" "r = b_index ?B ! i"
      using \<open>r \<in> set (b_index ?B)\<close> by (metis in_set_conv_nth)
    ultimately have e: "placed (b_data ?B) (sort_entries (bb_entries b) ! i) r"
      by (simp add: list_all2_nthD2)
    then show ?thesis
      using placed_entry_bytes [OF e] built_data_bound [OF assms(4)] parts
      by (auto simp: placed_def split: if_splits)
  qed
  moreover have "sorted_index (b_index ?B)"
    using built_index_sorted [OF assms(1,4)] parts by simp
  ultimately show ?thesis
    unfolding structurally_sound_def using man digests parts(2) assms(6) by auto
qed

end
