(* ===== verification/Btree_Map.thy ===== *)
theory Btree_Map
  imports Main
begin

text \<open>
  \<^verbatim>\<open>std::collections::BTreeMap\<close> as the sources use it: a map with a total order on its keys whose
  iteration is in key order. The model is a key-sorted association list with insertion, removal
  and lookup. What its users rely on is the locale \<open>ordered_map\<close>, which also carries the lemma
  they share: a sequence of insertions and removals acts on the map as an overlay.
\<close>

section \<open>The interface\<close>

text \<open>An update of one key: the new value, or \<^const>\<open>None\<close> for a removal.\<close>

type_synonym ('k, 'v) update = "'k \<times> 'v option"

definition overlay :: "('k \<Rightarrow> 'v option) \<Rightarrow> ('k, 'v) update list \<Rightarrow> 'k \<Rightarrow> 'v option" where
  "overlay m us k = (case map_of (rev us) k of None \<Rightarrow> m k | Some v \<Rightarrow> v)"

locale ordered_map =
  fixes inv :: "'m \<Rightarrow> bool"
    and empty :: 'm
    and get :: "'m \<Rightarrow> 'k::linorder \<Rightarrow> 'v option"
    and insert :: "'k \<Rightarrow> 'v \<Rightarrow> 'm \<Rightarrow> 'm"
    and remove :: "'k \<Rightarrow> 'm \<Rightarrow> 'm"
    and entries :: "'m \<Rightarrow> ('k \<times> 'v) list"
  assumes inv_empty: "inv empty"
    and inv_insert: "inv m \<Longrightarrow> inv (insert k v m)"
    and inv_remove: "inv m \<Longrightarrow> inv (remove k m)"
    and get_empty: "get empty = (\<lambda>_. None)"
    and get_insert: "inv m \<Longrightarrow> get (insert k v m) = (get m)(k \<mapsto> v)"
    and get_remove: "inv m \<Longrightarrow> get (remove k m) = (get m)(k := None)"
    and entries_sorted: "inv m \<Longrightarrow> sorted_wrt (<) (map fst (entries m))"
    and entries_get: "inv m \<Longrightarrow> map_of (entries m) = get m"
begin

lemma distinct_entries: "inv m \<Longrightarrow> distinct (map fst (entries m))"
  using entries_sorted strict_sorted_iff by blast

lemma entries_iff: "inv m \<Longrightarrow> (k, v) \<in> set (entries m) \<longleftrightarrow> get m k = Some v"
  using map_of_eq_Some_iff [OF distinct_entries, of m k v] entries_get [of m] by simp

lemma updates_overlay:
  assumes "inv m"
  shows "inv (fold (\<lambda>(k, u). case u of None \<Rightarrow> remove k | Some v \<Rightarrow> insert k v) us m)"
    and "get (fold (\<lambda>(k, u). case u of None \<Rightarrow> remove k | Some v \<Rightarrow> insert k v) us m) = overlay (get m) us"
  using assms
proof (induction us arbitrary: m)
  case Nil
  {
    case 1
    then show ?case by simp
  next
    case 2
    then show ?case by (simp add: overlay_def fun_eq_iff)
  }
next
  case (Cons u us)
  obtain k v where u: "u = (k, v)" by (cases u)
  {
    case 1
    then show ?case using Cons.IH by (auto simp: u inv_insert inv_remove split: option.split)
  next
    case 2
    then show ?case
      using Cons.IH(2) [of "remove k m"] Cons.IH(2) [of "insert k (the v) m"]
      by (cases v) (auto simp: u inv_insert inv_remove get_insert get_remove overlay_def fun_eq_iff
          map_add_def split: option.split)
  }
qed

end

section \<open>Key-sorted association lists\<close>

type_synonym ('k, 'v) btree = "('k \<times> 'v) list"

definition bt_inv :: "('k::linorder, 'v) btree \<Rightarrow> bool" where
  "bt_inv m \<longleftrightarrow> sorted_wrt (<) (map fst m)"

fun bt_insert :: "'k::linorder \<Rightarrow> 'v \<Rightarrow> ('k, 'v) btree \<Rightarrow> ('k, 'v) btree" where
  "bt_insert k v [] = [(k, v)]"
| "bt_insert k v ((k', v') # m) =
     (if k < k' then (k, v) # (k', v') # m
      else if k = k' then (k, v) # m
      else (k', v') # bt_insert k v m)"

fun bt_remove :: "'k::linorder \<Rightarrow> ('k, 'v) btree \<Rightarrow> ('k, 'v) btree" where
  "bt_remove k [] = []"
| "bt_remove k ((k', v') # m) = (if k = k' then m else (k', v') # bt_remove k m)"

definition bt_get :: "('k, 'v) btree \<Rightarrow> 'k \<Rightarrow> 'v option" where
  "bt_get m = map_of m"

lemma keys_bt_insert [simp]: "fst ` set (bt_insert k v m) = Set.insert k (fst ` set m)"
  by (induction k v m rule: bt_insert.induct) auto

lemma keys_bt_remove: "fst ` set (bt_remove k m) \<subseteq> fst ` set m"
  by (induction k m rule: bt_remove.induct) auto

lemma bt_inv_Cons: "bt_inv ((k, v) # m) \<longleftrightarrow> (\<forall>k' \<in> fst ` set m. k < k') \<and> bt_inv m"
  by (auto simp: bt_inv_def)

lemma bt_inv_insert: "bt_inv m \<Longrightarrow> bt_inv (bt_insert k v m)"
  by (induction k v m rule: bt_insert.induct) (auto simp: bt_inv_Cons bt_inv_def)

lemma bt_inv_remove: "bt_inv m \<Longrightarrow> bt_inv (bt_remove k m)"
  using keys_bt_remove by (induction k m rule: bt_remove.induct) (fastforce simp: bt_inv_Cons)+

lemma bt_get_insert: "bt_get (bt_insert k v m) = (bt_get m)(k \<mapsto> v)"
  by (induction k v m rule: bt_insert.induct) (auto simp: bt_get_def fun_eq_iff)

lemma bt_get_remove: "bt_inv m \<Longrightarrow> bt_get (bt_remove k m) = (bt_get m)(k := None)"
proof (induction k m rule: bt_remove.induct)
  case (2 k k' v' m)
  then have "k' \<notin> fst ` set m" by (auto simp: bt_inv_Cons)
  then have "map_of m k' = None" by (simp add: map_of_eq_None_iff)
  with 2 show ?case by (auto simp: bt_get_def fun_eq_iff bt_inv_Cons)
qed (simp add: bt_get_def fun_eq_iff)

interpretation bt: ordered_map bt_inv "[]" bt_get bt_insert bt_remove "\<lambda>m. m"
  by unfold_locales
    (simp_all add: bt_inv_insert bt_inv_remove bt_get_insert bt_get_remove, simp_all add: bt_inv_def bt_get_def fun_eq_iff)

end
