(* ===== verification/Ahu_Ops.thy ===== *)
theory Ahu_Ops
  imports Ahu_Verify Btree_Map
begin

text \<open>
  Bundle operations (\<^verbatim>\<open>crates/ahu/src/ops.rs\<close>): the structural diff of two bundles and the
  application of a chain of deltas to a full base. The working set is a \<^verbatim>\<open>BTreeMap\<close>, so the
  materialised entries come out in key order. The diff collects from hash sets, whose iteration
  order is unspecified; its entry lists are modelled as sets.
\<close>

section \<open>Diff\<close>

type_synonym EntryRef = "bytes \<times> u16"

record DiffResult =
  dr_a_entry_count :: nat
  dr_b_entry_count :: nat
  dr_a_epochs :: "u64 list"
  dr_b_epochs :: "u64 list"
  dr_added :: "EntryRef set"
  dr_removed :: "EntryRef set"
  dr_changed :: "EntryRef set"
  dr_unchanged :: nat

definition entry_data :: "Bundle \<Rightarrow> EntryRef \<Rightarrow> bytes option" where
  "entry_data b kd =
     Option.bind (binary_search_with_discriminator (b_index b) (fst kd) (snd kd)) (entry_at b)"

definition diff :: "Bundle \<Rightarrow> Bundle \<Rightarrow> DiffResult" where
  "diff a b =
     (let a_keys = set (map record_key (b_index a)); b_keys = set (map record_key (b_index b));
          differs = (\<lambda>kd. entry_data a kd \<noteq> entry_data b kd)
      in \<lparr>dr_a_entry_count = length (b_index a),
          dr_b_entry_count = length (b_index b),
          dr_a_epochs = map cs_epoch (mf_ca_scopes (b_manifest a)),
          dr_b_epochs = map cs_epoch (mf_ca_scopes (b_manifest b)),
          dr_added = b_keys - a_keys,
          dr_removed = a_keys - b_keys,
          dr_changed = {kd \<in> a_keys \<inter> b_keys. differs kd},
          dr_unchanged = card {kd \<in> a_keys \<inter> b_keys. \<not> differs kd}\<rparr>)"

section \<open>Applying deltas\<close>

record DeltaStat =
  ds_added :: nat
  ds_replaced :: nat
  ds_removed :: nat
  ds_chain_length_warning :: bool

record ApplyResult =
  ar_bytes :: bytes
  ar_entry_count :: nat
  ar_final_epoch :: u64
  ar_deltas :: "DeltaStat list"

definition MAX_CHAIN_LENGTH :: u64 where
  "MAX_CHAIN_LENGTH = 24"

type_synonym retained = "bytes \<times> u16 \<times> Window"
type_synonym working_set = "(EntryRef, retained) btree"

definition base_working_set :: "Bundle \<Rightarrow> working_set" where
  "base_working_set base =
     fold (\<lambda>record ws.
       case entry_bytes base record of
         Some data \<Rightarrow> bt_insert (record_key record) (data, ir_flags record, mf_window (b_manifest base)) ws
       | None \<Rightarrow> ws) (b_index base) []"

record apply_state =
  as_working_set :: working_set
  as_prev_manifest_digest :: bytes
  as_max_epoch :: u64
  as_stats :: "DeltaStat list"

record record_counts =
  rc_added :: nat
  rc_replaced :: nat
  rc_removed :: nat

definition apply_record :: "Bundle \<Rightarrow> IndexRecord \<Rightarrow> working_set \<times> record_counts \<Rightarrow> working_set \<times> record_counts" where
  "apply_record delta record st =
     (let (ws, n) = st; key = record_key record in
      if flags_contain (ir_flags record) TOMBSTONE
      then (bt_remove key ws,
            if bt_get ws key \<noteq> None then n\<lparr>rc_removed := rc_removed n + 1\<rparr> else n)
      else case entry_bytes delta record of
             Some data \<Rightarrow>
               (bt_insert key (data, ir_flags record, mf_window (b_manifest delta)) ws,
                if bt_get ws key \<noteq> None then n\<lparr>rc_replaced := rc_replaced n + 1\<rparr>
                else n\<lparr>rc_added := rc_added n + 1\<rparr>)
           | None \<Rightarrow> (ws, n))"

definition scope_keys :: "Bundle \<Rightarrow> (bytes \<times> bytes \<times> bytes) set" where
  "scope_keys b =
     set (map (\<lambda>s. (cs_hash_algorithm s, cs_issuer_name_hash s, cs_issuer_key_hash s)) (mf_ca_scopes (b_manifest b)))"

definition apply_delta :: "externals \<Rightarrow> Bundle \<Rightarrow> bytes \<Rightarrow> nat \<Rightarrow> Bundle \<Rightarrow> apply_state \<Rightarrow> ahu_error + apply_state" where
  "apply_delta E base base_manifest_digest i delta st =
     (let m = b_manifest delta; who = ''delta '' @ show_nat (i + 1) in
      if mf_bundle_type m \<noteq> DeltaBundle
      then Inl (InvalidOperation (who @ '' is a full bundle, expected a delta''))
      else bindR (verify_structure E delta) (\<lambda>_.
      if co_base_manifest_digest (mf_continuity m) \<noteq> Some base_manifest_digest
      then Inl (InvalidOperation (who @ '' base_manifest_digest does not match base bundle''))
      else if mf_producer_id m \<noteq> mf_producer_id (b_manifest base) \<or> scope_keys delta \<noteq> scope_keys base
      then Inl (InvalidOperation (who @ '' producer/CA scopes do not match base''))
      else
      bindR (case co_prev_manifest_digest (mf_continuity m) of
               Some prev_digest \<Rightarrow>
                 if prev_digest \<noteq> as_prev_manifest_digest st
                 then Inl (InvalidOperation
                   (who @ '' prev_manifest_digest chain broken (expected ''
                    @ hex_encode E (as_prev_manifest_digest st) @ '', got ''
                    @ hex_encode E prev_digest @ '')''))
                 else Inr ()
             | None \<Rightarrow> Inr ()) (\<lambda>_.
      let (ws, n) = fold (apply_record delta) (b_index delta)
                      (as_working_set st, \<lparr>rc_added = 0, rc_replaced = 0, rc_removed = 0\<rparr>)
      in Inr \<lparr>as_working_set = ws,
              as_prev_manifest_digest = manifest_digest E (b_manifest_bytes delta),
              as_max_epoch = fold (\<lambda>s e. max e (cs_epoch s)) (mf_ca_scopes m) (as_max_epoch st),
              as_stats = as_stats st @
                [\<lparr>ds_added = rc_added n, ds_replaced = rc_replaced n, ds_removed = rc_removed n,
                  ds_chain_length_warning = co_chain_length (mf_continuity m) > MAX_CHAIN_LENGTH\<rparr>]\<rparr>)))"

fun apply_deltas :: "externals \<Rightarrow> Bundle \<Rightarrow> bytes \<Rightarrow> nat \<Rightarrow> Bundle list \<Rightarrow> apply_state \<Rightarrow> ahu_error + apply_state" where
  "apply_deltas E base digest i [] st = Inr st"
| "apply_deltas E base digest i (delta # deltas) st =
     bindR (apply_delta E base digest i delta st) (apply_deltas E base digest (i + 1) deltas)"

text \<open>The manifest of the result: window and epochs from what is retained.\<close>

definition merge_windows :: "Window list \<Rightarrow> ahu_error + Window" where
  "merge_windows windows =
     (if \<exists>w \<in> set windows. w_this_update_min w > w_next_update_min w \<or> w_next_update_min w > w_next_update_max w
      then Inl (InvalidOperation ''inconsistent source validity window'')
      else
        (let this_update_min = Min (w_this_update_min ` set windows);
             produced_at = Max (w_produced_at ` set windows);
             expires = Min (w_next_update_min ` set windows)
         in if produced_at \<ge> expires
            then Inl (InvalidOperation ''retained response validity windows do not overlap'')
            else Inr \<lparr>w_produced_at = produced_at, w_this_update_min = this_update_min,
                      w_next_update_min = expires, w_next_update_max = expires\<rparr>))"

definition merge_window :: "working_set \<Rightarrow> Window \<Rightarrow> ahu_error + Window" where
  "merge_window ws window =
     (if ws = [] then Inr window else merge_windows (map (\<lambda>(_, _, _, w). w) ws))"

definition materialised_manifest :: "Manifest \<Rightarrow> bytes \<Rightarrow> u64 \<Rightarrow> Window \<Rightarrow> Manifest" where
  "materialised_manifest m prev_manifest_digest final_epoch window =
     m\<lparr>mf_bundle_type := FullBundle,
       mf_continuity := \<lparr>co_prev_manifest_digest = Some prev_manifest_digest,
                         co_base_manifest_digest = None, co_chain_length = 0\<rparr>,
       mf_ca_scopes := map (\<lambda>s. s\<lparr>cs_epoch := final_epoch\<rparr>) (mf_ca_scopes m),
       mf_window := window\<rparr>"

definition working_set_builder :: "working_set \<Rightarrow> Manifest \<Rightarrow> BundleBuilder" where
  "working_set_builder ws m =
     fold (\<lambda>((entry_key, disc), (data, _, _)). add_entry_with_discriminator entry_key disc data) ws (builder_new m)"

definition max_scope_epoch :: "Manifest \<Rightarrow> u64" where
  "max_scope_epoch m = (if mf_ca_scopes m = [] then 0 else Max (set (map cs_epoch (mf_ca_scopes m))))"

text \<open>
  Everything \<^verbatim>\<open>apply_sealed\<close> does before it calls the builder, and then the call.
\<close>

record ApplyPlan =
  ap_builder :: BundleBuilder
  ap_entry_count :: nat
  ap_final_epoch :: u64
  ap_deltas :: "DeltaStat list"

definition plan_apply :: "externals \<Rightarrow> Bundle \<Rightarrow> Bundle list \<Rightarrow> ahu_error + ApplyPlan" where
  "plan_apply E base deltas =
     bindR (verify_structure E base) (\<lambda>_.
     if mf_bundle_type (b_manifest base) \<noteq> FullBundle
     then Inl (InvalidOperation ''base bundle must be a full bundle, not a delta'')
     else
     (let base_manifest_digest = manifest_digest E (b_manifest_bytes base) in
      bindR (apply_deltas E base base_manifest_digest 0 deltas
               \<lparr>as_working_set = base_working_set base,
                as_prev_manifest_digest = base_manifest_digest,
                as_max_epoch = max_scope_epoch (b_manifest base),
                as_stats = []\<rparr>) (\<lambda>st.
      bindR (ok_orR (InvalidOperation ''epoch exhausted'') (checked_add_u64 (as_max_epoch st) 1)) (\<lambda>final_epoch.
      bindR (merge_window (as_working_set st) (mf_window (b_manifest base))) (\<lambda>window.
      let manifest = materialised_manifest (b_manifest base) (as_prev_manifest_digest st) final_epoch window in
      Inr \<lparr>ap_builder = working_set_builder (as_working_set st) manifest,
           ap_entry_count = length (as_working_set st),
           ap_final_epoch = final_epoch, ap_deltas = as_stats st\<rparr>)))))"

definition apply_sealed ::
    "externals \<Rightarrow> Bundle \<Rightarrow> Bundle list \<Rightarrow> (bytes \<Rightarrow> ahu_error + bytes) \<Rightarrow> ahu_error + ApplyResult" where
  "apply_sealed E base deltas seal_fn =
     bindR (plan_apply E base deltas) (\<lambda>plan.
     bindR (build E seal_fn (ap_builder plan)) (\<lambda>bytes.
     Inr \<lparr>ar_bytes = bytes, ar_entry_count = ap_entry_count plan,
          ar_final_epoch = ap_final_epoch plan, ar_deltas = ap_deltas plan\<rparr>))"

definition apply_chain :: "externals \<Rightarrow> Bundle \<Rightarrow> Bundle list \<Rightarrow> ahu_error + ApplyResult" where
  "apply_chain E base deltas = apply_sealed E base deltas (\<lambda>_. Inr [])"

section \<open>The diff\<close>

lemma entry_data_bundle_map:
  "sorted_index (b_index b) \<Longrightarrow> entry_data b kd = opt_join (bundle_map b kd)"
  by (cases kd) (simp add: entry_data_def search_entry_bundle_map)

lemma diff_bundle_map:
  assumes "sorted_index (b_index a)" and "sorted_index (b_index b)"
  shows "dr_added (diff a b) = dom (bundle_map b) - dom (bundle_map a)"
    and "dr_removed (diff a b) = dom (bundle_map a) - dom (bundle_map b)"
    and "dr_changed (diff a b) = {kd \<in> dom (bundle_map a) \<inter> dom (bundle_map b). bundle_map a kd \<noteq> bundle_map b kd}"
proof -
  show "dr_added (diff a b) = dom (bundle_map b) - dom (bundle_map a)"
    "dr_removed (diff a b) = dom (bundle_map a) - dom (bundle_map b)"
    by (simp_all add: diff_def Let_def dom_bundle_map)
  have "entry_data a kd \<noteq> entry_data b kd \<longleftrightarrow> bundle_map a kd \<noteq> bundle_map b kd"
    if "kd \<in> dom (bundle_map a) \<inter> dom (bundle_map b)" for kd
    using that by (auto simp: entry_data_bundle_map assms opt_join_def)
  then show "dr_changed (diff a b)
      = {kd \<in> dom (bundle_map a) \<inter> dom (bundle_map b). bundle_map a kd \<noteq> bundle_map b kd}"
    by (auto simp: diff_def Let_def dom_bundle_map)
qed

lemma map_difference_empty:
  "dom n - dom m = {} \<and> dom m - dom n = {} \<and> {k \<in> dom m \<inter> dom n. m k \<noteq> n k} = {} \<longleftrightarrow> m = n"
proof (intro iffI ext)
  fix k
  assume *: "dom n - dom m = {} \<and> dom m - dom n = {} \<and> {k \<in> dom m \<inter> dom n. m k \<noteq> n k} = {}"
  then have "k \<in> dom m \<longleftrightarrow> k \<in> dom n" by blast
  with * show "m k = n k" by (cases "k \<in> dom m") (blast, simp add: domIff)
qed simp

lemma diff_unchanged:
  "dr_unchanged (diff a b) + card (dr_changed (diff a b))
     = card (record_key ` set (b_index a) \<inter> record_key ` set (b_index b))"
proof -
  let ?C = "record_key ` set (b_index a) \<inter> record_key ` set (b_index b)"
  let ?D = "\<lambda>kd. entry_data a kd \<noteq> entry_data b kd"
  have "card ?C = card {kd \<in> ?C. \<not> ?D kd} + card {kd \<in> ?C. ?D kd}"
    by (subst card_Un_disjoint [symmetric]) (auto intro: arg_cong [where f = card])
  then show ?thesis by (simp add: diff_def Let_def)
qed

section \<open>The working set as a map\<close>

text \<open>What applying a delta means: its keys override those before, a tombstone removes.\<close>

definition apply_map :: "(EntryRef \<Rightarrow> bytes option) \<Rightarrow> Bundle \<Rightarrow> EntryRef \<Rightarrow> bytes option" where
  "apply_map m delta kd = (case bundle_map delta kd of None \<Rightarrow> m kd | Some v \<Rightarrow> v)"

definition materialised :: "Bundle \<Rightarrow> Bundle list \<Rightarrow> EntryRef \<Rightarrow> bytes option" where
  "materialised base deltas = foldl apply_map (\<lambda>kd. opt_join (bundle_map base kd)) deltas"

definition ws_map :: "working_set \<Rightarrow> EntryRef \<Rightarrow> bytes option" where
  "ws_map ws kd = map_option fst (bt_get ws kd)"

definition record_updates :: "Bundle \<Rightarrow> (EntryRef, retained) update list" where
  "record_updates b =
     map (\<lambda>r. (record_key r, map_option (\<lambda>data. (data, ir_flags r, mf_window (b_manifest b))) (entry_bytes b r)))
       (b_index b)"

abbreviation bt_updates :: "(EntryRef, retained) update list \<Rightarrow> working_set \<Rightarrow> working_set" where
  "bt_updates \<equiv> fold (\<lambda>(k, u). case u of None \<Rightarrow> bt_remove k | Some v \<Rightarrow> bt_insert k v)"

lemma entry_bytes_tombstone [simp]: "is_tombstone r \<Longrightarrow> entry_bytes b r = None"
  by (simp add: entry_bytes_def)

lemma apply_record_updates:
  assumes "\<forall>r \<in> set rs. is_tombstone r \<or> entry_bytes d r \<noteq> None"
  shows "fst (fold (apply_record d) rs st) =
    bt_updates (map (\<lambda>r. (record_key r, map_option (\<lambda>data. (data, ir_flags r, mf_window (b_manifest d))) (entry_bytes d r))) rs) (fst st)"
  using assms
proof (induction rs arbitrary: st)
  case (Cons r rs)
  have "fst (apply_record d r st) = (case entry_bytes d r of
      None \<Rightarrow> bt_remove (record_key r) (fst st)
    | Some data \<Rightarrow> bt_insert (record_key r) (data, ir_flags r, mf_window (b_manifest d)) (fst st))"
    using Cons.prems
    by (cases "is_tombstone r")
      (auto simp: apply_record_def Let_def case_prod_beta simp flip: is_tombstone_def split: option.split)
  then show ?case using Cons by (simp split: option.split)
qed simp

lemma overlay_record_updates:
  assumes "sorted_index (b_index d)"
  shows "map_option fst (overlay m (record_updates d) kd) = apply_map (\<lambda>kd. map_option fst (m kd)) d kd"
proof -
  let ?f = "\<lambda>r. map_option (\<lambda>data. (data, ir_flags r, mf_window (b_manifest d))) (entry_bytes d r)"
  let ?us = "map (\<lambda>r. (record_key r, r)) (b_index d)"
  have dist: "distinct (map fst (record_updates d))"
    using sorted_index_distinct [OF assms] by (simp add: record_updates_def comp_def)
  have "map_of (rev (record_updates d)) kd = map_of (record_updates d) kd"
    using dist by (metis map_of_inject_set distinct_rev rev_map set_rev)
  also have "\<dots> = map_option ?f (index_map (b_index d) kd)"
    using fun_cong [OF map_of_map [of ?f ?us], of kd]
    by (simp add: record_updates_def index_map_def comp_def)
  finally show ?thesis
    by (auto simp: overlay_def apply_map_def bundle_map_def option.map_comp comp_def option.map_ident
        split: option.split)
qed

lemma bt_updates_map:
  assumes "bt_inv ws" and "sorted_index (b_index d)"
  shows "bt_inv (bt_updates (record_updates d) ws)"
    and "ws_map (bt_updates (record_updates d) ws) = apply_map (ws_map ws) d"
  using bt.updates_overlay [OF assms(1), of "record_updates d"] overlay_record_updates [OF assms(2)]
  by (simp_all add: ws_map_def [abs_def])

definition base_step :: "Bundle \<Rightarrow> IndexRecord \<Rightarrow> working_set \<Rightarrow> working_set" where
  "base_step base r ws =
     (case entry_bytes base r of
        Some data \<Rightarrow> bt_insert (record_key r) (data, ir_flags r, mf_window (b_manifest base)) ws
      | None \<Rightarrow> ws)"

lemma base_step_map:
  assumes "bt_inv ws" and "ws_map ws (record_key r) = None"
  shows "bt_inv (base_step base r ws)"
    and "ws_map (base_step base r ws) kd = (if kd = record_key r then entry_bytes base r else ws_map ws kd)"
  using assms by (auto simp: base_step_def ws_map_def bt_get_insert bt_inv_insert split: option.split)

lemma base_fold_map:
  assumes "bt_inv ws" and "distinct (map record_key rs)" and "\<forall>kd \<in> record_key ` set rs. ws_map ws kd = None"
  shows "bt_inv (fold (base_step base) rs ws) \<and>
    (\<forall>kd. ws_map (fold (base_step base) rs ws) kd =
       (case map_of (map (\<lambda>r. (record_key r, entry_bytes base r)) rs) kd of None \<Rightarrow> ws_map ws kd | Some v \<Rightarrow> v))"
  using assms
proof (induction rs arbitrary: ws)
  case (Cons r rs)
  have fresh: "map_of (map (\<lambda>r. (record_key r, entry_bytes base r)) rs) (record_key r) = None"
    using Cons.prems(2) by (simp add: map_of_eq_None_iff image_image)
  note step = base_step_map [OF Cons.prems(1), of r base]
  have "\<forall>kd \<in> record_key ` set rs. ws_map (base_step base r ws) kd = None"
    using Cons.prems(2,3) step(2) by (auto split: if_splits) (metis imageI)
  then have "bt_inv (fold (base_step base) (r # rs) ws) \<and>
    (\<forall>kd. ws_map (fold (base_step base) (r # rs) ws) kd =
       (case map_of (map (\<lambda>r. (record_key r, entry_bytes base r)) rs) kd of
          None \<Rightarrow> ws_map (base_step base r ws) kd | Some v \<Rightarrow> v))"
    using Cons.IH [of "base_step base r ws"] step(1) Cons.prems(2,3) by simp
  then show ?case
    using fresh step(2) Cons.prems(3) by (simp cong: option.case_cong)
qed simp

lemma base_working_set_map:
  assumes "sorted_index (b_index base)"
  shows "bt_inv (base_working_set base)"
    and "ws_map (base_working_set base) = (\<lambda>kd. opt_join (bundle_map base kd))"
proof -
  have m: "map_of (map (\<lambda>r. (record_key r, entry_bytes base r)) (b_index base)) kd = bundle_map base kd" for kd
    using fun_cong [OF map_of_map [of "entry_bytes base" "map (\<lambda>r. (record_key r, r)) (b_index base)"], of kd]
    by (simp add: bundle_map_def index_map_def comp_def)
  have eq: "base_working_set base = fold (base_step base) (b_index base) []"
    by (simp add: base_working_set_def base_step_def [abs_def])
  have empty: "ws_map [] kd = None" for kd by (simp add: ws_map_def bt_get_def)
  have *: "bt_inv (fold (base_step base) (b_index base) []) \<and>
      (\<forall>kd. ws_map (fold (base_step base) (b_index base) []) kd =
         (case bundle_map base kd of None \<Rightarrow> ws_map [] kd | Some v \<Rightarrow> v))"
    by (rule base_fold_map [OF bt.inv_empty sorted_index_distinct [OF assms], of base, unfolded m])
      (simp add: empty)
  then show "bt_inv (base_working_set base)" using eq by simp
  from * have "ws_map (fold (base_step base) (b_index base) []) kd = opt_join (bundle_map base kd)" for kd
    by (cases kd) (simp add: empty opt_join_def cong: option.case_cong)
  then show "ws_map (base_working_set base) = (\<lambda>kd. opt_join (bundle_map base kd))"
    using eq by auto
qed

section \<open>What an applied chain satisfies\<close>

text \<open>What each delta of an accepted chain was checked for, given the digest before it.\<close>

definition delta_accepted :: "externals \<Rightarrow> Bundle \<Rightarrow> bytes \<Rightarrow> Bundle \<Rightarrow> bool" where
  "delta_accepted E base prev d \<longleftrightarrow>
     structurally_sound E d \<and>
     mf_bundle_type (b_manifest d) = DeltaBundle \<and>
     co_base_manifest_digest (mf_continuity (b_manifest d)) = Some (manifest_digest E (b_manifest_bytes base)) \<and>
     mf_producer_id (b_manifest d) = mf_producer_id (b_manifest base) \<and>
     scope_keys d = scope_keys base \<and>
     (\<forall>p. co_prev_manifest_digest (mf_continuity (b_manifest d)) = Some p \<longrightarrow> p = prev)"

fun chain_accepted :: "externals \<Rightarrow> Bundle \<Rightarrow> bytes \<Rightarrow> Bundle list \<Rightarrow> bool" where
  "chain_accepted E base prev [] \<longleftrightarrow> True"
| "chain_accepted E base prev (d # ds) \<longleftrightarrow>
     delta_accepted E base prev d \<and> chain_accepted E base (manifest_digest E (b_manifest_bytes d)) ds"

lemma apply_delta_Inr:
  assumes "apply_delta E base (manifest_digest E (b_manifest_bytes base)) i d st = Inr st'"
  shows "delta_accepted E base (as_prev_manifest_digest st) d"
    and "as_working_set st' = fst (fold (apply_record d) (b_index d)
           (as_working_set st, \<lparr>rc_added = 0, rc_replaced = 0, rc_removed = 0\<rparr>))"
    and "as_prev_manifest_digest st' = manifest_digest E (b_manifest_bytes d)"
    and "as_max_epoch st' = fold (\<lambda>s e. max e (cs_epoch s)) (mf_ca_scopes (b_manifest d)) (as_max_epoch st)"
  using assms
  by (auto simp: apply_delta_def delta_accepted_def Let_def bindR_eq_Inr case_prod_beta
      dest: verify_structure_sound split: if_splits option.splits)

lemma fold_max_ge: "(e :: u64) \<le> e' \<Longrightarrow> e \<le> fold (\<lambda>s e. max e (f s)) xs e'"
  by (induction xs arbitrary: e') (simp_all add: le_max_iff_disj)

lemma fold_max_mem: "x \<in> set xs \<Longrightarrow> (f x :: u64) \<le> fold (\<lambda>s e. max e (f s)) xs e"
  by (induction xs arbitrary: e) (auto intro: fold_max_ge)

lemma apply_deltas_prev:
  "apply_deltas E base (manifest_digest E (b_manifest_bytes base)) i ds st = Inr st' \<Longrightarrow>
   as_prev_manifest_digest st' =
     (if ds = [] then as_prev_manifest_digest st else manifest_digest E (b_manifest_bytes (last ds)))"
proof (induction ds arbitrary: i st)
  case (Cons d ds)
  then obtain st1 where "apply_delta E base (manifest_digest E (b_manifest_bytes base)) i d st = Inr st1"
    and "apply_deltas E base (manifest_digest E (b_manifest_bytes base)) (i + 1) ds st1 = Inr st'"
    by (auto simp: bindR_eq_Inr)
  then show ?case using Cons.IH [of "i + 1" st1] apply_delta_Inr(3) by simp
qed simp

lemma sound_delta_map:
  assumes "structurally_sound E d" and "bt_inv (fst st)"
  shows "bt_inv (fst (fold (apply_record d) (b_index d) st))"
    and "ws_map (fst (fold (apply_record d) (b_index d) st)) = apply_map (ws_map (fst st)) d"
proof -
  have "sorted_index (b_index d)" and rs: "\<forall>r \<in> set (b_index d). is_tombstone r \<or> entry_bytes d r \<noteq> None"
    using assms(1) by (simp_all add: structurally_sound_def)
  with bt_updates_map [OF assms(2)] apply_record_updates [OF rs, of st]
  show "bt_inv (fst (fold (apply_record d) (b_index d) st))"
    "ws_map (fst (fold (apply_record d) (b_index d) st)) = apply_map (ws_map (fst st)) d"
    by (simp_all add: record_updates_def)
qed

lemma apply_deltas_Inr:
  assumes "apply_deltas E base (manifest_digest E (b_manifest_bytes base)) i ds st = Inr st'"
    and "bt_inv (as_working_set st)"
  shows "chain_accepted E base (as_prev_manifest_digest st) ds \<and>
    bt_inv (as_working_set st') \<and>
    ws_map (as_working_set st') = foldl apply_map (ws_map (as_working_set st)) ds \<and>
    as_max_epoch st \<le> as_max_epoch st' \<and>
    (\<forall>d \<in> set ds. \<forall>s \<in> set (mf_ca_scopes (b_manifest d)). cs_epoch s \<le> as_max_epoch st')"
  using assms
proof (induction ds arbitrary: i st)
  case (Cons d ds)
  then obtain st1 where st1: "apply_delta E base (manifest_digest E (b_manifest_bytes base)) i d st = Inr st1"
    and rest: "apply_deltas E base (manifest_digest E (b_manifest_bytes base)) (i + 1) ds st1 = Inr st'"
    by (auto simp: bindR_eq_Inr)
  note step = apply_delta_Inr [OF st1]
  have sound: "structurally_sound E d" using step(1) by (simp add: delta_accepted_def)
  have ws: "bt_inv (as_working_set st1)" "ws_map (as_working_set st1) = apply_map (ws_map (as_working_set st)) d"
    using sound_delta_map [OF sound] Cons.prems(2) step(2) by simp_all
  have "as_max_epoch st \<le> as_max_epoch st1"
    "\<forall>s \<in> set (mf_ca_scopes (b_manifest d)). cs_epoch s \<le> as_max_epoch st1"
    using step(4) by (auto intro: fold_max_ge fold_max_mem)
  then show ?case
    using Cons.IH [OF rest ws(1)] step(1,3) ws(2) by (auto intro: order_trans)
qed simp

section \<open>The materialised bundle\<close>

lemma working_set_builder_simps:
  "bb_manifest (working_set_builder ws m) = m"
  "bb_entries (working_set_builder ws m) =
     map (\<lambda>e. (\<lparr>ir_entry_key = fst (fst e), ir_data_offset = 0, ir_data_length = len_u32 (fst (snd e)),
                 ir_flags = 0, ir_discriminator = snd (fst e)\<rparr>, fst (snd e))) ws"
proof -
  let ?f = "\<lambda>((entry_key, disc), (data, _, _)). add_entry_with_discriminator entry_key disc data"
  let ?g = "\<lambda>e. (\<lparr>ir_entry_key = fst (fst e), ir_data_offset = 0, ir_data_length = len_u32 (fst (snd e)),
                 ir_flags = 0, ir_discriminator = snd (fst e)\<rparr>, fst (snd e))"
  have "bb_manifest (fold ?f ws b) = bb_manifest b \<and> bb_entries (fold ?f ws b) = bb_entries b @ map ?g ws" for b
  proof (induction ws arbitrary: b)
    case (Cons e ws)
    obtain k d p rest where "e = ((k, d), p, rest)" by (metis surj_pair)
    then show ?case
      using Cons [of "?f e b"] by (simp add: add_entry_with_discriminator_def push_entry_def)
  qed simp
  from this [of "builder_new m"] show "bb_manifest (working_set_builder ws m) = m"
    "bb_entries (working_set_builder ws m) = map ?g ws"
    by (simp_all add: working_set_builder_def builder_new_def)
qed

lemma plain_flags [simp]: "\<not> flags_contain 0 TOMBSTONE" "\<not> flags_contain 0 ALIAS" "from_bits_truncate 0 = 0"
  by (simp_all add: flags_contain_def TOMBSTONE_def ALIAS_def from_bits_truncate_def)

lemma working_set_entry_map:
  "entry_map (bb_entries (working_set_builder ws m)) kd = map_option Some (ws_map ws kd)"
proof -
  have "entry_map (bb_entries (working_set_builder ws m)) = map_of (map (\<lambda>e. (fst e, Some (fst (snd e)))) ws)"
    unfolding entry_map_def working_set_builder_simps
    by (simp add: comp_def record_key_def is_tombstone_def)
  moreover have "map_of (map (\<lambda>e. (fst e, Some (fst (snd e)))) ws) kd = map_option Some (ws_map ws kd)"
    unfolding ws_map_def bt_get_def by (induction ws) auto
  ultimately show ?thesis by simp
qed

text \<open>Every retained payload comes out of the base or one of the deltas.\<close>

lemma materialised_source:
  "materialised base deltas kd = Some p \<Longrightarrow> \<exists>b \<in> set (base # deltas). bundle_map b kd = Some (Some p)"
proof (induction deltas rule: rev_induct)
  case Nil
  then show ?case by (auto simp: materialised_def opt_join_def split: option.splits)
next
  case (snoc d ds)
  then show ?case
    by (auto simp: materialised_def apply_map_def split: option.splits)
qed

lemma bundle_map_payload:
  assumes "bundle_map b kd = Some (Some p)" and "list_all wf_record (b_index b)"
  shows "length (fst kd) = 32" and "length p < 2 ^ 32"
proof -
  obtain r where r: "index_map (b_index b) kd = Some r" "entry_bytes b r = Some p"
    using assms(1) by (auto simp: bundle_map_def)
  then have "r \<in> set (b_index b)" "kd = record_key r"
    by (auto simp: index_map_def dest: map_of_SomeD)
  then show "length (fst kd) = 32"
    using assms(2) by (auto simp: list_all_iff wf_record_def record_key_def)
  have "length p = unat (ir_data_length r)"
    using r(2) by (auto simp: entry_bytes_def checked_add_usize_def slice_get_Some
        split: if_splits bind_splits)
  then show "length p < 2 ^ 32" using unat_u32_bound [of "ir_data_length r"] by simp
qed

lemma wf_working_set_builder:
  assumes "bt_inv ws" and "ws_map ws = materialised base deltas" and "wf_manifest m"
    and "\<forall>b \<in> set (base # deltas). list_all wf_record (b_index b)"
  shows "wf_builder E (working_set_builder ws m)"
proof -
  have keys: "length (fst kd) = 32 \<and> length p < 2 ^ 32" if "(kd, p, x) \<in> set ws" for kd p x
  proof -
    have "bt_get ws kd = Some (p, x)" using that bt.entries_iff [OF assms(1)] by blast
    then have "materialised base deltas kd = Some p"
      using assms(2) by (metis ws_map_def option.simps(9) fst_conv)
    then show ?thesis
      using materialised_source [of base deltas kd p] bundle_map_payload [of _ kd p] assms(4) by blast
  qed
  have "distinct (map fst ws)"
    using bt.distinct_entries [OF assms(1)] .
  moreover have "alias_payloads (bb_entries (working_set_builder ws m)) = {}"
    by (auto simp: alias_payloads_def working_set_builder_simps is_alias_def)
  ultimately show ?thesis
    using keys assms(3)
    by (auto simp: wf_builder_def working_set_builder_simps wf_record_def comp_def record_key_def)
qed

lemma plan_apply_Inr:
  assumes "plan_apply E base deltas = Inr plan"
  shows "\<exists>ws window epoch.
    structurally_sound E base \<and> mf_bundle_type (b_manifest base) = FullBundle \<and>
    chain_accepted E base (manifest_digest E (b_manifest_bytes base)) deltas \<and>
    bt_inv ws \<and> ws_map ws = materialised base deltas \<and>
    (\<forall>b \<in> set (base # deltas). \<forall>s \<in> set (mf_ca_scopes (b_manifest b)). cs_epoch s \<le> epoch) \<and>
    unat (ap_final_epoch plan) = unat epoch + 1 \<and>
    merge_window ws (mf_window (b_manifest base)) = Inr window \<and>
    ap_builder plan = working_set_builder ws (materialised_manifest (b_manifest base)
      (manifest_digest E (b_manifest_bytes (last (base # deltas)))) (ap_final_epoch plan) window)"
proof -
  let ?digest = "manifest_digest E (b_manifest_bytes base)"
  let ?st0 = "\<lparr>as_working_set = base_working_set base, as_prev_manifest_digest = ?digest,
      as_max_epoch = max_scope_epoch (b_manifest base), as_stats = []\<rparr>"
  from assms obtain st window where sound: "structurally_sound E base"
    and full: "mf_bundle_type (b_manifest base) = FullBundle"
    and chain: "apply_deltas E base ?digest 0 deltas ?st0 = Inr st"
    and epoch: "checked_add_u64 (as_max_epoch st) 1 = Some (ap_final_epoch plan)"
    and window: "merge_window (as_working_set st) (mf_window (b_manifest base)) = Inr window"
    and builder: "ap_builder plan = working_set_builder (as_working_set st)
      (materialised_manifest (b_manifest base) (as_prev_manifest_digest st) (ap_final_epoch plan) window)"
    by (auto simp: plan_apply_def Let_def bindR_eq_Inr ok_orR_eq_Inr
        dest!: verify_structure_sound split: if_splits)
  have "sorted_index (b_index base)" using sound by (simp add: structurally_sound_def)
  note base_ws = base_working_set_map [OF this]
  have st: "chain_accepted E base ?digest deltas" "bt_inv (as_working_set st)"
    "ws_map (as_working_set st) = materialised base deltas" "max_scope_epoch (b_manifest base) \<le> as_max_epoch st"
    "\<forall>d \<in> set deltas. \<forall>s \<in> set (mf_ca_scopes (b_manifest d)). cs_epoch s \<le> as_max_epoch st"
    using apply_deltas_Inr [OF chain] base_ws by (simp_all add: materialised_def)
  have "cs_epoch s \<le> as_max_epoch st" if "s \<in> set (mf_ca_scopes (b_manifest base))" for s
    using that st(4) by (auto simp: max_scope_epoch_def split: if_splits)
  then have "\<forall>b \<in> set (base # deltas). \<forall>s \<in> set (mf_ca_scopes (b_manifest b)). cs_epoch s \<le> as_max_epoch st"
    using st(5) by auto
  moreover have "as_prev_manifest_digest st = manifest_digest E (b_manifest_bytes (last (base # deltas)))"
    using apply_deltas_prev [OF chain] by simp
  moreover have "unat (ap_final_epoch plan) = unat (as_max_epoch st) + 1"
    using checked_add_u64_unat [OF epoch] by simp
  ultimately show ?thesis
    using sound full st(1-3) window builder
    by (intro exI [of _ "as_working_set st"] exI [of _ window] exI [of _ "as_max_epoch st"] conjI) simp_all
qed

text \<open>
  The window of the result covers no more than each retained response's own window.
\<close>

lemma merge_windows_conservative:
  assumes "merge_windows vs = Inr w" and "v \<in> set vs"
  shows "w_produced_at v \<le> w_produced_at w" and "w_next_update_max w \<le> w_next_update_min v"
    and "w_produced_at w < w_next_update_max w" and "w_next_update_min w = w_next_update_max w"
    and "w_this_update_min w \<le> w_this_update_min v"
proof -
  have w: "w = \<lparr>w_produced_at = Max (w_produced_at ` set vs), w_this_update_min = Min (w_this_update_min ` set vs),
      w_next_update_min = Min (w_next_update_min ` set vs), w_next_update_max = Min (w_next_update_min ` set vs)\<rparr>"
    and lt: "Max (w_produced_at ` set vs) < Min (w_next_update_min ` set vs)"
    using assms(1) by (simp_all add: merge_windows_def Let_def not_le split: if_splits)
  show "w_produced_at v \<le> w_produced_at w" "w_next_update_max w \<le> w_next_update_min v"
    "w_this_update_min w \<le> w_this_update_min v"
    using assms(2) by (simp_all add: w)
  show "w_produced_at w < w_next_update_max w" "w_next_update_min w = w_next_update_max w"
    using lt by (simp_all add: w)
qed

lemma materialised_manifest_simps [simp]:
  "mf_bundle_type (materialised_manifest m d e w) = FullBundle"
  "mf_window (materialised_manifest m d e w) = w"
  "mf_ca_scopes (materialised_manifest m d e w) = map (\<lambda>s. s\<lparr>cs_epoch := e\<rparr>) (mf_ca_scopes m)"
  "mf_continuity (materialised_manifest m d e w) =
     \<lparr>co_prev_manifest_digest = Some d, co_base_manifest_digest = None, co_chain_length = 0\<rparr>"
  "mf_producer_id (materialised_manifest m d e w) = mf_producer_id m"
  by (simp_all add: materialised_manifest_def)

lemma wf_materialised_manifest:
  "wf_manifest m \<Longrightarrow> length d = 32 \<Longrightarrow> wf_manifest (materialised_manifest m d e w)"
  by (simp add: wf_manifest_def materialised_manifest_def opt_digest_def)

lemma plan_apply_builder:
  assumes "plan_apply E base deltas = Inr plan" and "sha256_length E" and "wf_manifest (b_manifest base)"
    and "\<forall>b \<in> set (base # deltas). list_all wf_record (b_index b)"
  shows "wf_builder E (ap_builder plan)"
    and "entry_map (bb_entries (ap_builder plan)) = (\<lambda>kd. map_option Some (materialised base deltas kd))"
    and "mf_bundle_type (bb_manifest (ap_builder plan)) = FullBundle"
proof -
  obtain ws window epoch where "bt_inv ws" and ws: "ws_map ws = materialised base deltas"
    and b: "ap_builder plan = working_set_builder ws (materialised_manifest (b_manifest base)
      (manifest_digest E (b_manifest_bytes (last (base # deltas)))) (ap_final_epoch plan) window)"
    using plan_apply_Inr [OF assms(1)] by blast
  have "wf_manifest (materialised_manifest (b_manifest base)
      (manifest_digest E (b_manifest_bytes (last (base # deltas)))) (ap_final_epoch plan) window)"
    using assms(2,3) by (intro wf_materialised_manifest) (simp_all add: manifest_digest_def sha256_lengthD)
  then show "wf_builder E (ap_builder plan)"
    unfolding b using wf_working_set_builder [OF \<open>bt_inv ws\<close> ws _ assms(4)] by blast
  show "entry_map (bb_entries (ap_builder plan)) = (\<lambda>kd. map_option Some (materialised base deltas kd))"
    using ws by (auto simp: b working_set_entry_map fun_eq_iff)
  show "mf_bundle_type (bb_manifest (ap_builder plan)) = FullBundle"
    by (simp add: b working_set_builder_simps)
qed

end
