(* ===== verification/Ahu_Seal.thy ===== *)
theory Ahu_Seal
  imports Ahu_Error
begin

text \<open>
  CMS seal verification (\<^verbatim>\<open>crates/ahu/src/seal.rs\<close>): the checks on the parsed \<^verbatim>\<open>SignedData\<close>, the
  certificate profile, and trust by explicit pins or by directly issuing anchors. The DER and CMS
  parsers and the signature primitives are third-party; a parsed structure is the record of what
  their accessors return on it, and the functions themselves are the fields of \<open>cms_externals\<close>.
  Object identifiers are their dotted strings.
\<close>

section \<open>Parsed structures\<close>

type_synonym oid = string

record KeyUsage =
  ku_key_cert_sign :: bool
  ku_digital_signature :: bool

record Certificate =
  ct_der :: "string + bytes"
  ct_tbs_der :: "string + bytes"
  ct_issuer :: bytes
  ct_subject :: bytes
  ct_serial_number :: bytes
  ct_not_before :: u64
  ct_not_after :: u64
  ct_extensions :: "oid list option"
  ct_subject_key_identifier :: "string + bytes option"
  ct_key_usage :: "string + KeyUsage option"
  ct_basic_constraints_ca :: "string + bool option"
  ct_signature_algorithm :: "oid \<times> bytes option"
  ct_tbs_signature :: "oid \<times> bytes option"
  ct_signature :: "bytes option"
  ct_spki_algorithm :: oid
  ct_spki_curve :: "oid option"
  ct_public_key :: "bytes option"

datatype SignerIdentifier = IssuerAndSerialNumber bytes bytes | SubjectKeyIdentifier bytes

record Attribute =
  at_oid :: oid
  at_values :: "bytes list"

record SignerInfo =
  si_sid :: SignerIdentifier
  si_digest_alg :: oid
  si_signed_attrs :: "Attribute list option"
  si_signed_attrs_der :: "string + bytes"
  si_signature_algorithm :: oid
  si_signature :: bytes

datatype CertificateChoices = CertificateChoice Certificate | OtherCertificate

record SignedData =
  sd_digest_algorithms :: "oid list"
  sd_econtent_type :: oid
  sd_econtent :: "bytes option"
  sd_certificates :: "CertificateChoices list option"
  sd_signer_infos :: "SignerInfo list"

record ContentInfo =
  ci_content_type :: oid
  ci_signed_data :: "string + SignedData"

record cms_externals =
  content_info_from_der :: "bytes \<Rightarrow> string + ContentInfo"
  certificate_from_der :: "bytes \<Rightarrow> string + Certificate"
  decode_oid :: "bytes \<Rightarrow> oid option"
  decode_octet_string :: "bytes \<Rightarrow> string + bytes"
  display_name :: "bytes \<Rightarrow> string"
  p256_key_error :: "bytes \<Rightarrow> string option"
  p256_signature_error :: "bytes \<Rightarrow> string option"
  p256_verify_prehash :: "bytes \<Rightarrow> bytes \<Rightarrow> bytes \<Rightarrow> bool"
  ml_dsa_key_ok :: "oid \<Rightarrow> bytes \<Rightarrow> bool"
  ml_dsa_signature_ok :: "oid \<Rightarrow> bytes \<Rightarrow> bool"
  ml_dsa_verify :: "oid \<Rightarrow> bytes \<Rightarrow> bytes \<Rightarrow> bytes \<Rightarrow> bool"

record SealVerification =
  sv_signature_valid :: bool
  sv_digest_matches :: bool
  sv_signer_subject :: string
  sv_signer_sha256 :: string

definition ID_SIGNED_DATA :: oid where "ID_SIGNED_DATA = ''1.2.840.113549.1.7.2''"
definition ID_MESSAGE_DIGEST :: oid where "ID_MESSAGE_DIGEST = ''1.2.840.113549.1.9.4''"
definition ID_SHA256 :: oid where "ID_SHA256 = ''2.16.840.1.101.3.4.2.1''"
definition ID_DATA :: oid where "ID_DATA = ''1.2.840.113549.1.7.1''"
definition ID_CONTENT_TYPE :: oid where "ID_CONTENT_TYPE = ''1.2.840.113549.1.9.3''"
definition ID_ECDSA_SHA256_V :: oid where "ID_ECDSA_SHA256_V = ''1.2.840.10045.4.3.2''"
definition ID_ML_DSA_44_V :: oid where "ID_ML_DSA_44_V = ''2.16.840.1.101.3.4.3.17''"
definition ID_ML_DSA_65_V :: oid where "ID_ML_DSA_65_V = ''2.16.840.1.101.3.4.3.18''"
definition ID_ML_DSA_87_V :: oid where "ID_ML_DSA_87_V = ''2.16.840.1.101.3.4.3.19''"
definition ID_EC_PUBLIC_KEY :: oid where "ID_EC_PUBLIC_KEY = ''1.2.840.10045.2.1''"
definition ID_P256 :: oid where "ID_P256 = ''1.2.840.10045.3.1.7''"

section \<open>Signatures\<close>

definition verify_ecdsa_seal :: "externals \<Rightarrow> cms_externals \<Rightarrow> bytes \<Rightarrow> bytes \<Rightarrow> bytes \<Rightarrow> ahu_error + bool" where
  "verify_ecdsa_seal E X attrs_der sig_bytes pub_key_bytes =
     (let attrs_hash = sha256 E attrs_der in
      case p256_key_error X pub_key_bytes of
        Some e \<Rightarrow> Inl (SealInvalid (''parse P-256 public key: '' @ e))
      | None \<Rightarrow>
          (case p256_signature_error X sig_bytes of
             Some e \<Rightarrow> Inl (SealInvalid (''parse ECDSA signature: '' @ e))
           | None \<Rightarrow> Inr (p256_verify_prehash X pub_key_bytes attrs_hash sig_bytes)))"

definition verify_ml_dsa_seal :: "cms_externals \<Rightarrow> oid \<Rightarrow> bytes \<Rightarrow> bytes \<Rightarrow> bytes \<Rightarrow> ahu_error + bool" where
  "verify_ml_dsa_seal X params attrs_der sig_bytes pub_key_bytes =
     (if \<not> ml_dsa_key_ok X params pub_key_bytes then Inl (SealInvalid ''invalid ML-DSA public key size'')
      else if \<not> ml_dsa_signature_ok X params sig_bytes then Inl (SealInvalid ''invalid ML-DSA signature'')
      else Inr (ml_dsa_verify X params pub_key_bytes attrs_der sig_bytes))"

definition verify_bytes ::
    "externals \<Rightarrow> cms_externals \<Rightarrow> bytes \<Rightarrow> bytes \<Rightarrow> oid \<Rightarrow> Certificate \<Rightarrow> ahu_error + bool" where
  "verify_bytes E X bs sig_bytes sig_alg_oid cert =
     bindR (ok_orR (SealInvalid ''no public key bits'') (ct_public_key cert)) (\<lambda>pub_key_bytes.
     if sig_alg_oid = ID_ECDSA_SHA256_V
     then if ct_spki_algorithm cert \<noteq> ID_EC_PUBLIC_KEY \<or> ct_spki_curve cert \<noteq> Some ID_P256
          then Inl (SealInvalid ''expected P-256 key algorithm'')
          else verify_ecdsa_seal E X bs sig_bytes pub_key_bytes
     else if sig_alg_oid \<in> {ID_ML_DSA_44_V, ID_ML_DSA_65_V, ID_ML_DSA_87_V} \<and> ct_spki_algorithm cert = sig_alg_oid
     then verify_ml_dsa_seal X sig_alg_oid bs sig_bytes pub_key_bytes
     else Inl (SealInvalid (''unsupported/mismatched signature algorithm '' @ sig_alg_oid)))"

definition verify_signature :: "externals \<Rightarrow> cms_externals \<Rightarrow> SignerInfo \<Rightarrow> Certificate \<Rightarrow> ahu_error + bool" where
  "verify_signature E X si cert =
     (if si_signed_attrs si = None then Inl (SealInvalid ''no signed attrs for verification'')
      else bindR (map_errR (\<lambda>e. SealInvalid (''encode signed attrs: '' @ e)) (si_signed_attrs_der si)) (\<lambda>attrs_der.
           verify_bytes E X attrs_der (si_signature si) (si_signature_algorithm si) cert))"

section \<open>The seal\<close>

text \<open>The only element of a list of length one.\<close>

definition exactly_one :: "'a list \<Rightarrow> 'a option" where
  "exactly_one xs = (if length xs = 1 then Some (hd xs) else None)"

definition verify_message_digest :: "cms_externals \<Rightarrow> SignerInfo \<Rightarrow> bytes \<Rightarrow> ahu_error + bool" where
  "verify_message_digest X si expected_digest =
     (let err = SealInvalid ''exactly one message-digest value required'' in
      bindR (ok_orR (SealInvalid ''no signed attributes'') (si_signed_attrs si)) (\<lambda>attrs.
      bindR (ok_orR err (exactly_one (filter (\<lambda>a. at_oid a = ID_MESSAGE_DIGEST) attrs))) (\<lambda>a.
      bindR (ok_orR err (exactly_one (at_values a))) (\<lambda>v.
      bindR (map_errR (\<lambda>e. SealInvalid (''invalid digest attribute: '' @ e)) (decode_octet_string X v)) (\<lambda>octet.
      Inr (octet = expected_digest))))))"

definition signer_matches :: "SignerIdentifier \<Rightarrow> Certificate \<Rightarrow> bool" where
  "signer_matches sid cert =
     (case sid of
        IssuerAndSerialNumber issuer serial \<Rightarrow> issuer = ct_issuer cert \<and> serial = ct_serial_number cert
      | SubjectKeyIdentifier ski \<Rightarrow> ct_subject_key_identifier cert = Inr (Some ski))"

fun find_signer :: "SignerIdentifier \<Rightarrow> Certificate option \<Rightarrow> CertificateChoices list \<Rightarrow> ahu_error + Certificate option" where
  "find_signer sid found [] = Inr found"
| "find_signer sid found (OtherCertificate # choices) = find_signer sid found choices"
| "find_signer sid found (CertificateChoice cert # choices) =
     (if signer_matches sid cert
      then if found \<noteq> None then Inl (SealInvalid ''ambiguous signer certificate'')
           else find_signer sid (Some cert) choices
      else find_signer sid found choices)"

definition extract_signer_cert :: "SignedData \<Rightarrow> ahu_error + Certificate" where
  "extract_signer_cert sd =
     (case sd_signer_infos sd of
        [] \<Rightarrow> Inl (SealInvalid ''missing signer'')
      | signer # _ \<Rightarrow>
          bindR (ok_orR (SealInvalid ''missing certificates'') (sd_certificates sd)) (\<lambda>certs.
          bindR (find_signer (si_sid signer) None certs) (\<lambda>found.
          ok_orR (SealInvalid ''signer identifier has no matching certificate'') found)))"

definition content_type_ok :: "cms_externals \<Rightarrow> Attribute list \<Rightarrow> bool" where
  "content_type_ok X attrs =
     (Option.bind (Option.bind (exactly_one (filter (\<lambda>a. at_oid a = ID_CONTENT_TYPE) attrs))
        (\<lambda>a. exactly_one (at_values a))) (decode_oid X) = Some ID_DATA)"

definition parse_signed_data :: "cms_externals \<Rightarrow> bytes \<Rightarrow> ahu_error + SignedData" where
  "parse_signed_data X seal_bytes =
     bindR (map_errR (\<lambda>e. SealInvalid (''parse ContentInfo: '' @ e)) (content_info_from_der X seal_bytes)) (\<lambda>ci.
     if ci_content_type ci \<noteq> ID_SIGNED_DATA
     then Inl (SealInvalid (''unexpected content type: '' @ ci_content_type ci))
     else map_errR (\<lambda>e. SealInvalid (''parse SignedData: '' @ e)) (ci_signed_data ci))"

definition verify_seal :: "externals \<Rightarrow> cms_externals \<Rightarrow> bytes \<Rightarrow> bytes \<Rightarrow> ahu_error + SealVerification" where
  "verify_seal E X manifest_bytes seal_bytes =
     (if seal_bytes = [] then Inl (SealInvalid ''seal section is empty'')
      else bindR (parse_signed_data X seal_bytes) (\<lambda>signed_data.
      bindR (ok_orR (SealInvalid ''exactly one signer is required'') (exactly_one (sd_signer_infos signed_data))) (\<lambda>signer_info.
          if si_digest_alg signer_info \<noteq> ID_SHA256 \<or> sd_digest_algorithms signed_data \<noteq> [ID_SHA256]
          then Inl (SealInvalid ''only SHA-256 digest attributes are supported'')
          else if sd_econtent_type signed_data \<noteq> ID_DATA \<or> sd_econtent signed_data \<noteq> None
          then Inl (SealInvalid ''expected detached CMS data content'')
          else
          bindR (ok_orR (SealInvalid ''missing signed attributes'') (si_signed_attrs signer_info)) (\<lambda>attrs.
          if \<not> content_type_ok X attrs then Inl (SealInvalid ''invalid content-type attribute'')
          else
          bindR (verify_message_digest X signer_info (sha256 E manifest_bytes)) (\<lambda>digest_matches.
          if \<not> digest_matches
          then Inl (SealInvalid ''message-digest attribute does not match manifest hash'')
          else
          bindR (extract_signer_cert signed_data) (\<lambda>cert.
          bindR (verify_signature E X signer_info cert) (\<lambda>signature_valid.
          if \<not> signature_valid then Inl (SealInvalid ''invalid CMS signature'')
          else
          bindR (map_errR SealInvalid (ct_der cert)) (\<lambda>der.
          Inr \<lparr>sv_signature_valid = signature_valid, sv_digest_matches = digest_matches,
               sv_signer_subject = display_name X (ct_subject cert),
               sv_signer_sha256 = hex_encode E (sha256 E der)\<rparr>))))))))"

section \<open>Certificate profile and trust\<close>

fun check_extensions :: "oid set \<Rightarrow> oid list \<Rightarrow> ahu_error + unit" where
  "check_extensions seen [] = Inr ()"
| "check_extensions seen (oid # oids) =
     (if oid \<in> seen then Inl (SealInvalid ''duplicate certificate extension'')
      else if oid \<notin> {''2.5.29.14'', ''2.5.29.15'', ''2.5.29.19'', ''2.5.29.35''}
      then Inl (SealInvalid (''unsupported seal certificate extension '' @ oid))
      else check_extensions (insert oid seen) oids)"

definition validate_cert_profile :: "Certificate \<Rightarrow> u64 \<Rightarrow> bool \<Rightarrow> ahu_error + unit" where
  "validate_cert_profile cert now ca =
     (if now < ct_not_before cert \<or> now \<ge> ct_not_after cert
      then Inl (SealInvalid ''certificate outside validity period'')
      else
      bindR (case ct_extensions cert of None \<Rightarrow> Inr () | Some exts \<Rightarrow> check_extensions {} exts) (\<lambda>_.
      bindR (map_errR SealInvalid (ct_key_usage cert)) (\<lambda>usage.
      if (case usage of None \<Rightarrow> False
          | Some ku \<Rightarrow> if ca then \<not> ku_key_cert_sign ku else \<not> ku_digital_signature ku)
      then Inl (SealInvalid ''certificate key usage does not permit operation'')
      else if ca
      then bindR (map_errR SealInvalid (ct_basic_constraints_ca cert)) (\<lambda>bc.
           if bc \<noteq> Some True
           then Inl (SealInvalid ''trust anchor must be a CA certificate; signer pins are a separate policy'')
           else Inr ())
      else Inr ())))"

text \<open>The second parse of the seal, whose errors carry the parser's message alone.\<close>

definition seal_signer :: "cms_externals \<Rightarrow> bytes \<Rightarrow> ahu_error + Certificate" where
  "seal_signer X seal =
     bindR (map_errR SealInvalid (content_info_from_der X seal)) (\<lambda>ci.
     bindR (map_errR SealInvalid (ci_signed_data ci)) extract_signer_cert)"

fun find_issuer :: "externals \<Rightarrow> cms_externals \<Rightarrow> Certificate \<Rightarrow> SealVerification \<Rightarrow> Certificate list \<Rightarrow> ahu_error + SealVerification" where
  "find_issuer E X signer verification [] =
     Inl (SealInvalid ''signer is not directly issued by a configured CA trust anchor (intermediate paths unsupported)'')"
| "find_issuer E X signer verification (anchor # anchors) =
     (if signer = anchor then Inr verification
      else if ct_issuer signer \<noteq> ct_subject anchor then find_issuer E X signer verification anchors
      else if ct_signature_algorithm signer \<noteq> ct_tbs_signature signer
      then Inl (SealInvalid ''certificate signature algorithms disagree'')
      else
      bindR (map_errR SealInvalid (ct_tbs_der signer)) (\<lambda>bs.
      bindR (ok_orR (SealInvalid ''invalid certificate signature bits'') (ct_signature signer)) (\<lambda>sig.
      bindR (verify_bytes E X bs sig (fst (ct_signature_algorithm signer)) anchor) (\<lambda>ok.
      if ok then Inr verification else find_issuer E X signer verification anchors))))"

definition verify_seal_with_anchors ::
    "externals \<Rightarrow> cms_externals \<Rightarrow> bytes \<Rightarrow> bytes \<Rightarrow> bytes list \<Rightarrow> u64 \<Rightarrow> ahu_error + SealVerification" where
  "verify_seal_with_anchors E X manifest seal anchors_der now =
     bindR (verify_seal E X manifest seal) (\<lambda>verification.
     bindR (seal_signer X seal) (\<lambda>signer.
     bindR (validate_cert_profile signer now False) (\<lambda>_.
     if anchors_der = [] then Inl (SealInvalid ''no trust anchors'')
     else
     bindR (mapR (\<lambda>bs. map_errR (\<lambda>e. SealInvalid (''invalid trust anchor: '' @ e)) (certificate_from_der X bs)) anchors_der) (\<lambda>anchors.
     bindR (allR (\<lambda>anchor. validate_cert_profile anchor now True) anchors) (\<lambda>_.
     find_issuer E X signer verification anchors)))))"

definition verify_seal_with_pins ::
    "externals \<Rightarrow> cms_externals \<Rightarrow> bytes \<Rightarrow> bytes \<Rightarrow> bytes list \<Rightarrow> u64 \<Rightarrow> ahu_error + SealVerification" where
  "verify_seal_with_pins E X manifest seal pins_der now =
     bindR (verify_seal E X manifest seal) (\<lambda>verification.
     bindR (seal_signer X seal) (\<lambda>signer.
     bindR (validate_cert_profile signer now False) (\<lambda>_.
     bindR (map_errR SealInvalid (ct_der signer)) (\<lambda>signer_der.
     bindR (mapR (\<lambda>pin. map_errR (\<lambda>e. SealInvalid (''invalid signer pin: '' @ e))
                     (bindR (certificate_from_der X pin) ct_der)) pins_der) (\<lambda>pins.
     if signer_der \<notin> set pins
     then Inl (SealInvalid ''signer certificate does not match an explicit pin'')
     else Inr verification)))))"

section \<open>What an accepted seal establishes\<close>

text \<open>
  The manifest digest stands in the one message-digest attribute, and the signature over the
  signed attributes verifies under the key of the certificate the signer names.
\<close>

definition sealed_by :: "externals \<Rightarrow> cms_externals \<Rightarrow> bytes \<Rightarrow> bytes \<Rightarrow> Certificate \<Rightarrow> bool" where
  "sealed_by E X manifest seal cert \<longleftrightarrow>
     (\<exists>ci sd si attrs a v attrs_der.
        content_info_from_der X seal = Inr ci \<and> ci_content_type ci = ID_SIGNED_DATA \<and>
        ci_signed_data ci = Inr sd \<and> sd_signer_infos sd = [si] \<and>
        si_signed_attrs si = Some attrs \<and>
        filter (\<lambda>a. at_oid a = ID_MESSAGE_DIGEST) attrs = [a] \<and> at_values a = [v] \<and>
        decode_octet_string X v = Inr (sha256 E manifest) \<and>
        extract_signer_cert sd = Inr cert \<and>
        si_signed_attrs_der si = Inr attrs_der \<and>
        verify_bytes E X attrs_der (si_signature si) (si_signature_algorithm si) cert = Inr True)"

lemma exactly_one_Some [simp]: "exactly_one xs = Some x \<longleftrightarrow> xs = [x]"
  by (cases xs) (auto simp: exactly_one_def)

lemma verify_message_digest_Inr:
  "verify_message_digest X si d = Inr b \<longleftrightarrow>
     (\<exists>attrs a v octet. si_signed_attrs si = Some attrs \<and>
        filter (\<lambda>a. at_oid a = ID_MESSAGE_DIGEST) attrs = [a] \<and> at_values a = [v] \<and>
        decode_octet_string X v = Inr octet \<and> b = (octet = d))"
  by (auto simp: verify_message_digest_def Let_def result_inverts)

lemma verify_seal_sealed_by:
  assumes "verify_seal E X manifest seal = Inr v"
  shows "\<exists>cert der. sealed_by E X manifest seal cert \<and> seal_signer X seal = Inr cert \<and>
    ct_der cert = Inr der \<and> sv_signer_sha256 v = hex_encode E (sha256 E der) \<and>
    sv_signature_valid v \<and> sv_digest_matches v"
proof -
  from assms obtain ci sd si attrs cert der where
    ci: "content_info_from_der X seal = Inr ci" "ci_content_type ci = ID_SIGNED_DATA"
      "ci_signed_data ci = Inr sd" "sd_signer_infos sd = [si]" "si_signed_attrs si = Some attrs"
    and dig: "verify_message_digest X si (sha256 E manifest) = Inr True"
    and cert: "extract_signer_cert sd = Inr cert" "verify_signature E X si cert = Inr True" "ct_der cert = Inr der"
    and v: "sv_signer_sha256 v = hex_encode E (sha256 E der)" "sv_signature_valid v" "sv_digest_matches v"
    by (auto simp: verify_seal_def parse_signed_data_def result_inverts split: if_splits)
  have "sealed_by E X manifest seal cert"
    using ci dig cert(1,2) unfolding sealed_by_def
    by (auto simp: verify_message_digest_Inr verify_signature_def result_inverts)
  moreover have "seal_signer X seal = Inr cert"
    using ci cert(1) by (simp add: seal_signer_def)
  ultimately show ?thesis using cert(3) v by blast
qed

lemma validate_cert_profile_Inr:
  "validate_cert_profile cert now ca = Inr u \<Longrightarrow> ct_not_before cert \<le> now \<and> now < ct_not_after cert"
  by (auto simp: validate_cert_profile_def not_less not_le split: if_splits)

lemma validate_ca_profile_Inr:
  "validate_cert_profile cert now True = Inr u \<Longrightarrow> ct_basic_constraints_ca cert = Inr (Some True)"
  by (auto simp: validate_cert_profile_def result_inverts split: if_splits)

text \<open>The signer of the find: the only certificate in the message that its identifier matches.\<close>

lemma find_signer_Inr:
  "find_signer sid found choices = Inr (Some cert) \<Longrightarrow>
     (if found = None
      then filter (signer_matches sid) (List.map_filter (\<lambda>c. case c of CertificateChoice x \<Rightarrow> Some x | _ \<Rightarrow> None) choices) = [cert]
      else found = Some cert \<and>
        filter (signer_matches sid) (List.map_filter (\<lambda>c. case c of CertificateChoice x \<Rightarrow> Some x | _ \<Rightarrow> None) choices) = [])"
  by (induction sid found choices rule: find_signer.induct) (auto simp: map_filter_simps split: if_splits)

text \<open>Directly issued: the anchor's subject is the signer's issuer and its key verifies the signer.\<close>

definition issued_by :: "externals \<Rightarrow> cms_externals \<Rightarrow> Certificate \<Rightarrow> Certificate \<Rightarrow> bool" where
  "issued_by E X anchor signer \<longleftrightarrow>
     ct_issuer signer = ct_subject anchor \<and>
     (\<exists>tbs sig. ct_tbs_der signer = Inr tbs \<and> ct_signature signer = Some sig \<and>
        verify_bytes E X tbs sig (fst (ct_signature_algorithm signer)) anchor = Inr True)"

lemma find_issuer_Inr:
  "find_issuer E X signer v anchors = Inr v' \<Longrightarrow>
     v' = v \<and> (\<exists>anchor \<in> set anchors. signer = anchor \<or> issued_by E X anchor signer)"
proof (induction anchors)
  case (Cons anchor anchors)
  show ?case
  proof (cases "find_issuer E X signer v anchors = Inr v'")
    case True
    then show ?thesis using Cons.IH by auto
  next
    case False
    then show ?thesis
      using Cons.prems by (auto simp: issued_by_def result_inverts split: if_splits)
  qed
qed simp

lemma verify_seal_with_pins_Inr:
  assumes "verify_seal_with_pins E X manifest seal pins now = Inr v"
  shows "\<exists>signer der. sealed_by E X manifest seal signer \<and>
    ct_not_before signer \<le> now \<and> now < ct_not_after signer \<and> ct_der signer = Inr der \<and>
    sv_signer_sha256 v = hex_encode E (sha256 E der) \<and>
    (\<exists>pin \<in> set pins. \<exists>c. certificate_from_der X pin = Inr c \<and> ct_der c = Inr der)"
proof -
  from assms obtain signer signer_der ders where v: "verify_seal E X manifest seal = Inr v"
    and signer: "seal_signer X seal = Inr signer" "validate_cert_profile signer now False = Inr ()"
      "ct_der signer = Inr signer_der" "signer_der \<in> set ders"
    and pins: "list_all2 (\<lambda>pin d. bindR (certificate_from_der X pin) ct_der = Inr d) pins ders"
    by (auto simp: verify_seal_with_pins_def result_inverts mapR_eq_Inr split: if_splits)
  have "\<exists>pin \<in> set pins. \<exists>c. certificate_from_der X pin = Inr c \<and> ct_der c = Inr signer_der"
    using list_all2_in_set2 [OF pins signer(4)] by (simp add: bindR_eq_Inr)
  then show ?thesis
    using verify_seal_sealed_by [OF v] signer validate_cert_profile_Inr [OF signer(2)] by auto
qed

lemma verify_seal_with_anchors_Inr:
  assumes "verify_seal_with_anchors E X manifest seal anchors now = Inr v"
  shows "\<exists>signer anchor der. sealed_by E X manifest seal signer \<and>
    ct_not_before signer \<le> now \<and> now < ct_not_after signer \<and> ct_der signer = Inr der \<and>
    sv_signer_sha256 v = hex_encode E (sha256 E der) \<and>
    (\<exists>bs \<in> set anchors. certificate_from_der X bs = Inr anchor) \<and>
    ct_basic_constraints_ca anchor = Inr (Some True) \<and>
    ct_not_before anchor \<le> now \<and> now < ct_not_after anchor \<and>
    (signer = anchor \<or> issued_by E X anchor signer)"
proof -
  from assms obtain w signer cas where w: "verify_seal E X manifest seal = Inr w"
    and signer: "seal_signer X seal = Inr signer" "validate_cert_profile signer now False = Inr ()"
    and cas: "list_all2 (\<lambda>bs c. certificate_from_der X bs = Inr c) anchors cas"
      "\<forall>c \<in> set cas. validate_cert_profile c now True = Inr ()"
    and find: "find_issuer E X signer w cas = Inr v"
    by (auto simp: verify_seal_with_anchors_def result_inverts mapR_eq_Inr allR_eq_Inr split: if_splits)
  from find_issuer_Inr [OF find] obtain anchor where anchor: "v = w" "anchor \<in> set cas"
    "signer = anchor \<or> issued_by E X anchor signer" by blast
  have "\<exists>bs \<in> set anchors. certificate_from_der X bs = Inr anchor"
    using list_all2_in_set2 [OF cas(1) anchor(2)] .
  moreover have "ct_basic_constraints_ca anchor = Inr (Some True)"
    "ct_not_before anchor \<le> now \<and> now < ct_not_after anchor"
    using cas(2) anchor(2) validate_cert_profile_Inr validate_ca_profile_Inr by auto
  moreover obtain der where "sealed_by E X manifest seal signer" "ct_der signer = Inr der"
    "sv_signer_sha256 v = hex_encode E (sha256 E der)"
    using verify_seal_sealed_by [OF w] signer(1) anchor(1) by auto
  ultimately show ?thesis
    using anchor(3) validate_cert_profile_Inr [OF signer(2)] by blast
qed

end
