(* ===== verification/Hoike_Examples.thy ===== *)
theory Hoike_Examples
  imports Ahu_Bundle
begin

text \<open>
  Concrete third-party functions and small bundles for the worked examples: the lower-case
  hexadecimal of \<^verbatim>\<open>hex\<close> with its round trip, a digest of the right length, and a CBOR codec that
  is right at one value. Theorems never rely on these; the examples that follow them do.
\<close>

section \<open>Hexadecimal\<close>

definition hex_digit :: "nat \<Rightarrow> char" where
  "hex_digit n = ''0123456789abcdef'' ! n"

fun hex_encode_ref :: "bytes \<Rightarrow> string" where
  "hex_encode_ref [] = []"
| "hex_encode_ref (b # bs) = hex_digit (unat b div 16) # hex_digit (unat b mod 16) # hex_encode_ref bs"

definition hex_value :: "char \<Rightarrow> nat option" where
  "hex_value c = map_of (zip ''0123456789abcdefABCDEF'' ([0..<16] @ [10..<16])) c"

fun hex_decode_ref :: "string \<Rightarrow> string + bytes" where
  "hex_decode_ref [] = Inr []"
| "hex_decode_ref [c] = Inl ''Odd number of digits''"
| "hex_decode_ref (c # d # cs) =
     (case (hex_value c, hex_value d) of
        (Some x, Some y) \<Rightarrow> bindR (hex_decode_ref cs) (\<lambda>bs. Inr (of_nat (16 * x + y) # bs))
      | _ \<Rightarrow> Inl ''Invalid character'')"

lemma hex_value_digit: "n < 16 \<Longrightarrow> hex_value (hex_digit n) = Some n"
proof -
  have "\<forall>n \<in> set [0..<16]. hex_value (hex_digit n) = Some n" by code_simp
  then show "n < 16 \<Longrightarrow> ?thesis" by simp
qed

lemma hex_digit_mem: "n < 16 \<Longrightarrow> hex_digit n \<in> set ''0123456789abcdef''"
  unfolding hex_digit_def by (rule nth_mem) simp

lemma hex_decode_encode_ref: "hex_decode_ref (hex_encode_ref bs) = Inr bs"
proof (induction bs)
  case (Cons b bs)
  have "unat b div 16 < 16" using unat_u8_bound [of b] by simp
  then show ?case
    using Cons by (simp add: hex_value_digit)
qed simp

lemma hex_encode_ref_digits: "set (hex_encode_ref bs) \<subseteq> set ''0123456789abcdef''"
proof (induction bs)
  case (Cons b bs)
  have "unat b div 16 < 16" "unat b mod 16 < 16" using unat_u8_bound [of b] by simp_all
  from this [THEN hex_digit_mem] Cons show ?case
    by (simp only: hex_encode_ref.simps list.set(2) insert_subset simp_thms)
qed simp

section \<open>Externals\<close>

definition example_externals :: "cbor \<Rightarrow> externals" where
  "example_externals v =
     \<lparr>sha256 = (\<lambda>_. replicate 32 0),
      hex_encode = hex_encode_ref,
      hex_decode = hex_decode_ref,
      uuid_from_slice = (\<lambda>bs. if length bs = 16 then Inr bs else Inl ''invalid length''),
      cbor_into = (\<lambda>_. [0xA0]),
      cbor_from = (\<lambda>_. Inr v)\<rparr>"

lemma example_externals_laws [simp]:
  "sha256_length (example_externals v)"
  "hex_roundtrip (example_externals v)"
  "hex_digits (example_externals v)"
  "uuid_16 (example_externals v)"
  "cbor_roundtrip (example_externals v) v"
proof -
  show "hex_digits (example_externals v)"
    unfolding hex_digits_def example_externals_def using hex_encode_ref_digits by simp
qed (simp_all add: example_externals_def sha256_length_def hex_roundtrip_def uuid_16_def cbor_roundtrip_def
    hex_decode_encode_ref)

section \<open>A small bundle\<close>

definition example_scope :: CaScope where
  "example_scope =
     \<lparr>cs_hash_algorithm = [1], cs_issuer_name_hash = [2], cs_issuer_key_hash = [3], cs_epoch = 7,
      cs_responder_id = \<lparr>rid_id_type = ByKey, rid_value = [4]\<rparr>, cs_responder_chain = None,
      cs_signature_algorithm = [5], cs_completeness = Partial\<rparr>"

definition example_manifest :: Manifest where
  "example_manifest =
     \<lparr>mf_format_version = 1, mf_bundle_id = replicate 16 9, mf_producer_id = ''demo'', mf_created_at = 100,
      mf_bundle_type = FullBundle, mf_ca_scopes = [example_scope],
      mf_window = \<lparr>w_produced_at = 100, w_this_update_min = 100, w_next_update_min = 200, w_next_update_max = 300\<rparr>,
      mf_integrity = \<lparr>in_index_digest = replicate 32 0, in_data_digest = replicate 32 0\<rparr>,
      mf_entry_count = 2,
      mf_continuity = \<lparr>co_prev_manifest_digest = None, co_base_manifest_digest = None, co_chain_length = 0\<rparr>,
      mf_shard = None, mf_compression = None, mf_extensions = None\<rparr>"

definition example_key_1 :: bytes where "example_key_1 = replicate 32 0"
definition example_key_2 :: bytes where "example_key_2 = replicate 32 2"

text \<open>One response under two keys, as the dual-hash entries of the responder are.\<close>

definition example_builder :: BundleBuilder where
  "example_builder = add_dual_entry example_key_2 example_key_1 [48, 3, 10, 1, 0] (builder_new example_manifest)"

definition example_E :: externals where
  "example_E = example_externals (manifest_to_val example_manifest)"

lemma example_E_laws [simp]:
  "sha256_length example_E" "hex_roundtrip example_E" "hex_digits example_E" "uuid_16 example_E"
  "cbor_roundtrip example_E (manifest_to_val example_manifest)"
  "sha256 example_E bs = replicate 32 0" "to_cbor example_E m = [0xA0]"
  "cbor_from example_E bs = Inr (manifest_to_val example_manifest)"
  unfolding example_E_def by (simp_all add: to_cbor_def, simp_all add: example_externals_def)

lemma wf_example_manifest [simp]: "wf_manifest example_manifest"
  by (simp add: wf_manifest_def example_manifest_def opt_digest_def)

lemma example_manifest_type [simp]: "mf_bundle_type example_manifest = FullBundle"
  by (simp add: example_manifest_def)

lemma from_cbor_example [simp]: "from_cbor example_E bs = Inr example_manifest"
  using from_cbor_to_cbor [of example_manifest example_E] by (simp add: from_cbor_def)

lemma built_example_manifest [simp]: "built_manifest example_E example_builder = example_manifest"
  by (simp add: built_manifest_def finish_manifest_def built_layout_def length_la_index Let_def
      example_builder_def add_dual_entry_def add_dual_entry_with_discriminator_def push_entry_def builder_new_def)
    (simp add: example_manifest_def)

lemma example_builder_entries:
  "bb_manifest example_builder = example_manifest"
  "bb_entries example_builder =
     [(\<lparr>ir_entry_key = example_key_2, ir_data_offset = 0, ir_data_length = 5, ir_flags = 3, ir_discriminator = 0\<rparr>, [48, 3, 10, 1, 0]),
      (\<lparr>ir_entry_key = example_key_1, ir_data_offset = 0, ir_data_length = 5, ir_flags = 3, ir_discriminator = 0\<rparr>, [48, 3, 10, 1, 0])]"
  by (simp_all add: example_builder_def add_dual_entry_def add_dual_entry_with_discriminator_def
      push_entry_def builder_new_def len_u32_def ALIAS_def MULTI_def)

lemma example_keys_distinct [simp]: "example_key_1 \<noteq> example_key_2" "example_key_2 \<noteq> example_key_1"
  by (simp_all add: example_key_1_def example_key_2_def)

lemma wf_example_builder [simp]: "wf_builder example_E example_builder"
proof -
  have "alias_payloads (bb_entries example_builder) \<subseteq> {[48, 3, 10, 1, 0]}"
    by (auto simp: alias_payloads_def example_builder_entries)
  then have "inj_on (sha256 example_E) (alias_payloads (bb_entries example_builder))"
    by (auto simp: inj_on_def)
  then show ?thesis
    by (simp add: wf_builder_def example_builder_entries wf_record_def record_key_def from_bits_truncate_def
        MULTI_def ALIAS_def TOMBSTONE_def example_key_1_def example_key_2_def)
qed

definition example_seal_fn :: "bytes \<Rightarrow> ahu_error + bytes" where
  "example_seal_fn _ = Inr [42]"

definition example_file :: bytes where
  "example_file = projr (build example_E example_seal_fn example_builder)"

lemma build_example: "build example_E example_seal_fn example_builder = Inr example_file"
  by (simp add: example_file_def build_def example_seal_fn_def Let_def)

lemma layout_data_bound:
  "\<forall>e \<in> set es. length (snd e) \<le> n \<Longrightarrow> length (la_data (layout_entries E es)) \<le> n * length es"
proof (induction es rule: rev_induct)
  case (snoc e es)
  then have "length (la_data (layout_entry E (layout_entries E es) e)) \<le> length (la_data (layout_entries E es)) + n"
    by (cases e) (auto simp: layout_entry_def Let_def split: option.split)
  with snoc show ?case by (simp add: layout_entries_def)
qed (simp add: layout_entries_def layout_empty_def)

lemma build_length_bound:
  assumes "wf_builder E b" and "\<forall>e \<in> set (bb_entries b). length (snd e) \<le> n"
    and "build E seal_fn b = Inr out" and "seal_fn (to_cbor E (built_manifest E b)) = Inr seal"
  shows "length out \<le> HEADER_SIZE + length (to_cbor E (built_manifest E b)) + length seal
    + (INDEX_RECORD_SIZE + n) * length (bb_entries b)"
proof -
  let ?st = "built_layout E b"
  have "list_all wf_record (la_index ?st)"
    unfolding built_layout_def using assms(1) by (intro layout_entries_wf) (simp add: wf_builder_def)
  then have "length (write_index (la_index ?st)) = INDEX_RECORD_SIZE * length (bb_entries b)"
    by (simp add: length_write_index built_layout_def length_la_index)
  moreover have "length (la_data ?st) \<le> n * length (bb_entries b)"
    using layout_data_bound [of "sort_entries (bb_entries b)" n E] assms(2) by (simp add: built_layout_def)
  ultimately show ?thesis
    using assms(3,4) by (auto simp: build_Inr built_bundle_def Let_def add_mult_distrib)
qed

lemma vec_fits_example [simp]: "vec_fits example_file"
  using build_length_bound [OF wf_example_builder _ build_example, of 5 "[42]"]
  by (simp add: vec_fits_def example_builder_entries example_seal_fn_def HEADER_SIZE_def INDEX_RECORD_SIZE_def)

end
