(* ===== verification/Ahu_Properties.thy ===== *)
theory Ahu_Properties
  imports Ahu_Mmap Ahu_Ops Ahu_Seal Hoike_Examples
begin

text \<open>
  What the bundle format promises: files that the builder writes read back, verify and answer
  lookups as the entries say; the mapped and the parsed view of a file agree; verification means
  what its result says; a delta chain materialises to the overlay of its entries; an accepted seal
  comes from a trusted signer. Each theorem with premises is followed by an example that meets
  them.
\<close>

section \<open>Reading, writing and looking up\<close>

text \<open>
  C7: What the builder writes is a bundle that reads back, and a lookup in it by preference list
  returns the payload of the entry under the first preferred discriminator that has one, the
  default discriminator last; a tombstone answers with nothing. This holds for entries sharing a
  payload too, which the file stores once.
\<close>

theorem build_then_lookup:
  assumes "wf_builder E b" and "sha256_length E" and "uuid_16 E"
    and "cbor_roundtrip E (manifest_to_val (built_manifest E b))"
    and "length (to_cbor E (built_manifest E b)) < 2 ^ 32"
    and "seal_fn (to_cbor E (built_manifest E b)) = Inr seal" and "length seal < 2 ^ 32"
    and "build E seal_fn b = Inr out" and "vec_fits out"
  shows "\<exists>bundle. from_bytes E out = Inr bundle \<and> b_seal_bytes bundle = seal \<and>
    (\<forall>k prefs. lookup_preferred bundle k prefs = opt_join (preferred_record (entry_map (bb_entries b)) k prefs))"
proof -
  let ?B = "built_bundle E b seal"
  note fits = build_layout_fits [OF assms(1,8,9)]
  have "sorted_index (b_index ?B)"
    using built_index_sorted [OF assms(1) fits] by (simp add: built_bundle_def Let_def)
  then have "lookup_preferred ?B k prefs = opt_join (preferred_record (entry_map (bb_entries b)) k prefs)" for k prefs
    by (simp add: lookup_preferred_bundle_map built_bundle_map [OF assms(1) fits])
  moreover have "b_seal_bytes ?B = seal" by (simp add: built_bundle_def Let_def)
  ultimately show ?thesis using from_bytes_build [OF assms] by blast
qed

theorem build_then_lookup_witness:
  "\<exists>bundle. from_bytes example_E example_file = Inr bundle \<and>
     lookup_preferred bundle example_key_1 [ALG_DISC_ML_DSA_65] = Some [48, 3, 10, 1, 0] \<and>
     lookup_preferred bundle (replicate 32 5) [] = None"
proof -
  have "\<exists>bundle. from_bytes example_E example_file = Inr bundle \<and> b_seal_bytes bundle = [42] \<and>
      (\<forall>k prefs. lookup_preferred bundle k prefs
         = opt_join (preferred_record (entry_map (bb_entries example_builder)) k prefs))"
    by (rule build_then_lookup [OF _ _ _ _ _ _ _ build_example])
      (simp_all add: example_seal_fn_def)
  then show ?thesis
    by (auto simp: preferred_record_def entry_map_def example_builder_entries record_key_def is_tombstone_def
        flags_contain_def TOMBSTONE_def opt_join_def ALG_DISC_ML_DSA_65_def ALG_DISC_DEFAULT_def
        example_key_1_def example_key_2_def)
qed



text \<open>
  C12: A lookup by preference list in a bundle whose index is sorted, by the binary search the
  standard library runs, is the lookup in the bundle seen as a map: the first preferred
  discriminator that is present, the default one last. The plain lookup is that of the default
  discriminator.
\<close>

theorem lookup_refines_map:
  assumes "sorted_index (b_index b)"
  shows "lookup_preferred b k prefs = opt_join (preferred_record (bundle_map b) k prefs) \<and>
    lookup b k = opt_join (bundle_map b (k, ALG_DISC_DEFAULT))"
  using lookup_preferred_bundle_map [OF assms] lookup_bundle_map [OF assms] by auto

definition example_bundle :: Bundle where
  "example_bundle =
     \<lparr>b_header = build_header [0xA0] [42] [] [1, 2, 3], b_manifest = example_manifest,
      b_manifest_bytes = [0xA0], b_seal_bytes = [42],
      b_index = [\<lparr>ir_entry_key = example_key_1, ir_data_offset = 0, ir_data_length = 2, ir_flags = 0, ir_discriminator = 0\<rparr>,
                 \<lparr>ir_entry_key = example_key_1, ir_data_offset = 2, ir_data_length = 1, ir_flags = 0, ir_discriminator = 3\<rparr>],
      b_data = [1, 2, 3]\<rparr>"

lemma example_bundle_sorted: "sorted_index (b_index example_bundle)"
  by (simp add: example_bundle_def sorted_index_def record_key_def)

theorem lookup_refines_map_witness:
  "sorted_index (b_index example_bundle) \<and>
   lookup_preferred example_bundle example_key_1 [4, 3] = Some [3] \<and> lookup example_bundle example_key_1 = Some [1, 2]"
  using lookup_refines_map [OF example_bundle_sorted, of example_key_1 "[4, 3]"] example_bundle_sorted
  by (simp add: example_bundle_def bundle_map_def index_map_def record_key_def preferred_record_def
      opt_join_def entry_bytes_def is_tombstone_def flags_contain_def TOMBSTONE_def checked_add_usize_def
      usize_bound_def slice_get_def ALG_DISC_DEFAULT_def)


text \<open>
  C20: A file opens as a mapping exactly when it parses, and every range that an opened mapping
  reads afterwards lies inside the file.
\<close>

theorem mmap_open_agrees:
  assumes "vec_fits bs"
  shows "((\<exists>mb. mmap_open E bs = Inr mb) \<longleftrightarrow> (\<exists>b. from_bytes E bs = Inr b)) \<and>
    (\<forall>mb. mmap_open E bs = Inr mb \<longrightarrow> open_ranges mb)"
  using assms mmap_open_iff_from_bytes [of bs E] mmap_open_ranges [of E bs] by (auto simp: vec_fits_def)

lemma example_file_parses: "from_bytes example_E example_file = Inr (built_bundle example_E example_builder [42])"
  by (rule from_bytes_build [OF _ _ _ _ _ _ _ build_example]) (simp_all add: example_seal_fn_def)




theorem mmap_open_agrees_witness:
  "vec_fits example_file \<and> (\<exists>mb. mmap_open example_E example_file = Inr mb \<and> open_ranges mb)"
  using mmap_open_agrees [OF vec_fits_example, of example_E] example_file_parses vec_fits_example by blast

text \<open>
  C21: A manifest survives its CBOR encoding: what \<^verbatim>\<open>to_cbor\<close> writes, \<^verbatim>\<open>from_cbor\<close> reads as the
  same manifest, optional parts included, given that the CBOR library reads back that value.
\<close>

theorem manifest_roundtrip:
  assumes "wf_manifest m" and "uuid_16 E" and "cbor_roundtrip E (manifest_to_val m)"
  shows "from_cbor E (to_cbor E m) = Inr m"
  using from_cbor_to_cbor [OF assms] .

theorem manifest_roundtrip_witness:
  "wf_manifest example_manifest \<and> from_cbor example_E (to_cbor example_E example_manifest) = Inr example_manifest"
  using manifest_roundtrip [of example_manifest example_E] by simp

text \<open>
  C22: Serialising a bundle that was parsed from any file gives a file that parses to the same
  manifest, seal, index and data; the header's offsets alone may change.
\<close>

theorem reserialise_roundtrip:
  assumes "from_bytes E bs = Inr b" and "to_bytes b = Inr out" and "vec_fits out"
  shows "\<exists>h. from_bytes E out = Inr (b\<lparr>b_header := h\<rparr>)"
  using from_bytes_to_bytes [OF assms(2,3) from_bytes_wf [OF assms(1)]] .

theorem reserialise_roundtrip_witness:
  "\<exists>out h. to_bytes (built_bundle example_E example_builder [42]) = Inr out \<and>
     from_bytes example_E out = Inr ((built_bundle example_E example_builder [42])\<lparr>b_header := h\<rparr>)"
proof -
  let ?b = "built_bundle example_E example_builder [42]"
  have parts: "b_manifest_bytes ?b = [0xA0]" "b_seal_bytes ?b = [42]"
    by (simp_all add: built_bundle_def Let_def)
  have idx: "length (write_index (b_index ?b)) + length (b_data ?b) < 2 ^ 32"
    using layout_data_bound [of "sort_entries (bb_entries example_builder)" 5 example_E]
      layout_entries_wf [of "sort_entries (bb_entries example_builder)" example_E] wf_example_builder
    by (simp add: built_bundle_def built_layout_def Let_def length_write_index length_la_index
        INDEX_RECORD_SIZE_def example_builder_entries wf_builder_def)
  have "unat (len_u64 (write_index (b_index ?b))) < 2 ^ 32"
    using idx by (subst unat_len_u64) simp_all
  then obtain out where out: "to_bytes ?b = Inr out"
    by (simp add: to_bytes_def try_len_u32_def parts checked_add_u64_def HEADER_SIZE_def len_u32_def Let_def)
  have "length out = 66 + length (write_index (b_index ?b)) + length (b_data ?b)"
    using out by (auto simp: to_bytes_def try_len_u32_def parts checked_add_u64_def HEADER_SIZE_def
        bindR_eq_Inr Let_def split: if_splits)
  then have "vec_fits out" using idx by (simp add: vec_fits_def)
  then show ?thesis using reserialise_roundtrip [OF example_file_parses out] out by blast
qed

text \<open>
  C23: The header codec is exact: a read succeeds precisely on the bytes a header of this format
  version writes, and leaves what follows them.
\<close>

theorem header_codec_exact:
  "header_read_from bs = Inr (h, rest) \<longleftrightarrow>
     bs = header_write_to h @ rest \<and> fh_format_major h = FORMAT_MAJOR"
  using header_write_read header_read_write by blast

text \<open>
  C24: The bounds check passes exactly when every section ends inside the file, over all 64-bit
  offsets and lengths: no sum that wraps around gets through.
\<close>

theorem validate_bounds_exact:
  "validate_bounds h file_size = Inr () \<longleftrightarrow> sections_within h (unat file_size)"
  by (rule validate_bounds_Inr)

section \<open>Verification\<close>

text \<open>
  C25: Structural verification succeeds exactly on the structurally sound bundles: the manifest
  bytes decode to a manifest that encodes as the parsed one and carries the digests of the index
  and data sections, the index is strictly sorted by key and discriminator, every entry that is
  not a tombstone lies inside the data section, and a delta names its base.
\<close>

theorem verify_structure_exact:
  "(\<exists>r. verify_structure E b = Inr r) \<longleftrightarrow> structurally_sound E b"
  by (rule verify_structure_sound_iff)

text \<open>
  The sort-order check accepts exactly the strictly increasing sequences of key and
  discriminator pairs; in particular no two accepted records share a pair.
\<close>

theorem sort_order_exact:
  "validate_sort_order E rs = Inr () \<longleftrightarrow> sorted_wrt (<) (map (\<lambda>r. (ir_entry_key r, ir_discriminator r)) rs)"
  by (simp add: validate_sort_order_Inr sorted_index_def record_key_def [abs_def])

text \<open>
  The epoch check passes exactly when every scope of the bundle is above the mark recorded
  for its producer and issuer key.
\<close>

theorem check_epochs_exact:
  "check_epochs E b hwm = Inr () \<longleftrightarrow>
     (\<forall>s \<in> set (mf_ca_scopes (b_manifest b)). \<forall>hw.
        hwm (mf_producer_id (b_manifest b), cs_issuer_key_hash s) = Some hw \<longrightarrow> hw < cs_epoch s)"
  by (rule check_epochs_Inr)

theorem check_epochs_exact_witness:
  "check_epochs example_E example_bundle (\<lambda>_. Some 6) = Inr () \<and>
   check_epochs example_E example_bundle (\<lambda>_. Some 7) \<noteq> Inr ()"
  using check_epochs_exact [of example_E example_bundle "\<lambda>_. Some 6"]
    check_epochs_exact [of example_E example_bundle "\<lambda>_. Some 7"]
  by (simp add: example_bundle_def example_manifest_def example_scope_def)

section \<open>Bundle operations\<close>

text \<open>
  C8: Applying a chain of deltas to a base gives a file that reads back as a full bundle,
  verifies, and answers each lookup with the overlay of the entries: the last delta that has the
  key decides, a tombstone there removes it, and otherwise the base decides.
\<close>

theorem apply_materialises:
  assumes "plan_apply E base deltas = Inr plan"
    and "wf_manifest (b_manifest base)" and "\<forall>b \<in> set (base # deltas). list_all wf_record (b_index b)"
    and "sha256_length E" and "uuid_16 E"
    and "cbor_roundtrip E (manifest_to_val (built_manifest E (ap_builder plan)))"
    and "length (to_cbor E (built_manifest E (ap_builder plan))) < 2 ^ 32"
    and "seal_fn (to_cbor E (built_manifest E (ap_builder plan))) = Inr seal" and "length seal < 2 ^ 32"
    and "apply_sealed E base deltas seal_fn = Inr res" and "vec_fits (ar_bytes res)"
  shows "\<exists>bundle r. from_bytes E (ar_bytes res) = Inr bundle \<and> verify_structure E bundle = Inr r \<and>
    mf_bundle_type (b_manifest bundle) = FullBundle \<and>
    (\<forall>k prefs. lookup_preferred bundle k prefs = preferred_record (materialised base deltas) k prefs)"
proof -
  let ?b = "ap_builder plan" and ?B = "built_bundle E (ap_builder plan) seal"
  have build: "build E seal_fn ?b = Inr (ar_bytes res)"
    using assms(1,10) by (auto simp: apply_sealed_def bindR_eq_Inr)
  note builder = plan_apply_builder [OF assms(1,4,2,3)]
  note fits = build_layout_fits [OF builder(1) build assms(11)]
  have "structurally_sound E ?B"
    using built_bundle_sound [OF builder(1) assms(4,5) fits assms(6)] builder(3) by simp
  then obtain r where "verify_structure E ?B = Inr r" using verify_structure_sound_iff by blast
  moreover have "sorted_index (b_index ?B)"
    using built_index_sorted [OF builder(1) fits] by (simp add: built_bundle_def Let_def)
  then have "lookup_preferred ?B k prefs = preferred_record (materialised base deltas) k prefs" for k prefs
    using preferred_record_map_option [of "entry_map (bb_entries ?b)" k Some "materialised base deltas" prefs]
    by (simp add: lookup_preferred_bundle_map built_bundle_map [OF builder(1) fits] builder(2) opt_join_def
        split: option.splits)
  moreover have "mf_bundle_type (b_manifest ?B) = FullBundle"
    using builder(3) by (simp add: built_bundle_def built_manifest_def finish_manifest_def Let_def)
  ultimately show ?thesis
    using from_bytes_build [OF builder(1) assms(4,5,6,7,8,9) build assms(11)] by blast
qed

text \<open>
  C26: An applied chain was checked link by link (types, base digest, producer, scopes, and the
  predecessor digest where a delta states one), its epoch is above every epoch of the inputs and
  every scope of the result carries it, and the result's predecessor is the last input.
\<close>

theorem apply_chain_checked:
  assumes "plan_apply E base deltas = Inr plan"
  shows "chain_accepted E base (manifest_digest E (b_manifest_bytes base)) deltas \<and>
    (\<forall>b \<in> set (base # deltas). \<forall>s \<in> set (mf_ca_scopes (b_manifest b)). cs_epoch s < ap_final_epoch plan) \<and>
    (\<forall>s \<in> set (mf_ca_scopes (bb_manifest (ap_builder plan))). cs_epoch s = ap_final_epoch plan) \<and>
    co_prev_manifest_digest (mf_continuity (bb_manifest (ap_builder plan)))
      = Some (manifest_digest E (b_manifest_bytes (last (base # deltas))))"
proof -
  obtain ws window epoch where chain: "chain_accepted E base (manifest_digest E (b_manifest_bytes base)) deltas"
    and epochs: "\<forall>b \<in> set (base # deltas). \<forall>s \<in> set (mf_ca_scopes (b_manifest b)). cs_epoch s \<le> epoch"
    and final: "unat (ap_final_epoch plan) = unat epoch + 1"
    and b: "ap_builder plan = working_set_builder ws (materialised_manifest (b_manifest base)
      (manifest_digest E (b_manifest_bytes (last (base # deltas)))) (ap_final_epoch plan) window)"
    using plan_apply_Inr [OF assms] by blast
  have "epoch < ap_final_epoch plan" using final by (simp add: word_less_nat_alt)
  then have "\<forall>b \<in> set (base # deltas). \<forall>s \<in> set (mf_ca_scopes (b_manifest b)). cs_epoch s < ap_final_epoch plan"
    using epochs by (meson order_le_less_trans)
  then show ?thesis using chain by (auto simp: b working_set_builder_simps)
qed

text \<open>
  The example: one delta that removes the second entry of the example bundle and adds one under
  another key.
\<close>

definition example_delta :: Bundle where
  "example_delta = example_bundle\<lparr>
     b_manifest := example_manifest\<lparr>mf_bundle_type := DeltaBundle,
       mf_continuity := \<lparr>co_prev_manifest_digest = None, co_base_manifest_digest = Some (replicate 32 0), co_chain_length = 1\<rparr>,
       mf_window := \<lparr>w_produced_at = 120, w_this_update_min = 110, w_next_update_min = 180, w_next_update_max = 400\<rparr>\<rparr>,
     b_index := [\<lparr>ir_entry_key = example_key_1, ir_data_offset = 0, ir_data_length = 0, ir_flags = TOMBSTONE, ir_discriminator = 3\<rparr>,
                 \<lparr>ir_entry_key = example_key_2, ir_data_offset = 0, ir_data_length = 1, ir_flags = 0, ir_discriminator = 0\<rparr>],
     b_data := [9]\<rparr>"

definition example_merged :: Manifest where
  "example_merged = materialised_manifest example_manifest (replicate 32 0) 8
     \<lparr>w_produced_at = 120, w_this_update_min = 100, w_next_update_min = 180, w_next_update_max = 180\<rparr>"

definition merge_E :: externals where
  "merge_E = example_externals (manifest_to_val example_merged)"

definition example_ws :: working_set where
  "example_ws =
     [((example_key_1, 0), ([1, 2], 0, mf_window example_manifest)),
      ((example_key_2, 0), ([9], 0, mf_window (b_manifest example_delta)))]"

definition example_plan :: ApplyPlan where
  "example_plan = \<lparr>ap_builder = working_set_builder example_ws example_merged, ap_entry_count = 2,
     ap_final_epoch = 8,
     ap_deltas = [\<lparr>ds_added = 1, ds_replaced = 0, ds_removed = 1, ds_chain_length_warning = False\<rparr>]\<rparr>"

lemma merge_E_laws [simp]:
  "sha256_length merge_E" "uuid_16 merge_E" "cbor_roundtrip merge_E (manifest_to_val example_merged)"
  "sha256 merge_E bs = replicate 32 0" "to_cbor merge_E m = [0xA0]"
  "cbor_from merge_E bs = Inr (manifest_to_val example_merged)"
  unfolding merge_E_def by (simp_all add: to_cbor_def, simp_all add: example_externals_def)

lemma wf_example_merged [simp]: "wf_manifest example_merged"
  by (simp add: example_merged_def wf_materialised_manifest)

lemma from_cbor_merged [simp]: "from_cbor merge_E bs = Inr example_merged"
  using from_cbor_to_cbor [of example_merged merge_E]
  by (simp add: from_cbor_def)

lemma example_keys_less [simp]: "example_key_1 < example_key_2" "\<not> example_key_2 < example_key_1"
  by code_simp+

lemma example_integrity [simp]: "mf_integrity example_merged = \<lparr>in_index_digest = replicate 32 0, in_data_digest = replicate 32 0\<rparr>"
  by (simp add: example_merged_def materialised_manifest_def example_manifest_def)

lemmas example_entry_simps = entry_bytes_def is_tombstone_def flags_contain_def TOMBSTONE_def
  checked_add_usize_def usize_bound_def slice_get_def record_key_def

lemma example_bundle_sound: "structurally_sound merge_E example_bundle"
  using example_bundle_sorted
  by (simp add: structurally_sound_def, simp add: example_merged_def)
    (simp add: example_bundle_def example_entry_simps)

lemma example_delta_sound: "structurally_sound merge_E example_delta"
  by (simp add: structurally_sound_def, simp add: example_merged_def)
    (simp add: example_delta_def sorted_index_def example_entry_simps)

lemma example_delta_fields [simp]:
  "mf_producer_id (b_manifest example_delta) = mf_producer_id (b_manifest example_bundle)"
  "scope_keys example_delta = scope_keys example_bundle"
  "co_base_manifest_digest (mf_continuity (b_manifest example_delta)) = Some (replicate 32 0)"
  "co_prev_manifest_digest (mf_continuity (b_manifest example_delta)) = None"
  "co_chain_length (mf_continuity (b_manifest example_delta)) = 1"
  "mf_bundle_type (b_manifest example_delta) = DeltaBundle"
  "b_manifest example_bundle = example_manifest"
  "mf_ca_scopes (b_manifest example_delta) = [example_scope]"
  "mf_ca_scopes example_manifest = [example_scope]" "cs_epoch example_scope = 7"
  by (simp_all add: example_delta_def example_bundle_def scope_keys_def)
    (simp_all add: example_manifest_def example_scope_def)

lemma example_base_ws: "base_working_set example_bundle =
    [((example_key_1, 0), ([1, 2], 0, mf_window example_manifest)),
     ((example_key_1, 3), ([3], 0, mf_window example_manifest))]"
  by (simp add: base_working_set_def example_bundle_def example_entry_simps)

lemma example_delta_ws:
  "fold (apply_record example_delta) (b_index example_delta)
     (base_working_set example_bundle, \<lparr>rc_added = 0, rc_replaced = 0, rc_removed = 0\<rparr>)
   = (example_ws, \<lparr>rc_added = 1, rc_replaced = 0, rc_removed = 1\<rparr>)"
  unfolding example_base_ws example_ws_def
  by (simp add: example_delta_def apply_record_def example_entry_simps bt_get_def)

lemma example_merge_window: "merge_window example_ws (mf_window example_manifest) = Inr (mf_window example_merged)"
  by (simp add: merge_window_def example_ws_def merge_windows_def example_merged_def)
    (simp add: example_delta_def example_manifest_def)

lemma example_plan_apply: "plan_apply merge_E example_bundle [example_delta] = Inr example_plan"
proof -
  obtain r1 r2 where v: "verify_structure merge_E example_bundle = Inr r1" "verify_structure merge_E example_delta = Inr r2"
    using verify_structure_complete example_bundle_sound example_delta_sound by blast
  show ?thesis
    using example_merge_window
    by (simp add: plan_apply_def v apply_delta_def manifest_digest_def example_delta_ws max_scope_epoch_def
        checked_add_u64_def MAX_CHAIN_LENGTH_def example_plan_def)
      (simp add: example_merged_def example_ws_def)
qed

lemma example_plan_builder:
  "wf_builder merge_E (ap_builder example_plan)"
  "built_manifest merge_E (ap_builder example_plan) = example_merged"
proof -
  show "wf_builder merge_E (ap_builder example_plan)"
    by (rule plan_apply_builder(1) [OF example_plan_apply])
      (simp_all, simp add: example_bundle_def example_delta_def wf_record_def example_key_1_def example_key_2_def
        from_bits_truncate_def MULTI_def ALIAS_def TOMBSTONE_def)
  show "built_manifest merge_E (ap_builder example_plan) = example_merged"
    by (simp add: built_manifest_def finish_manifest_def built_layout_def length_la_index Let_def
        example_plan_def working_set_builder_simps example_ws_def)
      (simp add: example_merged_def materialised_manifest_def example_manifest_def)
qed

lemma example_apply:
  "\<exists>res. apply_sealed merge_E example_bundle [example_delta] example_seal_fn = Inr res \<and> vec_fits (ar_bytes res)"
proof -
  obtain out where out: "build merge_E example_seal_fn (ap_builder example_plan) = Inr out"
    by (simp add: build_def example_seal_fn_def Let_def)
  have "length out \<le> HEADER_SIZE + 1 + 1 + (INDEX_RECORD_SIZE + 2) * 2"
    using build_length_bound [OF example_plan_builder(1) _ out, of 2 "[42]"]
    by (simp add: example_plan_def working_set_builder_simps example_ws_def example_seal_fn_def)
  then have "vec_fits out" by (simp add: vec_fits_def HEADER_SIZE_def INDEX_RECORD_SIZE_def)
  then show ?thesis using out by (simp add: apply_sealed_def example_plan_apply)
qed

theorem apply_materialises_witness:
  "\<exists>res bundle. apply_sealed merge_E example_bundle [example_delta] example_seal_fn = Inr res \<and>
     from_bytes merge_E (ar_bytes res) = Inr bundle \<and>
     lookup_preferred bundle example_key_1 [3] = Some [1, 2] \<and> lookup_preferred bundle example_key_2 [] = Some [9]"
proof -
  obtain res where res: "apply_sealed merge_E example_bundle [example_delta] example_seal_fn = Inr res" "vec_fits (ar_bytes res)"
    using example_apply by blast
  have wf: "\<forall>b \<in> set [example_bundle, example_delta]. list_all wf_record (b_index b)"
    by (simp add: example_bundle_def example_delta_def wf_record_def example_key_1_def example_key_2_def
        from_bits_truncate_def MULTI_def ALIAS_def TOMBSTONE_def)
  have m: "materialised example_bundle [example_delta] (example_key_1, 3) = None"
    "materialised example_bundle [example_delta] (example_key_1, 0) = Some [1, 2]"
    "materialised example_bundle [example_delta] (example_key_2, 0) = Some [9]"
    by (simp_all add: materialised_def apply_map_def bundle_map_def index_map_def example_bundle_def
        example_delta_def example_entry_simps opt_join_def)
  obtain B where "from_bytes merge_E (ar_bytes res) = Inr B"
    "\<forall>k prefs. lookup_preferred B k prefs = preferred_record (materialised example_bundle [example_delta]) k prefs"
    using apply_materialises [OF example_plan_apply _ wf _ _ _ _ _ _ res, of "[42]"]
    by (auto simp: example_plan_builder(2) example_seal_fn_def)
  then show ?thesis using res(1) m by (auto simp: preferred_record_def ALG_DISC_DEFAULT_def)
qed

theorem apply_chain_checked_witness:
  "chain_accepted merge_E example_bundle (replicate 32 0) [example_delta] \<and> (7 :: u64) < ap_final_epoch example_plan"
  using apply_chain_checked [OF example_plan_apply] by (simp add: manifest_digest_def)



text \<open>
  C28: The diff of two bundles with sorted indexes is the difference of the maps they stand for,
  and it reports nothing added, removed or changed exactly when the two maps are equal.
\<close>

theorem diff_exact:
  assumes "sorted_index (b_index a)" and "sorted_index (b_index b)"
  shows "dr_added (diff a b) = dom (bundle_map b) - dom (bundle_map a) \<and>
    dr_removed (diff a b) = dom (bundle_map a) - dom (bundle_map b) \<and>
    dr_changed (diff a b) = {kd \<in> dom (bundle_map a) \<inter> dom (bundle_map b). bundle_map a kd \<noteq> bundle_map b kd} \<and>
    dr_unchanged (diff a b) + card (dr_changed (diff a b)) = card (dom (bundle_map a) \<inter> dom (bundle_map b)) \<and>
    (dr_added (diff a b) = {} \<and> dr_removed (diff a b) = {} \<and> dr_changed (diff a b) = {}
       \<longleftrightarrow> bundle_map a = bundle_map b)"
  unfolding diff_bundle_map [OF assms] map_difference_empty
  using diff_unchanged [of a b] by (simp add: diff_bundle_map [OF assms] dom_bundle_map)

theorem diff_exact_witness:
  "dr_added (diff (example_bundle\<lparr>b_index := []\<rparr>) example_bundle) = {(example_key_1, 0), (example_key_1, 3)} \<and>
   dr_removed (diff (example_bundle\<lparr>b_index := []\<rparr>) example_bundle) = {}"
proof -
  have "sorted_index (b_index (example_bundle\<lparr>b_index := []\<rparr>))" by (simp add: sorted_index_def)
  moreover have "record_key ` set (b_index example_bundle) = {(example_key_1, 0), (example_key_1, 3)}"
    by (simp add: example_bundle_def record_key_def)
  ultimately show ?thesis
    using diff_exact [of "example_bundle\<lparr>b_index := []\<rparr>" example_bundle] example_bundle_sorted
    by (simp add: dom_bundle_map)
qed

section \<open>Seals\<close>

text \<open>
  C10: A seal accepted under signer pins carries the SHA-256 of these manifest bytes in its one
  message-digest attribute and a valid signature over the signed attributes by the certificate
  the signer names; that certificate is within its validity period and its DER is that of one of
  the configured pins, and the reported fingerprint is its digest.
\<close>

theorem pinned_seal_authentic:
  assumes "verify_seal_with_pins E X manifest seal pins now = Inr v"
  shows "\<exists>signer der. sealed_by E X manifest seal signer \<and>
    ct_not_before signer \<le> now \<and> now < ct_not_after signer \<and> ct_der signer = Inr der \<and>
    sv_signer_sha256 v = hex_encode E (sha256 E der) \<and>
    (\<exists>pin \<in> set pins. \<exists>c. certificate_from_der X pin = Inr c \<and> ct_der c = Inr der)"
  using verify_seal_with_pins_Inr [OF assms] .

text \<open>
  C11: A seal accepted under trust anchors is signed in the same way by a certificate that is a
  configured anchor or was signed by one; that anchor is a CA certificate, and both are within
  their validity periods.
\<close>

theorem anchored_seal_authentic:
  assumes "verify_seal_with_anchors E X manifest seal anchors now = Inr v"
  shows "\<exists>signer anchor der. sealed_by E X manifest seal signer \<and>
    ct_not_before signer \<le> now \<and> now < ct_not_after signer \<and> ct_der signer = Inr der \<and>
    sv_signer_sha256 v = hex_encode E (sha256 E der) \<and>
    (\<exists>bs \<in> set anchors. certificate_from_der X bs = Inr anchor) \<and>
    ct_basic_constraints_ca anchor = Inr (Some True) \<and>
    ct_not_before anchor \<le> now \<and> now < ct_not_after anchor \<and>
    (signer = anchor \<or> issued_by E X anchor signer)"
  using verify_seal_with_anchors_Inr [OF assms] .

definition example_cert :: Certificate where
  "example_cert =
     \<lparr>ct_der = Inr [48], ct_tbs_der = Inr [49], ct_issuer = [1], ct_subject = [1], ct_serial_number = [1],
      ct_not_before = 100, ct_not_after = 900, ct_extensions = None,
      ct_subject_key_identifier = Inr None,
      ct_key_usage = Inr None, ct_basic_constraints_ca = Inr (Some True),
      ct_signature_algorithm = (ID_ML_DSA_65_V, None), ct_tbs_signature = (ID_ML_DSA_65_V, None),
      ct_signature = Some [7], ct_spki_algorithm = ID_ML_DSA_65_V, ct_spki_curve = None,
      ct_public_key = Some [8]\<rparr>"

definition example_signed_data :: SignedData where
  "example_signed_data =
     \<lparr>sd_digest_algorithms = [ID_SHA256], sd_econtent_type = ID_DATA, sd_econtent = None,
      sd_certificates = Some [CertificateChoice example_cert],
      sd_signer_infos =
        [\<lparr>si_sid = IssuerAndSerialNumber [1] [1], si_digest_alg = ID_SHA256,
          si_signed_attrs = Some [\<lparr>at_oid = ID_CONTENT_TYPE, at_values = [[1]]\<rparr>,
                                  \<lparr>at_oid = ID_MESSAGE_DIGEST, at_values = [[2]]\<rparr>],
          si_signed_attrs_der = Inr [3], si_signature_algorithm = ID_ML_DSA_65_V, si_signature = [7]\<rparr>]\<rparr>"

definition example_cms :: cms_externals where
  "example_cms =
     \<lparr>content_info_from_der = (\<lambda>_. Inr \<lparr>ci_content_type = ID_SIGNED_DATA, ci_signed_data = Inr example_signed_data\<rparr>),
      certificate_from_der = (\<lambda>bs. if bs = [48] then Inr example_cert else Inl ''der''),
      decode_oid = (\<lambda>_. Some ID_DATA), decode_octet_string = (\<lambda>_. Inr (replicate 32 0)),
      display_name = (\<lambda>_. ''CN=seal''), p256_key_error = (\<lambda>_. Some ''key''),
      p256_signature_error = (\<lambda>_. None), p256_verify_prehash = (\<lambda>_ _ _. False),
      ml_dsa_key_ok = (\<lambda>_ k. k = [8]), ml_dsa_signature_ok = (\<lambda>_ s. s = [7]),
      ml_dsa_verify = (\<lambda>_ k m s. k = [8] \<and> s = [7])\<rparr>"

lemmas example_seal_simps = verify_seal_with_pins_def verify_seal_with_anchors_def verify_seal_def
  parse_signed_data_def seal_signer_def extract_signer_cert_def verify_message_digest_def content_type_ok_def
  verify_signature_def verify_bytes_def verify_ml_dsa_seal_def validate_cert_profile_def signer_matches_def
  example_cms_def example_signed_data_def example_cert_def exactly_one_def
  ID_SIGNED_DATA_def ID_MESSAGE_DIGEST_def ID_SHA256_def ID_DATA_def ID_CONTENT_TYPE_def
  ID_ECDSA_SHA256_V_def ID_ML_DSA_65_V_def

definition example_verification :: SealVerification where
  "example_verification = \<lparr>sv_signature_valid = True, sv_digest_matches = True, sv_signer_subject = ''CN=seal'',
     sv_signer_sha256 = hex_encode example_E (replicate 32 0)\<rparr>"

lemma example_pinned:
  "verify_seal_with_pins example_E example_cms [0xA0] [42] [[48]] 500 = Inr example_verification"
  by (simp add: example_seal_simps example_verification_def)

lemma example_anchored:
  "verify_seal_with_anchors example_E example_cms [0xA0] [42] [[48]] 500 = Inr example_verification"
  by (simp add: example_seal_simps example_verification_def)

theorem pinned_seal_authentic_witness:
  "verify_seal_with_pins example_E example_cms [0xA0] [42] [[48]] 500 = Inr example_verification \<and>
   (\<exists>signer. sealed_by example_E example_cms [0xA0] [42] signer)"
  using pinned_seal_authentic [OF example_pinned] example_pinned by blast

theorem anchored_seal_authentic_witness:
  "verify_seal_with_anchors example_E example_cms [0xA0] [42] [[48]] 500 = Inr example_verification \<and>
   (\<exists>signer anchor. sealed_by example_E example_cms [0xA0] [42] signer \<and>
      (signer = anchor \<or> issued_by example_E example_cms anchor signer))"
  using anchored_seal_authentic [OF example_anchored] example_anchored by blast

end
