(* ===== verification/Core_Config.thy ===== *)
theory Core_Config
  imports Ahu_Error Complex_Main
begin

text \<open>
  Errors and configuration of the responder core (\<^verbatim>\<open>crates/hoike-core/src/error.rs\<close> and
  \<^verbatim>\<open>config.rs\<close>): the configuration records with every field, the destination of a CA's bundle, and
  the validation of transport, labels, algorithms and seal material. A path is the list of its
  components, the root being the component \<^verbatim>\<open>/\<close>, which is how \<^verbatim>\<open>std::path\<close> compares paths and
  takes parents and file names. A floating-point setting is a rational number or not finite.
\<close>

section \<open>Paths\<close>

type_synonym path = "string list"

definition path_parent :: "path \<Rightarrow> path option" where
  "path_parent p = (if p = [] \<or> p = [''/''] then None else Some (butlast p))"

definition path_join :: "path \<Rightarrow> string \<Rightarrow> path" where
  "path_join p name = p @ [name]"

fun show_components :: "string list \<Rightarrow> string" where
  "show_components [] = ''''"
| "show_components [c] = c"
| "show_components (c # cs) = c @ ''/'' @ show_components cs"

definition show_path :: "path \<Rightarrow> string" where
  "show_path p =
     (if p \<noteq> [] \<and> hd p = ''/'' then ''/'' @ show_components (tl p) else show_components p)"

section \<open>Errors\<close>

datatype core_error =
    EmptyRequest
  | RequestTooLarge nat nat
  | EmptyRequestList
  | DerParse string string
  | GetDecode string
  | NoMatchingScope
  | BundleError ahu_error
  | ConfigError string
  | CoreEpochRollback string u64 u64
  | EpochJumpTooLarge string u64 u64 u64 u64
  | CoreForkDetected string
  | StateStoreError string
  | StateLockError string
  | DurabilityUncertain path string
  | CoreIo io_error

section \<open>Configuration records\<close>

text \<open>A double: a finite value, an infinity with its sign, or not a number.\<close>

datatype f64 = Finite rat | Infinite (positive: bool) | NaN

record GossipConfigSection =
  gc_enabled :: bool
  gc_bind :: string
  gc_seeds :: "string list"
  gc_node_name :: string
  gc_auth_mode :: string
  gc_identity_key :: "path option"
  gc_peer_keys :: "path list"
  gc_peer_identities :: "(string \<times> path) list"

record TlsConfig =
  tls_cert :: path
  tls_key :: path
  tls_client_ca :: "path option"

record WebUiConfig =
  wu_static_dir :: "path option"

record OperatorConfig =
  op_name :: string
  op_password_hash :: string
  op_role :: string

record AdminConfig =
  ac_session_ttl_secs :: u64
  ac_operators :: "OperatorConfig list"

record ServerConfig =
  sc_mode :: string
  sc_listen :: string
  sc_max_request :: nat
  sc_admin :: "AdminConfig option"
  sc_webui :: "WebUiConfig option"
  sc_metrics_listen :: "string option"
  sc_admin_listen :: "string option"
  sc_admin_tls :: "TlsConfig option"
  sc_metrics_tls :: "TlsConfig option"

record SealAuthorization =
  sa_producer_id :: string
  sa_issuer_key_hash :: string
  sa_signer_sha256 :: string

record StorageConfig =
  so_bundle_dir :: path
  so_state_db :: path
  so_seal_trust_anchors :: "path list option"
  so_seal_authorizations :: "SealAuthorization list"
  so_seal_signer_pins :: "path list"
  so_allow_unauthenticated_bundles :: bool

record KeyRotationConfigToml =
  kr_renew_before_days :: u64
  kr_check_interval_hours :: u64
  kr_rotation_command :: "string option"

record Pkcs11Config =
  pk_module :: string
  pk_token_label :: "string option"
  pk_slot_id :: "u64 option"
  pk_pin :: "string option"
  pk_pin_env :: "string option"
  pk_key_label :: "string option"
  pk_key_id :: "string option"

datatype SigningKeyConfig = KeyFile path | KeyPkcs11 Pkcs11Config | KeyDemo

record DogtagSyncConfig =
  dg_ldap_url :: string
  dg_base_dn :: string
  dg_bind_dn :: string
  dg_bind_password :: "string option"
  dg_bind_password_env :: "string option"
  dg_cookie_path :: "path option"
  dg_filter :: "string option"
  dg_tls :: string
  dg_ca_cert :: "path option"

datatype SourceConfig = SourceCrl path "path option" | SourceDogtagSync DogtagSyncConfig

record CaConfig =
  ca_label :: string
  ca_bundle_file :: "path option"
  ca_nonce_policy :: string
  ca_completeness :: string
  ca_issuer_name_hash :: "string option"
  ca_issuer_key_hash :: "string option"
  ca_forward_to :: "string option"
  ca_forward_insecure :: bool
  ca_forward_ca :: "path option"
  ca_source :: "SourceConfig option"
  ca_batch_interval :: u64
  ca_validity_secs :: u64
  ca_jitter_secs :: u64
  ca_certid_compat :: string
  ca_max_age_fraction :: f64
  ca_archive_cutoff_secs :: u64
  ca_urgent_revocation :: bool
  ca_issuer_name_der_b64 :: "string option"
  ca_issuer_key_bytes_b64 :: "string option"
  ca_sig_alg :: string
  ca_signing_key :: "SigningKeyConfig option"
  ca_responder_cert :: "path option"
  ca_key_rotation :: "KeyRotationConfigToml option"
  ca_seal_key :: "path option"
  ca_seal_cert :: "path option"

record Config =
  cf_server :: ServerConfig
  cf_storage :: StorageConfig
  cf_ca :: "CaConfig list"
  cf_gossip :: "GossipConfigSection option"

section \<open>Operations\<close>

definition is_ml_dsa :: "CaConfig \<Rightarrow> bool" where
  "is_ml_dsa ca \<longleftrightarrow> ca_sig_alg ca \<in> {''ml-dsa-44'', ''ml-dsa-65'', ''ml-dsa-87''}"

definition is_combined :: "Config \<Rightarrow> bool" where
  "is_combined c \<longleftrightarrow> sc_mode (cf_server c) = ''combined''"

definition is_signer :: "Config \<Rightarrow> bool" where
  "is_signer c \<longleftrightarrow> sc_mode (cf_server c) = ''signer''"

definition needs_signing :: "Config \<Rightarrow> bool" where
  "needs_signing c \<longleftrightarrow> is_combined c \<or> is_signer c"

fun join_strings :: "string \<Rightarrow> string list \<Rightarrow> string" where
  "join_strings sep [] = ''''"
| "join_strings sep [s] = s"
| "join_strings sep (s # ss) = s @ sep @ join_strings sep ss"

definition unsafe_label :: "string \<Rightarrow> bool" where
  "unsafe_label l \<longleftrightarrow> l = '''' \<or> l = ''.'' \<or> l = ''..'' \<or> CHR ''/'' \<in> set l \<or> CHR 0x5C \<in> set l"

definition ca_bundle_path :: "Config \<Rightarrow> CaConfig \<Rightarrow> path" where
  "ca_bundle_path c ca =
     (case ca_bundle_file ca of
        Some p \<Rightarrow> p
      | None \<Rightarrow> path_join (so_bundle_dir (cf_storage c)) (ca_label ca @ ''.ahu''))"

text \<open>\<open>canonical\<close> is \<^verbatim>\<open>Path::canonicalize\<close>, absent where it fails.\<close>

definition canonical_or_self :: "(path \<Rightarrow> path option) \<Rightarrow> path \<Rightarrow> path" where
  "canonical_or_self canonical p = (case canonical p of Some q \<Rightarrow> q | None \<Rightarrow> p)"

definition bundle_destination :: "(path \<Rightarrow> path option) \<Rightarrow> Config \<Rightarrow> string \<Rightarrow> core_error + path" where
  "bundle_destination canonical c label =
     (if cf_ca c = []
      then Inl (ConfigError
        ''no [[ca]] entries are configured - legacy unscoped configuration has no per-CA bundle destination; configure a labeled CA before producing or importing bundles'')
      else if unsafe_label label
      then Inl (ConfigError (''CA label '' @ label @ '' is not a safe bundle file name''))
      else
      bindR (ok_orR (ConfigError (''unknown CA label '' @ label @ '' - configured labels: ''
                @ join_strings '', '' (map ca_label (cf_ca c))))
              (find (\<lambda>ca. ca_label ca = label) (cf_ca c))) (\<lambda>selected.
      let destination = ca_bundle_path c selected;
          mine = canonical_or_self canonical destination in
      bindR (allR (\<lambda>ca.
          if ca_label ca = label then Inr ()
          else if canonical_or_self canonical (ca_bundle_path c ca) = mine
          then Inl (ConfigError (''CA label '' @ label @ '' destination '' @ show_path destination
                 @ '' is also configured for CA '' @ ca_label ca @ '' - give each label a distinct destination''))
          else Inr ()) (cf_ca c)) (\<lambda>_.
      Inr destination)))"

definition starts_with :: "string \<Rightarrow> string \<Rightarrow> bool" where
  "starts_with s p \<longleftrightarrow> take (length p) s = p"

definition validate_gossip :: "GossipConfigSection option \<Rightarrow> core_error + unit" where
  "validate_gossip gossip =
     (case gossip of
        None \<Rightarrow> Inr ()
      | Some g \<Rightarrow>
          if gc_peer_keys g \<noteq> []
          then Inl (ConfigError ''replace gossip.peer_keys with peer_identities mapping node names to public-key files'')
          else if gc_auth_mode g \<notin> {''required'', ''permissive''}
          then Inl (ConfigError (''gossip.auth_mode must be required or permissive (got '' @ gc_auth_mode g @ '')''))
          else Inr ())"

fun validate_labels :: "string set \<Rightarrow> CaConfig list \<Rightarrow> core_error + unit" where
  "validate_labels seen [] = Inr ()"
| "validate_labels seen (ca # cas) =
     (if unsafe_label (ca_label ca) \<or> ca_label ca \<in> seen
      then Inl (ConfigError ''CA labels must be unique nonempty file names'')
      else if (case ca_forward_to ca of
                 None \<Rightarrow> False
               | Some url \<Rightarrow> \<not> starts_with url ''https://'' \<and> \<not> (ca_forward_insecure ca \<and> starts_with url ''http://''))
      then Inl (ConfigError (''CA '' @ ca_label ca
             @ '': forward_to requires https:// (or explicit forward_insecure for http://)''))
      else validate_labels (insert (ca_label ca) seen) cas)"

definition fraction_ok :: "f64 \<Rightarrow> bool" where
  "fraction_ok x \<longleftrightarrow> (case x of Finite r \<Rightarrow> 0 < r \<and> r \<le> 1 | _ \<Rightarrow> False)"

definition validate_algorithms :: "CaConfig \<Rightarrow> core_error + unit" where
  "validate_algorithms ca =
     (if ca_sig_alg ca \<notin> {''ecdsa-p256'', ''ml-dsa-44'', ''ml-dsa-65'', ''ml-dsa-87''}
      then Inl (ConfigError (''CA '' @ ca_label ca @ '' has invalid sig_alg '' @ ca_sig_alg ca
             @ '' - expected one of: ecdsa-p256, ml-dsa-44, ml-dsa-65, ml-dsa-87''))
      else if is_ml_dsa ca \<and> ca_nonce_policy ca = ''live''
      then Inl (ConfigError (''CA '' @ ca_label ca @ '': nonce_policy=live is not yet supported with ''
             @ ca_sig_alg ca @ '' signing''))
      else if ca_certid_compat ca \<notin> {''dual'', ''sha256'', ''sha1''}
      then Inl (ConfigError (''CA '' @ ca_label ca @ '' has invalid certid_compat '' @ ca_certid_compat ca
             @ '' - expected one of: dual, sha256, sha1''))
      else if \<not> fraction_ok (ca_max_age_fraction ca)
      then Inl (ConfigError (''CA '' @ ca_label ca @ '' has invalid max_age_fraction - must be in the range (0, 1]''))
      else Inr ())"

definition validate_signing :: "string \<Rightarrow> CaConfig \<Rightarrow> core_error + unit" where
  "validate_signing mode ca =
     (if ca_source ca = None
      then Inl (ConfigError (''CA '' @ ca_label ca @ '' has no source configured, required for '' @ mode @ '' mode''))
      else if ca_signing_key ca = None
      then Inl (ConfigError (''CA '' @ ca_label ca @ '' has no signing_key configured, required for '' @ mode @ '' mode''))
      else case (ca_seal_key ca, ca_seal_cert ca) of
             (None, None) \<Rightarrow>
               if ca_signing_key ca \<noteq> Some KeyDemo
               then Inl (ConfigError (''CA '' @ ca_label ca
                      @ '': production signing requires a persistent seal_key and seal_cert pair''))
               else Inr ()
           | (Some _, Some _) \<Rightarrow> Inr ()
           | _ \<Rightarrow> Inl (ConfigError (''CA '' @ ca_label ca @ '': seal_key and seal_cert must be configured together'')))"

definition validate_for_mode :: "Config \<Rightarrow> core_error + unit" where
  "validate_for_mode c =
     bindR (validate_gossip (cf_gossip c)) (\<lambda>_.
     bindR (validate_labels {} (cf_ca c)) (\<lambda>_.
     bindR (allR validate_algorithms (cf_ca c)) (\<lambda>_.
     if needs_signing c
     then bindR (allR (validate_signing (sc_mode (cf_server c))) (cf_ca c)) (\<lambda>_.
          if cf_ca c = []
          then Inl (ConfigError (sc_mode (cf_server c) @ '' mode requires at least one [[ca]] with a source''))
          else Inr ())
     else Inr ())))"

definition validate_transport :: "Config \<Rightarrow> bool \<Rightarrow> core_error + unit" where
  "validate_transport c tls_supported =
     (let s = cf_server c in
      if (sc_admin_tls s \<noteq> None \<or> sc_metrics_tls s \<noteq> None) \<and> \<not> tls_supported
      then Inl (ConfigError ''TLS configured but this binary was built without the tls feature'')
      else if sc_admin_tls s \<noteq> None \<and> sc_admin_listen s = None
      then Inl (ConfigError ''admin_tls requires admin_listen; refusing plaintext management fallback'')
      else if sc_metrics_tls s \<noteq> None \<and> sc_metrics_listen s = None
      then Inl (ConfigError ''metrics_tls requires metrics_listen'')
      else validate_for_mode c)"

section \<open>What validation establishes\<close>

lemma validate_labels_Inr:
  "validate_labels seen cas = Inr u \<longleftrightarrow>
     distinct (map ca_label cas) \<and> set (map ca_label cas) \<inter> seen = {} \<and>
     (\<forall>ca \<in> set cas. \<not> unsafe_label (ca_label ca) \<and>
        (\<forall>url. ca_forward_to ca = Some url \<longrightarrow>
           starts_with url ''https://'' \<or> ca_forward_insecure ca \<and> starts_with url ''http://''))"
proof (induction cas arbitrary: seen)
  case (Cons ca cas)
  then show ?case by (cases "ca_forward_to ca") (auto split: if_splits)
qed simp

lemma validate_signing_Inr:
  "validate_signing mode ca = Inr u \<longleftrightarrow>
     ca_source ca \<noteq> None \<and> ca_signing_key ca \<noteq> None \<and>
     (ca_seal_key ca \<noteq> None \<and> ca_seal_cert ca \<noteq> None \<or>
      ca_seal_key ca = None \<and> ca_seal_cert ca = None \<and> ca_signing_key ca = Some KeyDemo)"
  by (auto simp: validate_signing_def split: option.splits)

lemma validate_for_mode_Inr:
  "validate_for_mode c = Inr u \<longleftrightarrow>
     validate_gossip (cf_gossip c) = Inr () \<and> validate_labels {} (cf_ca c) = Inr () \<and>
     (\<forall>ca \<in> set (cf_ca c). validate_algorithms ca = Inr ()) \<and>
     (needs_signing c \<longrightarrow> cf_ca c \<noteq> [] \<and> (\<forall>ca \<in> set (cf_ca c). validate_signing (sc_mode (cf_server c)) ca = Inr ()))"
  by (auto simp: validate_for_mode_def bindR_eq_Inr allR_eq_Inr)

text \<open>Two labels of a configuration never share a destination once both resolve.\<close>

lemma bundle_destination_Inr:
  assumes "bundle_destination canonical c label = Inr p"
  shows "\<exists>ca \<in> set (cf_ca c). ca_label ca = label \<and> p = ca_bundle_path c ca"
    and "\<not> unsafe_label label"
    and "\<lbrakk>other \<in> set (cf_ca c); ca_label other \<noteq> label\<rbrakk> \<Longrightarrow>
       canonical_or_self canonical (ca_bundle_path c other) \<noteq> canonical_or_self canonical p"
  using assms
  by (auto simp: bundle_destination_def Let_def bindR_eq_Inr ok_orR_eq_Inr allR_eq_Inr find_Some_iff
      split: if_splits dest!: nth_mem)

end
