(* ===== verification/Core_Storage.thy ===== *)
theory Core_Storage
  imports Core_Config "HOL-Library.AList"
begin

text \<open>
  The file system the responder writes to, and \<^verbatim>\<open>crates/hoike-core/src/storage.rs\<close>: the exclusive
  lock of the state directory and the atomic replacement of a file. A file system holds the contents
  a reader sees now, what is known to survive a crash, the directories and the holder of each lock.
  The outcome of every system call of a write is an argument (\<open>WriteOutcome\<close>), so that each early
  return of the source is a branch; an operation is a function from a file system to a result and
  the file system it leaves.
\<close>

section \<open>The file system\<close>

record fs =
  fs_store :: "(path \<times> bytes) list"
  fs_directories :: "path list"
  fs_durable :: "path \<Rightarrow> bytes option"
  fs_locks :: "path \<Rightarrow> nat option"
  fs_tmp_counter :: u64
  fs_calls :: nat

definition fs_files :: "fs \<Rightarrow> path \<Rightarrow> bytes option" where
  "fs_files s = map_of (fs_store s)"

definition fs_dirs :: "fs \<Rightarrow> path \<Rightarrow> bool" where
  "fs_dirs s d \<longleftrightarrow> d \<in> set (fs_directories s)"

text \<open>The names in a directory, in no particular order.\<close>

definition read_dir :: "path \<Rightarrow> fs \<Rightarrow> string list" where
  "read_dir d s =
     map last (filter (\<lambda>p. p \<noteq> [] \<and> butlast p = d) (map fst (fs_store s) @ fs_directories s))"

definition path_exists :: "path \<Rightarrow> fs \<Rightarrow> bool" where
  "path_exists p s \<longleftrightarrow> fs_files s p \<noteq> None \<or> fs_dirs s p"

type_synonym 'a io = "fs \<Rightarrow> (core_error + 'a) \<times> fs"

definition returnIO :: "'a \<Rightarrow> 'a io" where
  "returnIO x = (\<lambda>s. (Inr x, s))"

definition failIO :: "core_error \<Rightarrow> 'a io" where
  "failIO e = (\<lambda>s. (Inl e, s))"

definition liftIO :: "core_error + 'a \<Rightarrow> 'a io" where
  "liftIO r = (\<lambda>s. (r, s))"

definition readIO :: "(fs \<Rightarrow> core_error + 'a) \<Rightarrow> 'a io" where
  "readIO f = (\<lambda>s. (f s, s))"

definition bindIO :: "'a io \<Rightarrow> ('a \<Rightarrow> 'b io) \<Rightarrow> 'b io" where
  "bindIO m f = (\<lambda>s. case m s of (Inl e, s') \<Rightarrow> (Inl e, s') | (Inr x, s') \<Rightarrow> f x s')"

definition modifyIO :: "(fs \<Rightarrow> fs) \<Rightarrow> unit io" where
  "modifyIO g = (\<lambda>s. (Inr (), g s))"

text \<open>A loop over a list that threads a value and the file system and stops at the first error.\<close>

fun foldIO :: "('a \<Rightarrow> 'b \<Rightarrow> 'b io) \<Rightarrow> 'a list \<Rightarrow> 'b \<Rightarrow> 'b io" where
  "foldIO f [] b = returnIO b"
| "foldIO f (x # xs) b = bindIO (f x b) (foldIO f xs)"

section \<open>Writing atomically\<close>

text \<open>
  What the operating system answers to the calls of one \<^verbatim>\<open>write_atomic\<close>: an error for a call that
  fails, \<open>None\<close> for one that succeeds. A failing \<^verbatim>\<open>write_all\<close> leaves a prefix of the bytes; the
  final clean-up may fail as well.
\<close>

record WriteOutcome =
  wo_create_dir :: "io_error option"
  wo_open :: "io_error option"
  wo_write :: "(io_error \<times> nat) option"
  wo_sync :: "io_error option"
  wo_rename :: "io_error option"
  wo_dir_sync :: "io_error option"
  wo_remove_fails :: bool

definition write_succeeds :: WriteOutcome where
  "write_succeeds = \<lparr>wo_create_dir = None, wo_open = None, wo_write = None, wo_sync = None,
     wo_rename = None, wo_dir_sync = None, wo_remove_fails = False\<rparr>"

definition write_parent :: "path \<Rightarrow> path" where
  "write_parent p = (case path_parent p of Some (c # cs) \<Rightarrow> c # cs | _ \<Rightarrow> [''.''])"

definition tmp_name :: "nat \<Rightarrow> u64 \<Rightarrow> string" where
  "tmp_name pid n = ''.hoike-'' @ show_nat pid @ ''-'' @ show_nat (unat n) @ ''.tmp''"

definition set_file :: "path \<Rightarrow> bytes option \<Rightarrow> fs \<Rightarrow> fs" where
  "set_file p c s =
     s\<lparr>fs_store := (case c of Some b \<Rightarrow> AList.update p b (fs_store s) | None \<Rightarrow> AList.delete p (fs_store s))\<rparr>"

definition add_dirs :: "path \<Rightarrow> fs \<Rightarrow> fs" where
  "add_dirs p s =
     s\<lparr>fs_directories := fs_directories s
        @ filter (\<lambda>d. \<not> fs_dirs s d) (map (\<lambda>n. take n p) [1..<Suc (length p)])\<rparr>"

definition rename_file :: "path \<Rightarrow> path \<Rightarrow> fs \<Rightarrow> fs" where
  "rename_file a b s = set_file a None (set_file b (fs_files s a) s)"

definition sync_entry :: "path \<Rightarrow> fs \<Rightarrow> fs" where
  "sync_entry p s = s\<lparr>fs_durable := (fs_durable s)(p := fs_files s p)\<rparr>"

definition write_steps :: "WriteOutcome \<Rightarrow> path \<Rightarrow> path \<Rightarrow> bytes \<Rightarrow> unit io" where
  "write_steps w tmp path bytes = (\<lambda>s.
     case wo_open w of Some e \<Rightarrow> (Inl (CoreIo e), s) | None \<Rightarrow>
     if fs_files s tmp \<noteq> None then (Inl (CoreIo (IoOther ''file exists'')), s) else
     let s1 = set_file tmp (Some []) s in
     case wo_write w of Some (e, n) \<Rightarrow> (Inl (CoreIo e), set_file tmp (Some (take n bytes)) s1) | None \<Rightarrow>
     let s2 = set_file tmp (Some bytes) s1 in
     case wo_sync w of Some e \<Rightarrow> (Inl (CoreIo e), s2) | None \<Rightarrow>
     case wo_rename w of Some e \<Rightarrow> (Inl (CoreIo e), s2) | None \<Rightarrow>
     if fs_dirs s2 path then (Inl (CoreIo (IoOther ''is a directory'')), s2) else
     let s3 = rename_file tmp path s2 in
     case wo_dir_sync w of
       Some e \<Rightarrow> (Inl (DurabilityUncertain path ''directory fsync failed after replacing the file''), s3)
     | None \<Rightarrow> (Inr (), sync_entry path s3))"

text \<open>
  \<open>create_new\<close> fails on an existing temporary file; that file is then removed by the clean-up like
  one the call made itself.
\<close>

definition write_atomic :: "WriteOutcome \<Rightarrow> nat \<Rightarrow> path \<Rightarrow> bytes \<Rightarrow> unit io" where
  "write_atomic w pid path bytes = (\<lambda>s.
     let parent = write_parent path in
     case wo_create_dir w of
       Some e \<Rightarrow> (Inl (StateStoreError (''cannot create directory '' @ show_path parent)), s)
     | None \<Rightarrow>
       let tmp = path_join parent (tmp_name pid (fs_tmp_counter s));
           s' = (add_dirs parent s)\<lparr>fs_tmp_counter := fs_tmp_counter s + 1\<rparr>;
           (result, s'') = write_steps w tmp path bytes s' in
       case result of
         Inr _ \<Rightarrow> (result, s'')
       | Inl _ \<Rightarrow> (result, if wo_remove_fails w then s'' else set_file tmp None s''))"

section \<open>The writer lock\<close>

record StateDirectoryLock =
  sl_state_dir :: path

definition WRITER_LOCK_FILE :: string where
  "WRITER_LOCK_FILE = ''.writer.lock''"

record LockOutcome =
  lo_create_dir :: "io_error option"
  lo_open :: "io_error option"
  lo_flock :: "io_error option"

text \<open>\<^verbatim>\<open>flock\<close> grants an exclusive lock that nobody holds, and refuses one that is held.\<close>

definition lock_exclusive :: "LockOutcome \<Rightarrow> nat \<Rightarrow> path \<Rightarrow> unit io" where
  "lock_exclusive w pid lock_path = (\<lambda>s.
     case lo_flock w of
       Some e \<Rightarrow> (Inl (StateLockError (''failed to lock '' @ show_path lock_path)), s)
     | None \<Rightarrow>
       if fs_locks s lock_path \<noteq> None
       then (Inl (StateLockError (''another writer process holds the state directory lock '' @ show_path lock_path)), s)
       else (Inr (), s\<lparr>fs_locks := (fs_locks s)(lock_path := Some pid)\<rparr>))"

definition acquire :: "LockOutcome \<Rightarrow> (path \<Rightarrow> path option) \<Rightarrow> nat \<Rightarrow> path \<Rightarrow> StateDirectoryLock io" where
  "acquire w canonical pid state_dir = (\<lambda>s.
     case lo_create_dir w of
       Some e \<Rightarrow> (Inl (StateLockError (''failed to create state directory '' @ show_path state_dir)), s)
     | None \<Rightarrow>
     let s1 = add_dirs state_dir s in
     case canonical state_dir of
       None \<Rightarrow> (Inl (StateLockError (''failed to resolve state directory '' @ show_path state_dir)), s1)
     | Some dir \<Rightarrow>
     let lock_path = path_join dir WRITER_LOCK_FILE in
     case lo_open w of
       Some e \<Rightarrow> (Inl (StateLockError (''failed to open writer lock '' @ show_path lock_path)), s1)
     | None \<Rightarrow>
     let s2 = (if fs_files s1 lock_path = None then set_file lock_path (Some []) s1 else s1) in
     case lock_exclusive w pid lock_path s2 of
       (Inl e, s3) \<Rightarrow> (Inl e, s3)
     | (Inr _, s3) \<Rightarrow> (Inr \<lparr>sl_state_dir = dir\<rparr>, s3))"

text \<open>Dropping the last reference to a guard closes its file and releases the lock.\<close>

definition release :: "StateDirectoryLock \<Rightarrow> fs \<Rightarrow> fs" where
  "release g s = s\<lparr>fs_locks := (fs_locks s)(path_join (sl_state_dir g) WRITER_LOCK_FILE := None)\<rparr>"

section \<open>Facts about the file system\<close>

lemma bindIO_eq_Inr:
  "bindIO m f s = (Inr y, s') \<longleftrightarrow> (\<exists>x s1. m s = (Inr x, s1) \<and> f x s1 = (Inr y, s'))"
  by (auto simp: bindIO_def split: prod.splits sum.splits)

lemma bindIO_eq_Inl:
  "bindIO m f s = (Inl e, s') \<longleftrightarrow>
     m s = (Inl e, s') \<or> (\<exists>x s1. m s = (Inr x, s1) \<and> f x s1 = (Inl e, s'))"
  by (auto simp: bindIO_def split: prod.splits sum.splits)

lemma liftIO_eq [simp]: "liftIO r s = (x, s') \<longleftrightarrow> r = x \<and> s' = s"
  by (auto simp: liftIO_def)

lemma readIO_eq [simp]: "readIO f s = (x, s') \<longleftrightarrow> f s = x \<and> s' = s"
  by (auto simp: readIO_def)

lemma returnIO_eq [simp]: "returnIO v s = (x, s') \<longleftrightarrow> x = Inr v \<and> s' = s"
  by (auto simp: returnIO_def)

lemma failIO_eq [simp]: "failIO e s = (x, s') \<longleftrightarrow> x = Inl e \<and> s' = s"
  by (auto simp: failIO_def)

lemma modifyIO_eq [simp]: "modifyIO g s = (x, s') \<longleftrightarrow> x = Inr () \<and> s' = g s"
  by (auto simp: modifyIO_def)

lemmas io_inverts = bindIO_eq_Inr bindIO_eq_Inl

lemma fs_update [simp]:
  "fs_files (s\<lparr>fs_tmp_counter := n\<rparr>) = fs_files s" "fs_dirs (s\<lparr>fs_tmp_counter := n\<rparr>) = fs_dirs s"
  "fs_files (s\<lparr>fs_calls := m\<rparr>) = fs_files s" "fs_dirs (s\<lparr>fs_calls := m\<rparr>) = fs_dirs s"
  "fs_files (s\<lparr>fs_durable := d\<rparr>) = fs_files s" "fs_dirs (s\<lparr>fs_durable := d\<rparr>) = fs_dirs s"
  "fs_files (s\<lparr>fs_locks := l\<rparr>) = fs_files s" "fs_dirs (s\<lparr>fs_locks := l\<rparr>) = fs_dirs s"
  by (simp_all add: fs_files_def fs_dirs_def fun_eq_iff)

lemma fs_set_file [simp]:
  "fs_files (set_file p c s) = (fs_files s)(p := c)"
  "fs_durable (set_file p c s) = fs_durable s"
  "fs_dirs (set_file p c s) = fs_dirs s"
  "fs_locks (set_file p c s) = fs_locks s"
  by (simp_all add: set_file_def fs_files_def fs_dirs_def fun_eq_iff update_conv' delete_conv' split: option.splits)

lemma fs_add_dirs [simp]:
  "fs_files (add_dirs p s) = fs_files s"
  "fs_durable (add_dirs p s) = fs_durable s"
  "fs_locks (add_dirs p s) = fs_locks s"
  by (simp_all add: add_dirs_def fs_files_def)

lemma fs_rename [simp]:
  "fs_files (rename_file a b s) = (fs_files s)(b := fs_files s a, a := None)"
  "fs_durable (rename_file a b s) = fs_durable s"
  "fs_locks (rename_file a b s) = fs_locks s"
  by (simp_all add: rename_file_def)

lemma fs_sync_entry [simp]:
  "fs_files (sync_entry p s) = fs_files s"
  "fs_durable (sync_entry p s) = (fs_durable s)(p := fs_files s p)"
  "fs_locks (sync_entry p s) = fs_locks s"
  by (simp_all add: sync_entry_def fs_files_def)

text \<open>The names of temporary files: every path that a write may touch besides its target.\<close>

definition is_tmp_name :: "string \<Rightarrow> bool" where
  "is_tmp_name n \<longleftrightarrow> starts_with n ''.hoike-''"

definition is_tmp :: "path \<Rightarrow> bool" where
  "is_tmp p \<longleftrightarrow> p \<noteq> [] \<and> is_tmp_name (last p)"

lemma is_tmp_name_tmp [simp]: "is_tmp_name (tmp_name pid n)"
  by (simp add: is_tmp_name_def tmp_name_def starts_with_def)

lemma is_tmp_join [simp]: "is_tmp (path_join d (tmp_name pid n))"
  by (simp add: is_tmp_def path_join_def)

text \<open>
  The three outcomes of a write. Before the rename nothing but a temporary file has changed; after
  it the target holds the new bytes, durably when the directory was synced.
\<close>

lemma write_atomic_cases:
  assumes "write_atomic w pid path bytes s = (r, s')" and "\<not> is_tmp path"
  shows "(r = Inr () \<and> fs_files s' path = Some bytes \<and> fs_durable s' path = Some bytes) \<or>
         (\<exists>d m. r = Inl (DurabilityUncertain d m) \<and> fs_files s' path = Some bytes \<and> fs_durable s' path = fs_durable s path) \<or>
         (\<exists>e. r = Inl e \<and> (\<forall>d m. e \<noteq> DurabilityUncertain d m) \<and>
              fs_files s' path = fs_files s path \<and> fs_durable s' path = fs_durable s path)"
proof -
  have "path_join (write_parent path) (tmp_name pid (fs_tmp_counter s)) \<noteq> path"
    using assms(2) is_tmp_join by metis
  then show ?thesis
    using assms(1)
    by (auto simp: write_atomic_def write_steps_def Let_def
        split: option.splits prod.splits sum.splits if_splits)
qed

lemma write_atomic_frame:
  assumes "write_atomic w pid path bytes s = (r, s')" and "p \<noteq> path" and "\<not> is_tmp p"
  shows "fs_files s' p = fs_files s p" and "fs_durable s' p = fs_durable s p"
proof -
  have "path_join (write_parent path) (tmp_name pid (fs_tmp_counter s)) \<noteq> p"
    using assms(3) is_tmp_join by metis
  then show "fs_files s' p = fs_files s p" "fs_durable s' p = fs_durable s p"
    using assms(1,2)
    by (auto simp: write_atomic_def write_steps_def Let_def
        split: option.splits prod.splits sum.splits if_splits)
qed

lemma write_atomic_locks:
  assumes "write_atomic w pid path bytes s = (r, s')"
  shows "fs_locks s' = fs_locks s"
  using assms
  by (auto simp: write_atomic_def write_steps_def Let_def
      split: option.splits prod.splits sum.splits if_splits)

text \<open>A write whose system calls all succeed does replace its target.\<close>

lemma write_parent_butlast: "1 < length p \<Longrightarrow> write_parent p = butlast p"
  by (cases p rule: rev_cases) (auto simp: write_parent_def path_parent_def split: list.splits)

lemma add_dirs_shorter:
  assumes "length d < length p"
  shows "fs_dirs (add_dirs d s) p = fs_dirs s p"
  using assms by (auto simp: add_dirs_def fs_dirs_def)

lemma write_atomic_succeeds:
  assumes "\<not> fs_dirs s path" and "1 < length path"
    and "fs_files s (path_join (write_parent path) (tmp_name pid (fs_tmp_counter s))) = None"
  shows "fst (write_atomic write_succeeds pid path bytes s) = Inr ()"
proof -
  have "\<not> fs_dirs (add_dirs (write_parent path) s) path"
    using assms(1,2) by (simp add: add_dirs_shorter write_parent_butlast)
  then show ?thesis
    using assms(3) by (simp add: write_atomic_def write_steps_def write_succeeds_def Let_def)
qed

section \<open>One writer per state directory\<close>

text \<open>
  Processes acquire and drop guards and write files; a step lists the guards that are alive. The
  lock file is never unlinked, so a guard keeps its lock until it is dropped.
\<close>

inductive lock_step :: "StateDirectoryLock list \<times> fs \<Rightarrow> StateDirectoryLock list \<times> fs \<Rightarrow> bool" where
  acquired: "acquire w canonical pid dir s = (Inr g, s') \<Longrightarrow> lock_step (gs, s) (g # gs, s')"
| refused: "acquire w canonical pid dir s = (Inl e, s') \<Longrightarrow> lock_step (gs, s) (gs, s')"
| dropped: "g \<in> set gs \<Longrightarrow> lock_step (gs, s) (remove1 g gs, release g s)"
| written: "write_atomic w pid path bytes s = (r, s') \<Longrightarrow> lock_step (gs, s) (gs, s')"

definition guard_path :: "StateDirectoryLock \<Rightarrow> path" where
  "guard_path g = path_join (sl_state_dir g) WRITER_LOCK_FILE"

definition guards_hold :: "StateDirectoryLock list \<Rightarrow> fs \<Rightarrow> bool" where
  "guards_hold gs s \<longleftrightarrow> distinct (map sl_state_dir gs) \<and> (\<forall>g \<in> set gs. fs_locks s (guard_path g) \<noteq> None)"

lemma guard_path_inject: "guard_path g = guard_path h \<longleftrightarrow> sl_state_dir g = sl_state_dir h"
  by (simp add: guard_path_def path_join_def)

lemma acquire_Inr:
  assumes "acquire w canonical pid dir s = (Inr g, s')"
  shows "canonical dir = Some (sl_state_dir g)" and "fs_locks s (guard_path g) = None"
    and "fs_locks s' = (fs_locks s)(guard_path g := Some pid)"
  using assms
  by (auto simp: acquire_def lock_exclusive_def guard_path_def Let_def split: option.splits if_splits)

lemma acquire_Inl_locks: "acquire w canonical pid dir s = (Inl e, s') \<Longrightarrow> fs_locks s' = fs_locks s"
  by (auto simp: acquire_def lock_exclusive_def Let_def split: option.splits if_splits)

lemma acquire_held:
  assumes "canonical dir = Some (sl_state_dir g)" and "fs_locks s (guard_path g) \<noteq> None"
  shows "\<exists>e. fst (acquire w canonical pid dir s) = Inl e"
  using assms by (auto simp: acquire_def lock_exclusive_def guard_path_def Let_def split: option.splits)

lemma lock_step_guards:
  assumes "lock_step (gs, s) (gs', s')" and "guards_hold gs s"
  shows "guards_hold gs' s'"
  using assms
proof (cases rule: lock_step.cases)
  case (acquired w canonical pid dir g)
  then have "\<forall>h \<in> set gs. guard_path h \<noteq> guard_path g"
    using assms(2) acquire_Inr(2) [OF acquired(2)] by (metis guards_hold_def)
  then show ?thesis
    using assms(2) acquired(1) acquire_Inr(3) [OF acquired(2)] by (auto simp: guards_hold_def guard_path_inject)
next
  case (refused w canonical pid dir e)
  then show ?thesis using assms(2) acquire_Inl_locks by (simp add: guards_hold_def)
next
  case (dropped g)
  have "sl_state_dir h \<noteq> sl_state_dir g" if "h \<in> set (remove1 g gs)" for h
  proof -
    have "h \<in> set gs" "h \<noteq> g"
      using that assms(2) by (auto simp: guards_hold_def distinct_map set_remove1_eq)
    then show ?thesis using assms(2) dropped(3) by (auto simp: guards_hold_def distinct_map inj_on_def)
  qed
  then show ?thesis
    using assms(2) dropped(1,2) set_remove1_subset [of g gs]
    by (auto simp: guards_hold_def release_def guard_path_def path_join_def distinct_map inj_on_subset distinct_remove1)
next
  case (written w pid path bytes r)
  then show ?thesis using assms(2) write_atomic_locks by (simp add: guards_hold_def)
qed

lemma lock_steps_guards:
  "lock_step\<^sup>*\<^sup>* (gs, s) (gs', s') \<Longrightarrow> guards_hold gs s \<Longrightarrow> guards_hold gs' s'"
  by (induction rule: rtranclp_induct2) (auto intro: lock_step_guards)

end
