(* ===== verification/Core_State.thy ===== *)
theory Core_State
  imports Core_Storage Ahu_Seal Ahu_Verify
begin

text \<open>
  The anti-rollback store (\<^verbatim>\<open>crates/hoike-core/src/state.rs\<close>): the high-water epoch and the manifest
  digest recorded for each producer and issuer key, the committed bundle snapshots, and the
  operations that open, check, advance, stage, snapshot and commit them. A hash map is an
  association list whose order stands for the unspecified iteration order. The functions of
  \<^verbatim>\<open>serde_json\<close>, the outcome of each system call and the libraries of the \<^verbatim>\<open>ahu\<close> crate are the fields
  of one environment record.

  The locale \<open>epoch_guard\<close> is the contract between this store and the code that loads bundles:
  whatever sequence of bundles is accepted and recorded, no scope goes back to an older epoch and no
  two different manifests are accepted for one scope and epoch.
\<close>

section \<open>State\<close>

record PersistedState =
  ps_high_water_marks :: "(string \<times> u64) list"
  ps_manifest_digests :: "(string \<times> string) list"
  ps_active_bundles :: "(string \<times> path) list"

definition make_key :: "string \<Rightarrow> string \<Rightarrow> string" where
  "make_key producer_id issuer_key_hash_hex = producer_id @ '':'' @ issuer_key_hash_hex"

record StateStore =
  st_path :: path
  st_state :: PersistedState
  st_staged :: bool

definition MAX_EPOCH_JUMP :: u64 where
  "MAX_EPOCH_JUMP = 10000"

text \<open>
  The environment. \<open>ce_json_from\<close> reads a whole file: it fails on bytes that are not UTF-8 or not the
  JSON of a state. \<open>ce_write\<close> gives the outcome of the n-th atomic write. \<open>ce_now\<close> is the clock in
  Unix seconds, absent when it is set before 1970.
\<close>

record core_env =
  ce_ahu :: externals
  ce_cms :: cms_externals
  ce_json_to :: "PersistedState \<Rightarrow> string + bytes"
  ce_json_from :: "bytes \<Rightarrow> string + PersistedState"
  ce_cert_from_pem :: "bytes \<Rightarrow> string + Certificate"
  ce_canonicalize :: "path \<Rightarrow> path option"
  ce_write :: "nat \<Rightarrow> WriteOutcome"
  ce_create_dir :: "path \<Rightarrow> io_error option"
  ce_read_dir :: "path \<Rightarrow> io_error option"
  ce_unlink_fails :: "path \<Rightarrow> bool"
  ce_pid :: nat
  ce_now :: "u64 option"

definition json_roundtrip :: "core_env \<Rightarrow> PersistedState \<Rightarrow> bool" where
  "json_roundtrip N st \<longleftrightarrow> (\<exists>bs. ce_json_to N st = Inr bs \<and> ce_json_from N bs = Inr st)"

definition write_next :: "core_env \<Rightarrow> path \<Rightarrow> bytes \<Rightarrow> unit io" where
  "write_next N path bytes = (\<lambda>s.
     write_atomic (ce_write N (fs_calls s)) (ce_pid N) path bytes (s\<lparr>fs_calls := Suc (fs_calls s)\<rparr>))"

definition read_file :: "path \<Rightarrow> fs \<Rightarrow> io_error + bytes" where
  "read_file p s = ok_orR (IoOther ''no such file'') (fs_files s p)"

section \<open>File names\<close>

definition path_file_name :: "path \<Rightarrow> string option" where
  "path_file_name p =
     (if p = [] \<or> last p \<in> {''/'', ''.'', ''..''} then None else Some (last p))"

definition split_extension :: "string \<Rightarrow> string \<times> string option" where
  "split_extension name =
     (let ext = takeWhile (\<lambda>c. c \<noteq> CHR ''.'') (rev name);
          rest = dropWhile (\<lambda>c. c \<noteq> CHR ''.'') (rev name) in
      if rest = [] \<or> tl rest = [] then (name, None) else (rev (tl rest), Some (rev ext)))"

definition path_file_stem :: "path \<Rightarrow> string option" where
  "path_file_stem p = map_option (fst \<circ> split_extension) (path_file_name p)"

definition path_extension :: "path \<Rightarrow> string option" where
  "path_extension p = (case path_file_name p of None \<Rightarrow> None | Some n \<Rightarrow> snd (split_extension n))"

section \<open>Opening and initialising\<close>

definition validate_digest :: "core_env \<Rightarrow> PersistedState \<Rightarrow> string \<times> string \<Rightarrow> core_error + unit" where
  "validate_digest N st = (\<lambda>(key, digest_hex).
     bindR (map_errR (\<lambda>e. StateStoreError (''manifest digest for '' @ key @ '' is not valid hex: '' @ e))
              (hex_decode (ce_ahu N) digest_hex)) (\<lambda>decoded.
     if length decoded \<noteq> 32
     then Inl (StateStoreError (''manifest digest for '' @ key @ '' has '' @ show_nat (length decoded) @ '' bytes, expected 32''))
     else if map_of (ps_high_water_marks st) key = None
     then Inl (StateStoreError (''manifest digest for '' @ key @ '' has no high-water record''))
     else Inr ()))"

definition validate_mark :: "PersistedState \<Rightarrow> string \<times> u64 \<Rightarrow> core_error + unit" where
  "validate_mark st = (\<lambda>(key, _).
     if map_of (ps_manifest_digests st) key = None
     then Inl (StateStoreError (''high-water mark for '' @ key @ '' has no manifest digest record''))
     else Inr ())"

definition scope_key :: "externals \<Rightarrow> Manifest \<Rightarrow> CaScope \<Rightarrow> string" where
  "scope_key E m scope = make_key (mf_producer_id m) (hex_encode E (cs_issuer_key_hash scope))"

definition validate_snapshot_scope :: "core_env \<Rightarrow> PersistedState \<Rightarrow> string \<Rightarrow> Manifest \<Rightarrow> CaScope \<Rightarrow> core_error + unit" where
  "validate_snapshot_scope N st label m scope =
     (case map_of (ps_high_water_marks st) (scope_key (ce_ahu N) m scope) of
        Some hw \<Rightarrow>
          if cs_epoch scope \<le> hw then Inr ()
          else Inl (StateStoreError (''committed snapshot '' @ label @ '': incomplete committed state requires recovery''))
      | None \<Rightarrow> Inl (StateStoreError (''committed snapshot '' @ label @ '': incomplete committed state requires recovery'')))"

definition validate_snapshot :: "core_env \<Rightarrow> PersistedState \<Rightarrow> fs \<Rightarrow> string \<times> path \<Rightarrow> core_error + unit" where
  "validate_snapshot N st s = (\<lambda>(label, snapshot_path).
     bindR (map_errR (\<lambda>e. StateStoreError (''committed snapshot for '' @ label @ '' is missing: '' @ show_path snapshot_path))
              (read_file snapshot_path s)) (\<lambda>bytes.
     bindR (ok_orR (StateStoreError (''committed snapshot for '' @ label @ '' has a malformed name: '' @ show_path snapshot_path))
              (path_file_stem snapshot_path)) (\<lambda>digest_hex.
     bindR (map_errR (\<lambda>e. StateStoreError (''committed snapshot for '' @ label @ '' has a non-digest name: '' @ e))
              (hex_decode (ce_ahu N) digest_hex)) (\<lambda>expected.
     if sha256 (ce_ahu N) bytes \<noteq> expected
     then Inl (StateStoreError (''committed snapshot for '' @ label @ '' does not match its digest name: '' @ show_path snapshot_path))
     else
     bindR (map_errR (\<lambda>e. StateStoreError (''committed snapshot for '' @ label @ '' is unreadable''))
              (from_bytes (ce_ahu N) bytes)) (\<lambda>b.
     allR (validate_snapshot_scope N st label (b_manifest b)) (mf_ca_scopes (b_manifest b)))))))"

definition validate_persisted :: "core_env \<Rightarrow> PersistedState \<Rightarrow> fs \<Rightarrow> core_error + unit" where
  "validate_persisted N st s =
     bindR (allR (validate_digest N st) (ps_manifest_digests st)) (\<lambda>_.
     bindR (allR (validate_mark st) (ps_high_water_marks st)) (\<lambda>_.
     allR (validate_snapshot N st s) (ps_active_bundles st)))"

definition open_store :: "core_env \<Rightarrow> path \<Rightarrow> fs \<Rightarrow> core_error + StateStore" where
  "open_store N path s =
     bindR (map_errR (\<lambda>e. StateStoreError (''cannot open state file '' @ show_path path)) (read_file path s)) (\<lambda>contents.
     bindR (map_errR (\<lambda>e. StateStoreError (''failed to parse state file '' @ show_path path @ '': '' @ e))
              (ce_json_from N contents)) (\<lambda>state.
     bindR (validate_persisted N state s) (\<lambda>_.
     Inr \<lparr>st_path = path, st_state = state, st_staged = False\<rparr>)))"

definition persist :: "core_env \<Rightarrow> StateStore \<Rightarrow> unit io" where
  "persist N st =
     bindIO (liftIO (map_errR (\<lambda>e. StateStoreError (''failed to serialize state: '' @ e)) (ce_json_to N (st_state st)))) (\<lambda>json.
     write_next N (st_path st) json)"

definition empty_state :: PersistedState where
  "empty_state = \<lparr>ps_high_water_marks = [], ps_manifest_digests = [], ps_active_bundles = []\<rparr>"

definition initialize :: "core_env \<Rightarrow> path \<Rightarrow> StateStore io" where
  "initialize N path = (\<lambda>s.
     if path_exists path s
     then (Inl (StateStoreError (''refusing to initialize '' @ show_path path @ '': state file already exists'')), s)
     else
     let dir = write_parent path;
         store = \<lparr>st_path = path, st_state = empty_state, st_staged = False\<rparr>;
         finish = bindIO (persist N store) (\<lambda>_. returnIO store) in
     if path_exists dir s
     then case ce_read_dir N dir of
            Some e \<Rightarrow> (Inl (StateStoreError (''failed to inspect state directory '' @ show_path dir)), s)
          | None \<Rightarrow>
              (case find (\<lambda>n. n \<noteq> WRITER_LOCK_FILE) (read_dir dir s) of
                 Some n \<Rightarrow> (Inl (StateStoreError (''refusing to initialize state in '' @ show_path dir
                              @ '': directory already contains '' @ n)), s)
               | None \<Rightarrow> finish s)
     else case ce_create_dir N dir of
            Some e \<Rightarrow> (Inl (StateStoreError (''failed to create state directory '' @ show_path dir)), s)
          | None \<Rightarrow> finish (add_dirs dir s))"

section \<open>Marks\<close>

definition get_high_water :: "StateStore \<Rightarrow> string \<Rightarrow> string \<Rightarrow> u64 option" where
  "get_high_water st producer_id ikh = map_of (ps_high_water_marks (st_state st)) (make_key producer_id ikh)"

definition get_manifest_digest :: "externals \<Rightarrow> StateStore \<Rightarrow> string \<Rightarrow> string \<Rightarrow> bytes option" where
  "get_manifest_digest E st producer_id ikh =
     (case map_of (ps_manifest_digests (st_state st)) (make_key producer_id ikh) of
        None \<Rightarrow> None
      | Some hex_str \<Rightarrow>
          (case hex_decode E hex_str of
             Inl _ \<Rightarrow> None
           | Inr bytes \<Rightarrow> if length bytes = 32 then Some bytes else None))"

text \<open>\<open>advance\<close> on success returns the updated store; on an error the store is the one it was called on.\<close>

definition advance :: "core_env \<Rightarrow> string \<Rightarrow> string \<Rightarrow> u64 \<Rightarrow> bytes \<Rightarrow> StateStore \<Rightarrow> StateStore io" where
  "advance N producer_id ikh epoch digest st =
     (let key = make_key producer_id ikh;
          current = map_of (ps_high_water_marks (st_state st)) key in
      if (case current of None \<Rightarrow> True | Some c \<Rightarrow> c < epoch)
      then let state = (st_state st)\<lparr>
                 ps_high_water_marks := AList.update key epoch (ps_high_water_marks (st_state st)),
                 ps_manifest_digests := AList.update key (hex_encode (ce_ahu N) digest) (ps_manifest_digests (st_state st))\<rparr>;
               next = st\<lparr>st_state := state\<rparr> in
           if st_staged st then returnIO next
           else bindIO (persist N next) (\<lambda>_. returnIO next)
      else returnIO st)"

definition transaction :: "StateStore \<Rightarrow> StateStore" where
  "transaction st = st\<lparr>st_staged := True\<rparr>"

definition clear_active_bundles :: "StateStore \<Rightarrow> StateStore" where
  "clear_active_bundles st = st\<lparr>st_state := (st_state st)\<lparr>ps_active_bundles := []\<rparr>\<rparr>"

definition advance_from_bundle :: "core_env \<Rightarrow> Bundle \<Rightarrow> StateStore \<Rightarrow> StateStore io" where
  "advance_from_bundle N b st =
     (let digest = sha256 (ce_ahu N) (b_manifest_bytes b) in
      bindIO (foldIO (\<lambda>scope cand.
                advance N (mf_producer_id (b_manifest b)) (hex_encode (ce_ahu N) (cs_issuer_key_hash scope))
                  (cs_epoch scope) digest cand)
                (mf_ca_scopes (b_manifest b)) (transaction st)) (\<lambda>candidate.
      let st' = st\<lparr>st_state := st_state candidate\<rparr> in
      if st_staged st then returnIO st'
      else bindIO (persist N candidate) (\<lambda>_. returnIO st')))"

section \<open>Checks\<close>

definition scope_name :: "string \<Rightarrow> string \<Rightarrow> string" where
  "scope_name producer_id ikh = producer_id @ '':'' @ take 16 ikh"

definition check_rollback_scope :: "externals \<Rightarrow> StateStore \<Rightarrow> Bundle \<Rightarrow> CaScope \<Rightarrow> core_error + unit" where
  "check_rollback_scope E st b scope =
     (let producer_id = mf_producer_id (b_manifest b);
          manifest_digest = sha256 E (b_manifest_bytes b);
          ikh = hex_encode E (cs_issuer_key_hash scope) in
      case get_high_water st producer_id ikh of
        None \<Rightarrow> Inr ()
      | Some hw \<Rightarrow>
          if cs_epoch scope < hw
          then Inl (CoreEpochRollback (scope_name producer_id ikh) (cs_epoch scope) hw)
          else if cs_epoch scope = hw \<and> get_manifest_digest E st producer_id ikh \<noteq> Some manifest_digest
          then Inl (CoreEpochRollback (scope_name producer_id ikh) (cs_epoch scope) hw)
          else let jump = cs_epoch scope - hw in
               if MAX_EPOCH_JUMP < jump
               then Inl (EpochJumpTooLarge (scope_name producer_id ikh) (cs_epoch scope) hw jump MAX_EPOCH_JUMP)
               else Inr ())"

definition check_rollback :: "externals \<Rightarrow> StateStore \<Rightarrow> Bundle \<Rightarrow> core_error + unit" where
  "check_rollback E st b = allR (check_rollback_scope E st b) (mf_ca_scopes (b_manifest b))"

definition check_continuity_scope :: "externals \<Rightarrow> StateStore \<Rightarrow> Bundle \<Rightarrow> bytes \<Rightarrow> CaScope \<Rightarrow> core_error + unit" where
  "check_continuity_scope E st b prev_digest scope =
     (let producer_id = mf_producer_id (b_manifest b);
          ikh = hex_encode E (cs_issuer_key_hash scope) in
      case get_manifest_digest E st producer_id ikh of
        None \<Rightarrow> Inr ()
      | Some recorded \<Rightarrow>
          let digest = sha256 E (b_manifest_bytes b);
              identical = (get_high_water st producer_id ikh = Some (cs_epoch scope) \<and> digest = recorded) in
          if \<not> identical \<and> prev_digest \<noteq> recorded
          then Inl (CoreForkDetected (scope_name producer_id ikh))
          else Inr ())"

definition check_continuity :: "externals \<Rightarrow> StateStore \<Rightarrow> Bundle \<Rightarrow> core_error + unit" where
  "check_continuity E st b =
     (case co_prev_manifest_digest (mf_continuity (b_manifest b)) of
        None \<Rightarrow> Inr ()
      | Some prev \<Rightarrow> allR (check_continuity_scope E st b prev) (mf_ca_scopes (b_manifest b)))"

section \<open>Snapshots and commit\<close>

definition generations_dir :: "path \<Rightarrow> path" where
  "generations_dir p = path_join (case path_parent p of Some d \<Rightarrow> d | None \<Rightarrow> [''.'']) ''generations''"

definition snapshot :: "core_env \<Rightarrow> string \<Rightarrow> Bundle \<Rightarrow> StateStore \<Rightarrow> StateStore io" where
  "snapshot N label b st =
     bindIO (liftIO (map_errR BundleError (to_bytes b))) (\<lambda>bytes.
     let digest = hex_encode (ce_ahu N) (sha256 (ce_ahu N) bytes);
         dir = generations_dir (st_path st);
         path = path_join dir (digest @ ''.ahu'');
         st' = st\<lparr>st_state := (st_state st)\<lparr>ps_active_bundles := AList.update label path (ps_active_bundles (st_state st))\<rparr>\<rparr> in
     case ce_create_dir N dir of
       Some e \<Rightarrow> failIO (CoreIo e)
     | None \<Rightarrow>
       bindIO (modifyIO (add_dirs dir)) (\<lambda>_ s.
       if fs_dirs s path \<and> fs_files s path = None
       then failIO (CoreIo (IoOther ''is a directory'')) s
       else if fs_files s path \<noteq> Some bytes
       then bindIO (write_next N path bytes) (\<lambda>_. returnIO st') s
       else returnIO st' s))"

definition is_ascii_hexdigit :: "char \<Rightarrow> bool" where
  "is_ascii_hexdigit c \<longleftrightarrow> c \<in> set ''0123456789abcdefABCDEF''"

definition is_generated :: "path \<Rightarrow> bool" where
  "is_generated p \<longleftrightarrow> path_extension p = Some ''ahu'' \<and>
     (case path_file_stem p of None \<Rightarrow> False | Some n \<Rightarrow> length n = 64 \<and> list_all is_ascii_hexdigit n)"

text \<open>The clean-up after a commit: obsolete snapshots are unlinked, and a failure is only logged.\<close>

definition collect_generations :: "core_env \<Rightarrow> path \<Rightarrow> PersistedState \<Rightarrow> fs \<Rightarrow> fs" where
  "collect_generations N dir state s =
     (if ce_read_dir N dir \<noteq> None then s
      else foldl (\<lambda>s' n.
             let p = path_join dir n in
             if is_generated p \<and> p \<notin> set (map snd (ps_active_bundles state)) \<and> \<not> ce_unlink_fails N p
             then set_file p None s' else s') s (read_dir dir s))"

definition commit :: "core_env \<Rightarrow> StateStore \<Rightarrow> StateStore \<Rightarrow> StateStore io" where
  "commit N candidate st =
     bindIO (persist N candidate) (\<lambda>_.
     let st' = st\<lparr>st_state := st_state candidate\<rparr> in
     bindIO (modifyIO (collect_generations N (generations_dir (st_path st')) (st_state st'))) (\<lambda>_.
     returnIO st'))"

section \<open>The contract of an epoch guard\<close>

text \<open>A sequence of bundles each of which is accepted and then noted.\<close>

fun accepted_run :: "('s \<Rightarrow> 'b \<Rightarrow> bool) \<Rightarrow> ('b \<Rightarrow> 's \<Rightarrow> 's) \<Rightarrow> 's \<Rightarrow> 'b list \<Rightarrow> bool" where
  "accepted_run accepts note_bundle s [] \<longleftrightarrow> True"
| "accepted_run accepts note_bundle s (b # bs) \<longleftrightarrow>
     accepts s b \<and> accepted_run accepts note_bundle (note_bundle b s) bs"

locale epoch_guard =
  fixes inv :: "'s \<Rightarrow> bool"
    and epoch_of :: "'s \<Rightarrow> 'k \<Rightarrow> 'e::linorder option"
    and digest_of :: "'s \<Rightarrow> 'k \<Rightarrow> 'd option"
    and accepts :: "'s \<Rightarrow> 'b \<Rightarrow> bool"
    and note_bundle :: "'b \<Rightarrow> 's \<Rightarrow> 's"
    and scopes :: "'b \<Rightarrow> ('k \<times> 'e) set"
    and digest :: "'b \<Rightarrow> 'd"
  assumes inv_note: "inv s \<Longrightarrow> inv (note_bundle b s)"
    and no_rollback: "\<lbrakk>inv s; accepts s b; (k, e) \<in> scopes b; epoch_of s k = Some m\<rbrakk> \<Longrightarrow> m \<le> e"
    and no_fork: "\<lbrakk>inv s; accepts s b; (k, e) \<in> scopes b; epoch_of s k = Some e\<rbrakk> \<Longrightarrow> digest_of s k = Some (digest b)"
    and note_covers: "\<lbrakk>inv s; (k, e) \<in> scopes b\<rbrakk> \<Longrightarrow> \<exists>m \<ge> e. epoch_of (note_bundle b s) k = Some m"
    and note_mono: "\<lbrakk>inv s; epoch_of s k = Some m\<rbrakk> \<Longrightarrow> \<exists>m' \<ge> m. epoch_of (note_bundle b s) k = Some m'"
    and note_keeps: "\<lbrakk>inv s; epoch_of (note_bundle b s) k = epoch_of s k\<rbrakk> \<Longrightarrow> digest_of (note_bundle b s) k = digest_of s k"
    and note_changes: "\<lbrakk>inv s; epoch_of (note_bundle b s) k \<noteq> epoch_of s k\<rbrakk> \<Longrightarrow> digest_of (note_bundle b s) k = Some (digest b)"
begin

text \<open>
  A scope is covered from an epoch on: the mark has reached it, and while the mark is still exactly
  there, the digest is the one recorded with it.
\<close>

definition covered :: "'s \<Rightarrow> 'k \<Rightarrow> 'e \<Rightarrow> 'd \<Rightarrow> bool" where
  "covered s k e d \<longleftrightarrow> (\<exists>m. epoch_of s k = Some m \<and> e \<le> m \<and> (m = e \<longrightarrow> digest_of s k = Some d))"

lemma covered_after_note:
  assumes "inv s" "accepts s b" "(k, e) \<in> scopes b"
  shows "covered (note_bundle b s) k e (digest b)"
proof -
  obtain m where m: "epoch_of (note_bundle b s) k = Some m" "e \<le> m"
    using note_covers [OF assms(1,3)] by blast
  have "digest_of (note_bundle b s) k = Some (digest b)" if "m = e"
  proof (cases "epoch_of (note_bundle b s) k = epoch_of s k")
    case True
    then show ?thesis
      using no_fork [OF assms] note_keeps [OF assms(1) True] m that by simp
  qed (rule note_changes [OF assms(1)])
  then show ?thesis using m by (auto simp: covered_def)
qed

lemma covered_note:
  assumes "inv s" "covered s k e d"
  shows "covered (note_bundle b s) k e d"
proof -
  obtain m where m: "epoch_of s k = Some m" "e \<le> m" "m = e \<Longrightarrow> digest_of s k = Some d"
    using assms(2) by (auto simp: covered_def)
  obtain m' where m': "epoch_of (note_bundle b s) k = Some m'" "m \<le> m'"
    using note_mono [OF assms(1) m(1)] by blast
  have "digest_of (note_bundle b s) k = Some d" if "m' = e"
    using m m' that note_keeps [OF assms(1), of b k] by force
  then show ?thesis using m m' by (auto simp: covered_def)
qed

lemma covered_accepts:
  assumes "inv s" "covered s k e d" "accepts s b" "(k, e') \<in> scopes b"
  shows "e \<le> e' \<and> (e = e' \<longrightarrow> digest b = d)"
proof -
  obtain m where m: "epoch_of s k = Some m" "e \<le> m" "m = e \<Longrightarrow> digest_of s k = Some d"
    using assms(2) by (auto simp: covered_def)
  have "m \<le> e'" using no_rollback [OF assms(1,3,4) m(1)] .
  moreover have "digest_of s k = Some (digest b)" if "m = e'"
    using no_fork [OF assms(1,3,4)] m(1) that by simp
  ultimately show ?thesis using m by force
qed

lemma run_covered:
  assumes "inv s" "covered s k e d" "accepted_run accepts note_bundle s bs" "b \<in> set bs" "(k, e') \<in> scopes b"
  shows "e \<le> e' \<and> (e = e' \<longrightarrow> digest b = d)"
  using assms
proof (induction bs arbitrary: s)
  case (Cons c bs)
  show ?case
  proof (cases "b = c")
    case True
    then show ?thesis using Cons.prems covered_accepts by auto
  next
    case False
    then show ?thesis
      using Cons.prems Cons.IH [of "note_bundle c s"] inv_note covered_note by auto
  qed
qed simp

lemma covered_fold:
  "inv s \<Longrightarrow> covered s k e d \<Longrightarrow> covered (fold note_bundle bs s) k e d"
  by (induction bs arbitrary: s) (simp_all add: inv_note covered_note)

lemma run_covers:
  assumes "inv s" "accepted_run accepts note_bundle s bs" "b \<in> set bs" "(k, e) \<in> scopes b"
  shows "covered (fold note_bundle bs s) k e (digest b)"
  using assms
proof (induction bs arbitrary: s)
  case (Cons c bs)
  show ?case
  proof (cases "b \<in> set bs")
    case True
    then show ?thesis using Cons.prems Cons.IH [of "note_bundle c s"] inv_note by simp
  next
    case False
    then have "covered (note_bundle c s) k e (digest b)" using Cons.prems covered_after_note by auto
    then show ?thesis using Cons.prems(1) covered_fold inv_note by simp
  qed
qed simp

lemma run_monotone:
  assumes "inv s" "accepted_run accepts note_bundle s bs" "i < j" "j < length bs"
    "(k, e) \<in> scopes (bs ! i)" "(k, e') \<in> scopes (bs ! j)"
  shows "e \<le> e' \<and> (e = e' \<longrightarrow> digest (bs ! j) = digest (bs ! i))"
  using assms
proof (induction bs arbitrary: s i j)
  case (Cons c bs)
  then obtain j' where j: "j = Suc j'" by (cases j) auto
  show ?case
  proof (cases i)
    case 0
    have "bs ! j' \<in> set bs" using Cons.prems(4) j by simp
    then show ?thesis
      using Cons.prems 0 j run_covered [OF inv_note covered_after_note, of s c k e bs "bs ! j'" e']
      by auto
  next
    case (Suc i')
    then show ?thesis using Cons.prems Cons.IH [of "note_bundle c s" i' j'] j inv_note by auto
  qed
qed simp

end

section \<open>The store as an epoch guard\<close>

text \<open>What \<open>advance\<close> does to the recorded state, and the same for all scopes of a bundle.\<close>

definition raise_mark :: "externals \<Rightarrow> string \<Rightarrow> u64 \<Rightarrow> bytes \<Rightarrow> PersistedState \<Rightarrow> PersistedState" where
  "raise_mark E key epoch digest ps =
     (if (case map_of (ps_high_water_marks ps) key of None \<Rightarrow> True | Some c \<Rightarrow> c < epoch)
      then ps\<lparr>ps_high_water_marks := AList.update key epoch (ps_high_water_marks ps),
              ps_manifest_digests := AList.update key (hex_encode E digest) (ps_manifest_digests ps)\<rparr>
      else ps)"

definition record_scopes :: "externals \<Rightarrow> Bundle \<Rightarrow> CaScope list \<Rightarrow> PersistedState \<Rightarrow> PersistedState" where
  "record_scopes E b scopes =
     fold (\<lambda>scope. raise_mark E (scope_key E (b_manifest b) scope) (cs_epoch scope) (sha256 E (b_manifest_bytes b))) scopes"

definition record_bundle :: "externals \<Rightarrow> Bundle \<Rightarrow> PersistedState \<Rightarrow> PersistedState" where
  "record_bundle E b = record_scopes E b (mf_ca_scopes (b_manifest b))"

definition note_store :: "externals \<Rightarrow> Bundle \<Rightarrow> StateStore \<Rightarrow> StateStore" where
  "note_store E b st = st\<lparr>st_state := record_bundle E b (st_state st)\<rparr>"

lemma advance_staged:
  "st_staged st \<Longrightarrow> advance N p h e d st =
     returnIO (st\<lparr>st_state := raise_mark (ce_ahu N) (make_key p h) e d (st_state st)\<rparr>)"
  by (simp add: advance_def raise_mark_def Let_def)

lemma foldIO_advance_staged:
  "st_staged st \<Longrightarrow>
     foldIO (\<lambda>scope cand. advance N (mf_producer_id (b_manifest b)) (hex_encode (ce_ahu N) (cs_issuer_key_hash scope))
        (cs_epoch scope) (sha256 (ce_ahu N) (b_manifest_bytes b)) cand) scopes st s =
     (Inr (st\<lparr>st_state := record_scopes (ce_ahu N) b scopes (st_state st)\<rparr>), s)"
  by (induction scopes arbitrary: st)
    (simp_all add: record_scopes_def advance_staged bindIO_def returnIO_def scope_key_def)

lemma advance_from_bundle_staged:
  "st_staged st \<Longrightarrow> advance_from_bundle N b st = returnIO (note_store (ce_ahu N) b st)"
  by (rule ext) (simp add: advance_from_bundle_def Let_def bindIO_def foldIO_advance_staged transaction_def
      note_store_def record_bundle_def returnIO_def)

lemma advance_from_bundle_Inr:
  "advance_from_bundle N b st s = (Inr st', s') \<Longrightarrow> st' = note_store (ce_ahu N) b st"
  by (auto simp: advance_from_bundle_def Let_def bindIO_def foldIO_advance_staged transaction_def
      note_store_def record_bundle_def returnIO_def split: if_splits prod.splits sum.splits)

lemma raise_mark_marks:
  "map_of (ps_high_water_marks (raise_mark E key e d ps)) k =
     (if k = key \<and> (case map_of (ps_high_water_marks ps) key of None \<Rightarrow> True | Some c \<Rightarrow> c < e)
      then Some e else map_of (ps_high_water_marks ps) k)"
  by (simp add: raise_mark_def update_conv')

lemma raise_mark_digests:
  "map_of (ps_manifest_digests (raise_mark E key e d ps)) k =
     (if k = key \<and> (case map_of (ps_high_water_marks ps) key of None \<Rightarrow> True | Some c \<Rightarrow> c < e)
      then Some (hex_encode E d) else map_of (ps_manifest_digests ps) k)"
  by (simp add: raise_mark_def update_conv')

lemma raise_mark_active [simp]: "ps_active_bundles (raise_mark E key e d ps) = ps_active_bundles ps"
  by (simp add: raise_mark_def)

lemma record_scopes_Cons [simp]:
  "record_scopes E b (scope # scopes) ps =
     record_scopes E b scopes (raise_mark E (scope_key E (b_manifest b) scope) (cs_epoch scope) (sha256 E (b_manifest_bytes b)) ps)"
  "record_scopes E b [] ps = ps"
  by (simp_all add: record_scopes_def)

lemma record_scopes_active [simp]: "ps_active_bundles (record_scopes E b scopes ps) = ps_active_bundles ps"
  by (induction scopes arbitrary: ps) simp_all

lemma raise_mark_mono:
  assumes "map_of (ps_high_water_marks ps) k = Some m"
  shows "\<exists>m' \<ge> m. map_of (ps_high_water_marks (raise_mark E key e d ps)) k = Some m'"
  using assms by (auto simp: raise_mark_marks split: option.splits)

lemma raise_mark_reaches: "\<exists>m \<ge> e. map_of (ps_high_water_marks (raise_mark E key e d ps)) key = Some m"
  by (cases "map_of (ps_high_water_marks ps) key") (auto simp: raise_mark_marks not_less)

lemma record_scopes_mono:
  assumes "map_of (ps_high_water_marks ps) k = Some m"
  shows "\<exists>m' \<ge> m. map_of (ps_high_water_marks (record_scopes E b scopes ps)) k = Some m'"
  using assms
proof (induction scopes arbitrary: ps m)
  case (Cons scope scopes)
  obtain m1 where "m \<le> m1"
    "map_of (ps_high_water_marks (raise_mark E (scope_key E (b_manifest b) scope) (cs_epoch scope)
       (sha256 E (b_manifest_bytes b)) ps)) k = Some m1"
    using raise_mark_mono [OF Cons.prems] by blast
  then show ?case using Cons.IH order_trans by fastforce
qed auto

lemma record_scopes_covers:
  assumes "scope \<in> set scopes"
  shows "\<exists>m \<ge> cs_epoch scope.
     map_of (ps_high_water_marks (record_scopes E b scopes ps)) (scope_key E (b_manifest b) scope) = Some m"
  using assms
proof (induction scopes arbitrary: ps)
  case (Cons c scopes)
  show ?case
  proof (cases "scope = c")
    case True
    let ?ps = "raise_mark E (scope_key E (b_manifest b) c) (cs_epoch c) (sha256 E (b_manifest_bytes b)) ps"
    obtain m where "cs_epoch c \<le> m" "map_of (ps_high_water_marks ?ps) (scope_key E (b_manifest b) c) = Some m"
      using raise_mark_reaches by blast
    then show ?thesis
      using True record_scopes_mono [of ?ps "scope_key E (b_manifest b) c" m E b scopes] order_trans
      by fastforce
  qed (use Cons in simp)
qed simp

text \<open>A mark and its digest change together: either neither does, or the digest is this bundle's.\<close>

lemma record_scopes_digests:
  "map_of (ps_manifest_digests (record_scopes E b scopes ps)) k =
     (if map_of (ps_high_water_marks (record_scopes E b scopes ps)) k = map_of (ps_high_water_marks ps) k
      then map_of (ps_manifest_digests ps) k else Some (hex_encode E (sha256 E (b_manifest_bytes b))))"
proof (induction scopes arbitrary: ps)
  case (Cons c scopes)
  let ?key = "scope_key E (b_manifest b) c"
  let ?ps = "raise_mark E ?key (cs_epoch c) (sha256 E (b_manifest_bytes b)) ps"
  show ?case
  proof (cases "map_of (ps_high_water_marks ?ps) k = map_of (ps_high_water_marks ps) k")
    case True
    then have "map_of (ps_manifest_digests ?ps) k = map_of (ps_manifest_digests ps) k"
      by (auto simp: raise_mark_marks raise_mark_digests split: option.splits if_splits)
    then show ?thesis using True Cons.IH by simp
  next
    case False
    then have new: "map_of (ps_high_water_marks ?ps) k = Some (cs_epoch c)"
      "map_of (ps_manifest_digests ?ps) k = Some (hex_encode E (sha256 E (b_manifest_bytes b)))"
      "\<And>m. map_of (ps_high_water_marks ps) k = Some m \<Longrightarrow> m < cs_epoch c"
      by (auto simp: raise_mark_marks raise_mark_digests split: option.splits if_splits)
    obtain m where "cs_epoch c \<le> m" "map_of (ps_high_water_marks (record_scopes E b scopes ?ps)) k = Some m"
      using record_scopes_mono [OF new(1)] by blast
    then have "map_of (ps_high_water_marks (record_scopes E b scopes ?ps)) k \<noteq> map_of (ps_high_water_marks ps) k"
      using new(3) by fastforce
    then show ?thesis using new(2) Cons.IH by simp
  qed
qed simp

lemmas record_bundle_facts =
  record_scopes_mono record_scopes_covers record_scopes_digests record_scopes_active

text \<open>When a bundle passes the rollback check of one scope.\<close>

lemma check_rollback_scope_Inr:
  "check_rollback_scope E st b scope = Inr u \<longleftrightarrow>
     (\<forall>hw. get_high_water st (mf_producer_id (b_manifest b)) (hex_encode E (cs_issuer_key_hash scope)) = Some hw \<longrightarrow>
        hw \<le> cs_epoch scope \<and> unat (cs_epoch scope) \<le> unat hw + 10000 \<and>
        (cs_epoch scope = hw \<longrightarrow>
           get_manifest_digest E st (mf_producer_id (b_manifest b)) (hex_encode E (cs_issuer_key_hash scope))
             = Some (sha256 E (b_manifest_bytes b))))"
proof (cases "get_high_water st (mf_producer_id (b_manifest b)) (hex_encode E (cs_issuer_key_hash scope))")
  case None
  then show ?thesis by (simp add: check_rollback_scope_def Let_def)
next
  case (Some hw)
  have "MAX_EPOCH_JUMP < cs_epoch scope - hw \<longleftrightarrow> unat hw + 10000 < unat (cs_epoch scope)" if "hw \<le> cs_epoch scope"
    using that unat_sub [OF that] by (auto simp: MAX_EPOCH_JUMP_def word_less_nat_alt word_le_nat_alt)
  then show ?thesis using Some by (auto simp: check_rollback_scope_def Let_def not_less)
qed

lemma check_rollback_Inr:
  "check_rollback E st b = Inr u \<longleftrightarrow> (\<forall>scope \<in> set (mf_ca_scopes (b_manifest b)). check_rollback_scope E st b scope = Inr ())"
  by (auto simp: check_rollback_def allR_eq_Inr)

lemma get_note_store:
  "get_high_water (note_store E b st) p h = map_of (ps_high_water_marks (record_bundle E b (st_state st))) (make_key p h)"
  by (simp add: get_high_water_def note_store_def)

lemma digest_note_store:
  assumes "hex_roundtrip E" "sha256_length E"
  shows "get_manifest_digest E (note_store E b st) p h =
    (if get_high_water (note_store E b st) p h = get_high_water st p h
     then get_manifest_digest E st p h else Some (sha256 E (b_manifest_bytes b)))"
  using assms
  by (simp add: get_manifest_digest_def get_note_store get_high_water_def note_store_def record_bundle_def
      record_scopes_digests hex_roundtripD sha256_lengthD)

definition bundle_scopes_of :: "Bundle \<Rightarrow> ((string \<times> bytes) \<times> u64) set" where
  "bundle_scopes_of b =
     (\<lambda>scope. ((mf_producer_id (b_manifest b), cs_issuer_key_hash scope), cs_epoch scope)) ` set (mf_ca_scopes (b_manifest b))"

interpretation store: epoch_guard
  "\<lambda>st. hex_roundtrip E \<and> sha256_length E"
  "\<lambda>st (p, h). get_high_water st p (hex_encode E h)"
  "\<lambda>st (p, h). get_manifest_digest E st p (hex_encode E h)"
  "\<lambda>st b. check_rollback E st b = Inr ()"
  "note_store E"
  bundle_scopes_of
  "\<lambda>b. sha256 E (b_manifest_bytes b)"
  for E :: externals
proof unfold_locales
  fix st :: StateStore and b k e
  assume "(k, e) \<in> bundle_scopes_of b"
  then obtain scope where scope: "scope \<in> set (mf_ca_scopes (b_manifest b))"
    "k = (mf_producer_id (b_manifest b), cs_issuer_key_hash scope)" "e = cs_epoch scope"
    by (auto simp: bundle_scopes_of_def)
  show "\<exists>m \<ge> e. (case k of (p, h) \<Rightarrow> get_high_water (note_store E b st) p (hex_encode E h)) = Some m"
    using record_scopes_covers [OF scope(1), of E b "st_state st"] scope(2,3)
    by (simp add: get_note_store record_bundle_def scope_key_def)
  assume "check_rollback E st b = Inr ()"
  then have ok: "check_rollback_scope E st b scope = Inr ()" using scope(1) by (simp add: check_rollback_Inr)
  then show "(case k of (p, h) \<Rightarrow> get_high_water st p (hex_encode E h)) = Some m \<Longrightarrow> m \<le> e" for m
    using scope(2,3) by (simp add: check_rollback_scope_Inr)
  show "(case k of (p, h) \<Rightarrow> get_high_water st p (hex_encode E h)) = Some e \<Longrightarrow>
      (case k of (p, h) \<Rightarrow> get_manifest_digest E st p (hex_encode E h)) = Some (sha256 E (b_manifest_bytes b))"
    using ok scope(2,3) by (simp add: check_rollback_scope_Inr)
next
  fix st :: StateStore and b and k :: "string \<times> bytes" and m
  show "(case k of (p, h) \<Rightarrow> get_high_water st p (hex_encode E h)) = Some m \<Longrightarrow>
      \<exists>m' \<ge> m. (case k of (p, h) \<Rightarrow> get_high_water (note_store E b st) p (hex_encode E h)) = Some m'"
    by (cases k) (simp add: note_store_def record_bundle_def get_high_water_def record_scopes_mono)
qed (auto simp: digest_note_store)

end
