(* ===== verification/Core_Admission.thy ===== *)
theory Core_Admission
  imports Core_State
begin

text \<open>
  Admission of a bundle (\<^verbatim>\<open>crates/hoike-core/src/admission.rs\<close>): structural verification, the CMS seal
  under the configured pins and anchors, the scopes a signer is authorised for, and the serving
  profile. Admission reads certificate files and writes nothing, so its operations take the file
  system and return a plain result.
\<close>

section \<open>Authentication\<close>

datatype AdmissionTrust = Authenticated string | UnauthenticatedDemo

definition admission_verify_structure :: "externals \<Rightarrow> Bundle \<Rightarrow> core_error + unit" where
  "admission_verify_structure E b = bindR (map_errR BundleError (verify_structure E b)) (\<lambda>_. Inr ())"

definition pem_marker :: bytes where
  "pem_marker = [0x2D, 0x2D, 0x2D, 0x2D, 0x2D, 0x42, 0x45, 0x47, 0x49, 0x4E]"

definition read_cert :: "core_env \<Rightarrow> fs \<Rightarrow> path \<Rightarrow> core_error + bytes" where
  "read_cert N s path =
     bindR (map_errR (\<lambda>e. ConfigError (''cannot read seal trust anchor '' @ show_path path)) (read_file path s)) (\<lambda>bytes.
     bindR (map_errR (\<lambda>e. ConfigError (''invalid seal trust anchor '' @ show_path path @ '': '' @ e))
       (if take (length pem_marker) bytes = pem_marker then ce_cert_from_pem N bytes
        else certificate_from_der (ce_cms N) bytes)) (\<lambda>cert.
     map_errR ConfigError (ct_der cert)))"

definition read_certs :: "core_env \<Rightarrow> fs \<Rightarrow> path list \<Rightarrow> core_error + bytes list" where
  "read_certs N s paths = mapR (read_cert N s) paths"

definition to_ascii_lowercase :: "char \<Rightarrow> char" where
  "to_ascii_lowercase c = (if 65 \<le> (of_char c :: nat) \<and> (of_char c :: nat) \<le> 90 then char_of (of_char c + 32 :: nat) else c)"

definition eq_ignore_ascii_case :: "string \<Rightarrow> string \<Rightarrow> bool" where
  "eq_ignore_ascii_case a b \<longleftrightarrow> map to_ascii_lowercase a = map to_ascii_lowercase b"

definition authorizes :: "externals \<Rightarrow> Manifest \<Rightarrow> string \<Rightarrow> CaScope \<Rightarrow> SealAuthorization \<Rightarrow> bool" where
  "authorizes E m signer_sha256 scope auth \<longleftrightarrow>
     sa_producer_id auth = mf_producer_id m \<and>
     eq_ignore_ascii_case (sa_issuer_key_hash auth) (hex_encode E (cs_issuer_key_hash scope)) \<and>
     eq_ignore_ascii_case (sa_signer_sha256 auth) signer_sha256"

definition has_trust_anchors :: "StorageConfig \<Rightarrow> bool" where
  "has_trust_anchors storage \<longleftrightarrow>
     (case so_seal_trust_anchors storage of None \<Rightarrow> False | Some v \<Rightarrow> v \<noteq> [])"

definition has_pins :: "StorageConfig \<Rightarrow> bool" where
  "has_pins storage \<longleftrightarrow> so_seal_signer_pins storage \<noteq> []"

definition verify_configured_seal ::
    "core_env \<Rightarrow> StorageConfig \<Rightarrow> Bundle \<Rightarrow> bytes list \<Rightarrow> bytes list \<Rightarrow> u64 \<Rightarrow> ahu_error + SealVerification" where
  "verify_configured_seal N storage b anchors pins now =
     (let with_anchors = verify_seal_with_anchors (ce_ahu N) (ce_cms N) (b_manifest_bytes b) (b_seal_bytes b) anchors now in
      if has_pins storage
      then case verify_seal_with_pins (ce_ahu N) (ce_cms N) (b_manifest_bytes b) (b_seal_bytes b) pins now of
             Inr v \<Rightarrow> Inr v
           | Inl pin_error \<Rightarrow> if has_trust_anchors storage then with_anchors else Inl pin_error
      else with_anchors)"

definition authenticate_bundle :: "core_env \<Rightarrow> Bundle \<Rightarrow> StorageConfig \<Rightarrow> u64 \<Rightarrow> fs \<Rightarrow> core_error + SealVerification" where
  "authenticate_bundle N b storage now s =
     bindR (admission_verify_structure (ce_ahu N) b) (\<lambda>_.
     if \<not> has_trust_anchors storage \<and> \<not> has_pins storage
     then Inl (ConfigError
            (if so_seal_authorizations storage = []
             then ''bundle authentication requires seal_signer_pins or seal_trust_anchors''
             else ''seal_authorizations requires trust anchors or explicit signer pins''))
     else if b_seal_bytes b = []
     then Inl (ConfigError ''seal trust configured but bundle has no seal'')
     else
     bindR (read_certs N s (case so_seal_trust_anchors storage of None \<Rightarrow> [] | Some v \<Rightarrow> v)) (\<lambda>anchors.
     bindR (read_certs N s (so_seal_signer_pins storage)) (\<lambda>pins.
     bindR (map_errR (\<lambda>e. ConfigError ''seal verification failed'')
              (verify_configured_seal N storage b anchors pins now)) (\<lambda>verification.
     bindR (if so_seal_authorizations storage = [] then Inr ()
            else allR (\<lambda>scope.
                   if list_ex (authorizes (ce_ahu N) (b_manifest b) (sv_signer_sha256 verification) scope)
                        (so_seal_authorizations storage)
                   then Inr ()
                   else Inl (ConfigError ''seal signer is not authorized for producer/CA scope''))
                 (mf_ca_scopes (b_manifest b))) (\<lambda>_.
     Inr verification)))))"

section \<open>The serving profile\<close>

definition reject_profile :: "string \<Rightarrow> core_error + unit" where
  "reject_profile reason = Inl (ConfigError (''unsupported serving profile: '' @ reason))"

definition validate_serving_profile :: "Bundle \<Rightarrow> core_error + unit" where
  "validate_serving_profile b =
     (let m = b_manifest b in
      if mf_bundle_type m \<noteq> FullBundle
      then reject_profile ''delta bundle; materialize it into a full bundle before serving''
      else case (case mf_compression m of
                   None \<Rightarrow> Inr ()
                 | Some c \<Rightarrow>
                     if cm_algorithm c \<noteq> CompressionNone
                     then reject_profile ''compressed bundle; serve an uncompressed bundle instead''
                     else if cm_dictionary_digest c \<noteq> None
                     then reject_profile ''compression dictionary; serve an uncompressed bundle instead''
                     else Inr ()) of
        Inl e \<Rightarrow> Inl e
      | Inr _ \<Rightarrow>
          if list_ex is_tombstone (b_index b)
          then reject_profile ''tombstone in a full bundle; tombstones only apply to deltas''
          else if co_base_manifest_digest (mf_continuity m) \<noteq> None
          then reject_profile ''full bundle naming a base manifest''
          else if co_chain_length (mf_continuity m) \<noteq> 0
          then reject_profile ''full bundle with nonzero chain_length''
          else Inr ())"

definition admit_bundle :: "core_env \<Rightarrow> Bundle \<Rightarrow> StorageConfig \<Rightarrow> u64 \<Rightarrow> fs \<Rightarrow> core_error + AdmissionTrust" where
  "admit_bundle N b storage now s =
     bindR (validate_serving_profile b) (\<lambda>_.
     if so_allow_unauthenticated_bundles storage \<and> so_seal_signer_pins storage = [] \<and>
        (case so_seal_trust_anchors storage of None \<Rightarrow> True | Some v \<Rightarrow> v = []) \<and>
        so_seal_authorizations storage = []
     then bindR (admission_verify_structure (ce_ahu N) b) (\<lambda>_. Inr UnauthenticatedDemo)
     else bindR (authenticate_bundle N b storage now s) (\<lambda>v. Inr (Authenticated (sv_signer_sha256 v))))"

section \<open>What admission establishes\<close>

text \<open>The bundles this responder can serve: complete, uncompressed and not part of a delta chain.\<close>

definition servable :: "Bundle \<Rightarrow> bool" where
  "servable b \<longleftrightarrow>
     mf_bundle_type (b_manifest b) = FullBundle \<and>
     (\<forall>c. mf_compression (b_manifest b) = Some c \<longrightarrow> cm_algorithm c = CompressionNone \<and> cm_dictionary_digest c = None) \<and>
     (\<forall>r \<in> set (b_index b). \<not> is_tombstone r) \<and>
     co_base_manifest_digest (mf_continuity (b_manifest b)) = None \<and>
     co_chain_length (mf_continuity (b_manifest b)) = 0"

lemma validate_serving_profile_Inr: "validate_serving_profile b = Inr u \<longleftrightarrow> servable b"
  by (auto simp: validate_serving_profile_def servable_def reject_profile_def Let_def list_ex_iff
      split: option.splits)

lemma admission_verify_structure_Inr:
  "admission_verify_structure E b = Inr u \<longleftrightarrow> structurally_sound E b"
  using verify_structure_sound_iff [of E b] by (auto simp: admission_verify_structure_def result_inverts)

text \<open>
  A signer is trusted when its certificate is a configured pin, or is or was issued by a configured
  anchor, and is within its validity period.
\<close>

definition configured_cert :: "core_env \<Rightarrow> fs \<Rightarrow> path list \<Rightarrow> bytes \<Rightarrow> bool" where
  "configured_cert N s paths der \<longleftrightarrow> (\<exists>p \<in> set paths. read_cert N s p = Inr der)"

definition trusted_signer :: "core_env \<Rightarrow> StorageConfig \<Rightarrow> fs \<Rightarrow> u64 \<Rightarrow> Certificate \<Rightarrow> bytes \<Rightarrow> bool" where
  "trusted_signer N storage s now signer der \<longleftrightarrow>
     ct_der signer = Inr der \<and> ct_not_before signer \<le> now \<and> now < ct_not_after signer \<and>
     ((\<exists>pin c. configured_cert N s (so_seal_signer_pins storage) pin \<and>
         certificate_from_der (ce_cms N) pin = Inr c \<and> ct_der c = Inr der) \<or>
      (\<exists>bs anchor. so_seal_trust_anchors storage \<noteq> None \<and>
         configured_cert N s (the (so_seal_trust_anchors storage)) bs \<and>
         certificate_from_der (ce_cms N) bs = Inr anchor \<and>
         ct_basic_constraints_ca anchor = Inr (Some True) \<and>
         (signer = anchor \<or> issued_by (ce_ahu N) (ce_cms N) anchor signer)))"

definition scope_authorized :: "core_env \<Rightarrow> StorageConfig \<Rightarrow> Bundle \<Rightarrow> string \<Rightarrow> bool" where
  "scope_authorized N storage b signer_sha256 \<longleftrightarrow>
     so_seal_authorizations storage = [] \<or>
     (\<forall>scope \<in> set (mf_ca_scopes (b_manifest b)).
        \<exists>auth \<in> set (so_seal_authorizations storage). authorizes (ce_ahu N) (b_manifest b) signer_sha256 scope auth)"

definition authentic :: "core_env \<Rightarrow> StorageConfig \<Rightarrow> fs \<Rightarrow> u64 \<Rightarrow> Bundle \<Rightarrow> string \<Rightarrow> bool" where
  "authentic N storage s now b sha \<longleftrightarrow>
     (\<exists>signer der. sealed_by (ce_ahu N) (ce_cms N) (b_manifest_bytes b) (b_seal_bytes b) signer \<and>
        trusted_signer N storage s now signer der \<and>
        sha = hex_encode (ce_ahu N) (sha256 (ce_ahu N) der)) \<and>
     scope_authorized N storage b sha"

lemma read_certs_Inr:
  "read_certs N s paths = Inr ders \<Longrightarrow> d \<in> set ders \<Longrightarrow> configured_cert N s paths d"
  by (auto simp: read_certs_def mapR_eq_Inr configured_cert_def dest: list_all2_in_set2)

lemma verify_configured_seal_Inr:
  assumes "verify_configured_seal N storage b anchors pins now = Inr v"
    and "read_certs N s (case so_seal_trust_anchors storage of None \<Rightarrow> [] | Some v \<Rightarrow> v) = Inr anchors"
    and "read_certs N s (so_seal_signer_pins storage) = Inr pins"
  shows "\<exists>signer der. sealed_by (ce_ahu N) (ce_cms N) (b_manifest_bytes b) (b_seal_bytes b) signer \<and>
     trusted_signer N storage s now signer der \<and> sv_signer_sha256 v = hex_encode (ce_ahu N) (sha256 (ce_ahu N) der)"
proof -
  let ?P = "verify_seal_with_pins (ce_ahu N) (ce_cms N) (b_manifest_bytes b) (b_seal_bytes b) pins now"
  let ?A = "verify_seal_with_anchors (ce_ahu N) (ce_cms N) (b_manifest_bytes b) (b_seal_bytes b) anchors now"
  consider "?P = Inr v" | "?A = Inr v"
    using assms(1) by (auto simp: verify_configured_seal_def Let_def split: if_splits sum.splits)
  then show ?thesis
  proof cases
    case 1
    obtain signer der pin c where
      "sealed_by (ce_ahu N) (ce_cms N) (b_manifest_bytes b) (b_seal_bytes b) signer"
      "ct_not_before signer \<le> now" "now < ct_not_after signer" "ct_der signer = Inr der"
      "sv_signer_sha256 v = hex_encode (ce_ahu N) (sha256 (ce_ahu N) der)"
      "pin \<in> set pins" "certificate_from_der (ce_cms N) pin = Inr c" "ct_der c = Inr der"
      using verify_seal_with_pins_Inr [OF 1] by blast
    then show ?thesis using read_certs_Inr [OF assms(3)] unfolding trusted_signer_def by blast
  next
    case 2
    obtain signer anchor der bs where *:
      "sealed_by (ce_ahu N) (ce_cms N) (b_manifest_bytes b) (b_seal_bytes b) signer"
      "ct_not_before signer \<le> now" "now < ct_not_after signer" "ct_der signer = Inr der"
      "sv_signer_sha256 v = hex_encode (ce_ahu N) (sha256 (ce_ahu N) der)"
      "bs \<in> set anchors" "certificate_from_der (ce_cms N) bs = Inr anchor"
      "ct_basic_constraints_ca anchor = Inr (Some True)"
      "signer = anchor \<or> issued_by (ce_ahu N) (ce_cms N) anchor signer"
      using verify_seal_with_anchors_Inr [OF 2] by blast
    have "so_seal_trust_anchors storage \<noteq> None" "configured_cert N s (the (so_seal_trust_anchors storage)) bs"
      using read_certs_Inr [OF assms(2) *(6)]
      by (cases "so_seal_trust_anchors storage"; auto simp: configured_cert_def)+
    then show ?thesis using * unfolding trusted_signer_def by blast
  qed
qed

lemma authenticate_bundle_Inr:
  assumes "authenticate_bundle N b storage now s = Inr v"
  shows "structurally_sound (ce_ahu N) b" and "b_seal_bytes b \<noteq> []"
    and "has_trust_anchors storage \<or> has_pins storage"
    and "authentic N storage s now b (sv_signer_sha256 v)"
proof -
  obtain anchors pins where *: "read_certs N s (case so_seal_trust_anchors storage of None \<Rightarrow> [] | Some v \<Rightarrow> v) = Inr anchors"
    "read_certs N s (so_seal_signer_pins storage) = Inr pins"
    "verify_configured_seal N storage b anchors pins now = Inr v"
    "scope_authorized N storage b (sv_signer_sha256 v)"
    "structurally_sound (ce_ahu N) b" "b_seal_bytes b \<noteq> []" "has_trust_anchors storage \<or> has_pins storage"
    using assms unfolding authenticate_bundle_def scope_authorized_def
    by (auto simp: result_inverts allR_eq_Inr list_ex_iff admission_verify_structure_Inr split: if_splits)
  show "structurally_sound (ce_ahu N) b" "b_seal_bytes b \<noteq> []" "has_trust_anchors storage \<or> has_pins storage"
    by (fact *)+
  show "authentic N storage s now b (sv_signer_sha256 v)"
    using verify_configured_seal_Inr [OF *(3,1,2)] *(4) by (auto simp: authentic_def)
qed

lemma admit_bundle_Inr:
  assumes "admit_bundle N b storage now s = Inr trust"
  shows "servable b" and "structurally_sound (ce_ahu N) b"
    and "case trust of
           UnauthenticatedDemo \<Rightarrow> so_allow_unauthenticated_bundles storage \<and> \<not> has_pins storage \<and>
             \<not> has_trust_anchors storage \<and> so_seal_authorizations storage = []
         | Authenticated sha \<Rightarrow> b_seal_bytes b \<noteq> [] \<and> authentic N storage s now b sha"
  using assms authenticate_bundle_Inr
  by (auto simp: admit_bundle_def bindR_eq_Inr validate_serving_profile_Inr admission_verify_structure_Inr
      has_pins_def has_trust_anchors_def split: if_splits option.splits)

end
