(* ===== verification/Core_Recovery.thy ===== *)
theory Core_Recovery
  imports Core_State
begin

text \<open>
  Crash recovery of the state directory. A crash leaves each path with the contents a reader saw last
  or with those known to be durable, independently of the other paths. A state is recoverable when
  its descriptor and every snapshot it names are durable and valid; then \<^verbatim>\<open>StateStore::open\<close> finds
  it again after any crash. The lemmas follow the operations of \<^verbatim>\<open>state.rs\<close>: recording epochs, writing
  a snapshot, and committing the descriptor, with the removal of obsolete generations.
\<close>

section \<open>Recoverable states\<close>

definition crash_of :: "fs \<Rightarrow> fs \<Rightarrow> bool" where
  "crash_of s c \<longleftrightarrow> (\<forall>p. fs_files c p = fs_files s p \<or> fs_files c p = fs_durable s p)"

definition holds_file :: "fs \<Rightarrow> path \<Rightarrow> bytes \<Rightarrow> bool" where
  "holds_file s p c \<longleftrightarrow> fs_files s p = Some c \<and> fs_durable s p = Some c"

text \<open>The contents of a snapshot that \<open>validate_snapshot\<close> accepts.\<close>

definition covers_scopes :: "externals \<Rightarrow> PersistedState \<Rightarrow> Manifest \<Rightarrow> bool" where
  "covers_scopes E ps m \<longleftrightarrow>
     (\<forall>scope \<in> set (mf_ca_scopes m). \<exists>hw \<ge> cs_epoch scope. map_of (ps_high_water_marks ps) (scope_key E m scope) = Some hw)"

definition snapshot_ok :: "externals \<Rightarrow> PersistedState \<Rightarrow> path \<Rightarrow> bytes \<Rightarrow> bool" where
  "snapshot_ok E ps p bytes \<longleftrightarrow>
     (\<exists>stem b. path_file_stem p = Some stem \<and> hex_decode E stem = Inr (sha256 E bytes) \<and>
        from_bytes E bytes = Inr b \<and> covers_scopes E ps (b_manifest b))"

definition marks_valid :: "core_env \<Rightarrow> PersistedState \<Rightarrow> bool" where
  "marks_valid N ps \<longleftrightarrow>
     (\<forall>d \<in> set (ps_manifest_digests ps). validate_digest N ps d = Inr ()) \<and>
     (\<forall>m \<in> set (ps_high_water_marks ps). validate_mark ps m = Inr ())"

definition snapshots_hold :: "core_env \<Rightarrow> PersistedState \<Rightarrow> fs \<Rightarrow> bool" where
  "snapshots_hold N ps s \<longleftrightarrow>
     (\<forall>(label, p) \<in> set (ps_active_bundles ps). \<exists>bytes. holds_file s p bytes \<and> snapshot_ok (ce_ahu N) ps p bytes)"

definition recoverable :: "core_env \<Rightarrow> path \<Rightarrow> PersistedState \<Rightarrow> fs \<Rightarrow> bool" where
  "recoverable N path ps s \<longleftrightarrow>
     (\<exists>json. holds_file s path json \<and> ce_json_from N json = Inr ps) \<and> marks_valid N ps \<and> snapshots_hold N ps s"

text \<open>\<^verbatim>\<open>hex::decode\<close> rejects a character that is not a hexadecimal digit.\<close>

definition hex_decode_digits :: "externals \<Rightarrow> bool" where
  "hex_decode_digits E \<longleftrightarrow> (\<forall>t bs. hex_decode E t = Inr bs \<longrightarrow> list_all is_ascii_hexdigit t)"

text \<open>\<^verbatim>\<open>hex::encode\<close> writes two digits per byte.\<close>

definition hex_length :: "externals \<Rightarrow> bool" where
  "hex_length E \<longleftrightarrow> (\<forall>bs. length (hex_encode E bs) = 2 * length bs)"

text \<open>What the store relies on in \<^verbatim>\<open>sha2\<close> and \<^verbatim>\<open>hex\<close>.\<close>

definition digest_laws :: "externals \<Rightarrow> bool" where
  "digest_laws E \<longleftrightarrow> sha256_length E \<and> hex_roundtrip E \<and> hex_digits E \<and> hex_length E \<and> hex_decode_digits E"

lemma validate_snapshot_scope_Inr:
  "validate_snapshot_scope N ps label m scope = Inr u \<longleftrightarrow>
     (\<exists>hw \<ge> cs_epoch scope. map_of (ps_high_water_marks ps) (scope_key (ce_ahu N) m scope) = Some hw)"
  by (auto simp: validate_snapshot_scope_def split: option.splits)

lemma validate_snapshot_Inr:
  "validate_snapshot N ps s (label, p) = Inr u \<longleftrightarrow>
     (\<exists>bytes. fs_files s p = Some bytes \<and> snapshot_ok (ce_ahu N) ps p bytes)"
  by (auto simp: validate_snapshot_def read_file_def result_inverts snapshot_ok_def covers_scopes_def
      allR_eq_Inr validate_snapshot_scope_Inr)

lemma validate_persisted_Inr:
  "validate_persisted N ps s = Inr u \<longleftrightarrow>
     marks_valid N ps \<and> (\<forall>(label, p) \<in> set (ps_active_bundles ps).
        \<exists>bytes. fs_files s p = Some bytes \<and> snapshot_ok (ce_ahu N) ps p bytes)"
  by (auto simp: validate_persisted_def marks_valid_def bindR_eq_Inr allR_eq_Inr validate_snapshot_Inr)

lemma open_store_Inr:
  "open_store N path s = Inr st \<longleftrightarrow>
     st_path st = path \<and> st_staged st = False \<and>
     (\<exists>json. fs_files s path = Some json \<and> ce_json_from N json = Inr (st_state st)) \<and>
     validate_persisted N (st_state st) s = Inr ()"
  by (cases st) (auto simp: open_store_def read_file_def result_inverts)

lemma crash_holds: "crash_of s c \<Longrightarrow> holds_file s p bytes \<Longrightarrow> fs_files c p = Some bytes"
  unfolding crash_of_def holds_file_def by metis

lemma recoverable_open:
  assumes "recoverable N path ps s" and "crash_of s c"
  shows "open_store N path c = Inr \<lparr>st_path = path, st_state = ps, st_staged = False\<rparr>"
  using assms crash_holds [OF assms(2)]
  by (fastforce simp: recoverable_def open_store_Inr validate_persisted_Inr snapshots_hold_def)

section \<open>Recording epochs keeps a state valid\<close>

lemma set_update_subset: "set (AList.update k v al) \<subseteq> insert (k, v) (set al)"
  by (induction al) auto

lemma validate_digest_Inr:
  "validate_digest N ps (k, h) = Inr u \<longleftrightarrow>
     (\<exists>d. hex_decode (ce_ahu N) h = Inr d \<and> length d = 32) \<and> map_of (ps_high_water_marks ps) k \<noteq> None"
  by (auto simp: validate_digest_def result_inverts split: if_splits)

lemma validate_mark_Inr: "validate_mark ps (k, e) = Inr u \<longleftrightarrow> map_of (ps_manifest_digests ps) k \<noteq> None"
  by (auto simp: validate_mark_def)

lemma raise_mark_valid:
  assumes "marks_valid N ps" and "hex_roundtrip (ce_ahu N)" and "length d = 32"
  shows "marks_valid N (raise_mark (ce_ahu N) key e d ps)"
proof (cases "case map_of (ps_high_water_marks ps) key of None \<Rightarrow> True | Some c \<Rightarrow> c < e")
  case True
  let ?ps = "raise_mark (ce_ahu N) key e d ps"
  have digests: "validate_digest N ?ps (k, h) = Inr ()" if "(k, h) \<in> set (ps_manifest_digests ?ps)" for k h
  proof -
    have "(k, h) = (key, hex_encode (ce_ahu N) d) \<or> (k, h) \<in> set (ps_manifest_digests ps)"
      using that True set_update_subset by (fastforce simp: raise_mark_def)
    then show ?thesis
      using True assms by (auto simp: marks_valid_def validate_digest_Inr raise_mark_marks hex_roundtripD)
  qed
  have marks: "validate_mark ?ps (k, c) = Inr ()" if "(k, c) \<in> set (ps_high_water_marks ?ps)" for k c
  proof -
    have "(k, c) = (key, e) \<or> (k, c) \<in> set (ps_high_water_marks ps)"
      using that True set_update_subset by (fastforce simp: raise_mark_def)
    then show ?thesis
      using True assms by (auto simp: marks_valid_def validate_mark_Inr raise_mark_digests)
  qed
  show ?thesis using digests marks by (auto simp: marks_valid_def)
qed (use assms in \<open>simp add: raise_mark_def\<close>)

lemma record_scopes_valid:
  assumes "marks_valid N ps" and "hex_roundtrip (ce_ahu N)" and "sha256_length (ce_ahu N)"
  shows "marks_valid N (record_scopes (ce_ahu N) b scopes ps)"
  using assms(1)
  by (induction scopes arbitrary: ps) (simp_all add: raise_mark_valid assms(2,3) sha256_lengthD)

lemma covers_scopes_record:
  assumes "covers_scopes E ps m"
  shows "covers_scopes E (record_scopes E' b scopes ps) m"
  using assms record_scopes_mono order_trans unfolding covers_scopes_def by meson

lemma snapshot_ok_record:
  "snapshot_ok E ps p bytes \<Longrightarrow> snapshot_ok E (record_scopes E' b scopes ps) p bytes"
  using covers_scopes_record unfolding snapshot_ok_def by blast

lemma record_bundle_covers: "covers_scopes E (record_bundle E b ps) (b_manifest b)"
  using record_scopes_covers by (fastforce simp: covers_scopes_def record_bundle_def)

section \<open>File names\<close>

lemma split_extension_ahu: "d \<noteq> [] \<Longrightarrow> split_extension (d @ ''.ahu'') = (d, Some ''ahu'')"
  by (simp add: split_extension_def)

lemma split_extension_prefix: "\<exists>rest. name = fst (split_extension name) @ rest"
proof (cases "dropWhile (\<lambda>c. c \<noteq> CHR ''.'') (rev name)")
  case (Cons c cs)
  then have "rev name = takeWhile (\<lambda>c. c \<noteq> CHR ''.'') (rev name) @ c # cs"
    using takeWhile_dropWhile_id [of "\<lambda>c. c \<noteq> CHR ''.''" "rev name"] by simp
  then have "name = rev cs @ c # rev (takeWhile (\<lambda>c. c \<noteq> CHR ''.'') (rev name))"
    by (simp add: rev_swap)
  then have "\<exists>rest. name = rev cs @ rest" by blast
  then show ?thesis using Cons by (cases cs) (simp_all add: split_extension_def)
qed (simp add: split_extension_def)

lemma split_extension_stem_Nil: "fst (split_extension name) = [] \<longleftrightarrow> name = []"
  by (auto simp: split_extension_def Let_def)

text \<open>A file whose stem is hexadecimal is neither a temporary file nor the descriptor.\<close>

lemma hex_stem_name:
  assumes "path_file_stem p = Some stem" and "list_all is_ascii_hexdigit stem"
  shows "\<not> is_tmp p" and "last p \<noteq> ''state.json''"
proof -
  have p: "p \<noteq> []" "stem = fst (split_extension (last p))"
    using assms(1) by (auto simp: path_file_stem_def path_file_name_def split: if_splits)
  obtain rest where rest: "last p = stem @ rest" using split_extension_prefix p(2) by metis
  have *: "is_ascii_hexdigit c" if "last p = c # cs" for c cs
  proof -
    have "stem \<noteq> []" unfolding p(2) split_extension_stem_Nil using that by simp
    then show ?thesis using that rest assms(2) by (cases stem) simp_all
  qed
  show "\<not> is_tmp p"
  proof
    assume "is_tmp p"
    then obtain cs where "last p = CHR ''.'' # cs"
      unfolding is_tmp_def is_tmp_name_def starts_with_def by (cases "last p") auto
    then show False using * [of "CHR ''.''" cs] by (simp add: is_ascii_hexdigit_def)
  qed
  show "last p \<noteq> ''state.json''"
    using * [of "CHR ''s''" "''tate.json''"] by (auto simp: is_ascii_hexdigit_def)
qed

lemma snapshot_ok_name:
  assumes "snapshot_ok E ps p bytes" and "hex_decode_digits E"
  shows "\<not> is_tmp p" and "last p \<noteq> ''state.json''"
  using assms hex_stem_name unfolding snapshot_ok_def hex_decode_digits_def by blast+

lemma descriptor_name: "last p = ''state.json'' \<Longrightarrow> \<not> is_tmp p" "last p = ''state.json'' \<Longrightarrow> \<not> is_generated p"
proof -
  assume p: "last p = ''state.json''"
  show "\<not> is_tmp p" using p by (simp add: is_tmp_def is_tmp_name_def starts_with_def)
  have "path_extension p \<noteq> Some ''ahu''"
    using p by (simp add: path_extension_def path_file_name_def split_extension_def)
  then show "\<not> is_generated p" by (simp add: is_generated_def)
qed

section \<open>Snapshots\<close>

definition snapshot_path :: "externals \<Rightarrow> path \<Rightarrow> bytes \<Rightarrow> path" where
  "snapshot_path E path bytes = path_join (generations_dir path) (hex_encode E (sha256 E bytes) @ ''.ahu'')"

definition reference_snapshot :: "string \<Rightarrow> path \<Rightarrow> PersistedState \<Rightarrow> PersistedState" where
  "reference_snapshot label p ps = ps\<lparr>ps_active_bundles := AList.update label p (ps_active_bundles ps)\<rparr>"

lemma snapshot_path_stem:
  assumes "digest_laws E"
  shows "path_file_stem (snapshot_path E path bytes) = Some (hex_encode E (sha256 E bytes))"
proof -
  have "hex_encode E (sha256 E bytes) \<noteq> []"
    using assms by (auto simp: digest_laws_def hex_length_def sha256_length_def simp flip: length_0_conv)
  moreover have "(d @ ''.ahu'') \<notin> {''/'', ''.'', ''..''}" for d :: string
    by (auto simp: append_eq_Cons_conv)
  ultimately show ?thesis
    by (simp add: path_file_stem_def path_file_name_def snapshot_path_def path_join_def split_extension_ahu)
qed

lemma snapshot_path_name:
  assumes "digest_laws E"
  shows "\<not> is_tmp (snapshot_path E path bytes)" and "last (snapshot_path E path bytes) \<noteq> ''state.json''"
proof -
  have "set (hex_encode E (sha256 E bytes)) \<subseteq> set ''0123456789abcdef''"
    using assms by (simp only: digest_laws_def hex_digits_def)
  moreover have "set ''0123456789abcdef'' \<subseteq> set ''0123456789abcdefABCDEF''" by simp
  ultimately have hex: "list_all is_ascii_hexdigit (hex_encode E (sha256 E bytes))"
    unfolding list_all_iff is_ascii_hexdigit_def by blast
  show "\<not> is_tmp (snapshot_path E path bytes)" "last (snapshot_path E path bytes) \<noteq> ''state.json''"
    by (rule hex_stem_name [OF snapshot_path_stem [OF assms] hex])+
qed

lemma write_next_cases:
  assumes "write_next N p bytes s = (r, s')" and "\<not> is_tmp p"
  shows "(r = Inr () \<and> holds_file s' p bytes) \<or>
         (\<exists>d m. r = Inl (DurabilityUncertain d m) \<and> fs_files s' p = Some bytes \<and> fs_durable s' p = fs_durable s p) \<or>
         (\<exists>e. r = Inl e \<and> (\<forall>d m. e \<noteq> DurabilityUncertain d m) \<and>
              fs_files s' p = fs_files s p \<and> fs_durable s' p = fs_durable s p)"
  using write_atomic_cases [OF assms(1) [unfolded write_next_def] assms(2)] by (simp add: holds_file_def)

lemma write_next_frame:
  assumes "write_next N path bytes s = (r, s')" and "p \<noteq> path" and "\<not> is_tmp p"
  shows "fs_files s' p = fs_files s p" and "fs_durable s' p = fs_durable s p"
  using write_atomic_frame [OF assms(1) [unfolded write_next_def] assms(2,3)] by simp_all

text \<open>The two file systems agree, now and after a crash, on the paths that are not temporary and not in a set.\<close>

definition same_but :: "path set \<Rightarrow> fs \<Rightarrow> fs \<Rightarrow> bool" where
  "same_but P s s' \<longleftrightarrow>
     (\<forall>p. p \<notin> P \<longrightarrow> \<not> is_tmp p \<longrightarrow> fs_files s' p = fs_files s p \<and> fs_durable s' p = fs_durable s p)"

lemma same_but_trans: "same_but P s s1 \<Longrightarrow> same_but Q s1 s2 \<Longrightarrow> P \<union> Q \<subseteq> R \<Longrightarrow> same_but R s s2"
  unfolding same_but_def by (metis UnCI subsetD)

lemma same_but_mono: "same_but P s s' \<Longrightarrow> P \<subseteq> Q \<Longrightarrow> same_but Q s s'"
  by (auto simp: same_but_def)

lemma write_next_same_but: "write_next N path bytes s = (r, s') \<Longrightarrow> same_but {path} s s'"
  by (auto simp: same_but_def write_next_frame)

lemma same_but_holds: "same_but P s s' \<Longrightarrow> p \<notin> P \<Longrightarrow> \<not> is_tmp p \<Longrightarrow> holds_file s' p c \<longleftrightarrow> holds_file s p c"
  by (auto simp: same_but_def holds_file_def)

lemma snapshot_same_but:
  assumes "snapshot N label b st s = (r, s')"
  shows "case to_bytes b of Inr bytes \<Rightarrow> same_but {snapshot_path (ce_ahu N) (st_path st) bytes} s s'
           | Inl _ \<Rightarrow> s' = s"
  using assms
  by (auto simp: snapshot_def snapshot_path_def Let_def map_errR_def same_but_def bindIO_def liftIO_def modifyIO_def
      failIO_def returnIO_def write_next_frame split: sum.splits option.splits if_splits prod.splits)

lemma snapshot_Inr:
  assumes "snapshot N label b st s = (Inr st', s')" and "digest_laws (ce_ahu N)"
  shows "\<exists>bytes. to_bytes b = Inr bytes \<and>
     st' = st\<lparr>st_state := reference_snapshot label (snapshot_path (ce_ahu N) (st_path st) bytes) (st_state st)\<rparr> \<and>
     (holds_file s' (snapshot_path (ce_ahu N) (st_path st) bytes) bytes \<or>
      fs_files s (snapshot_path (ce_ahu N) (st_path st) bytes) = Some bytes \<and>
      same_but {} s s')"
proof -
  obtain bytes where bytes: "to_bytes b = Inr bytes"
    using assms(1) by (auto simp: snapshot_def io_inverts result_inverts)
  let ?p = "snapshot_path (ce_ahu N) (st_path st) bytes"
  have "\<not> is_tmp ?p" using snapshot_path_name(1) [OF assms(2)] .
  then show ?thesis
    using assms(1) bytes
    by (auto simp: snapshot_def io_inverts result_inverts Let_def snapshot_path_def [symmetric] reference_snapshot_def
        same_but_def split: option.splits if_splits dest!: write_next_cases)
qed

text \<open>
  A snapshot of a bundle that was parsed from a file is valid under marks that cover its scopes:
  its bytes parse to the same manifest.
\<close>

lemma snapshot_ok_written:
  assumes "digest_laws E" and "to_bytes b = Inr bytes" and "vec_fits bytes"
    and "from_bytes E input = Inr b" and "covers_scopes E ps (b_manifest b)"
  shows "snapshot_ok E ps (snapshot_path E path bytes) bytes"
proof -
  obtain h where "from_bytes E bytes = Inr (b\<lparr>b_header := h\<rparr>)"
    using from_bytes_to_bytes [OF assms(2,3) from_bytes_wf [OF assms(4)]] by blast
  then show ?thesis
    using assms(1,5) snapshot_path_stem [OF assms(1), of path bytes]
    by (auto simp: snapshot_ok_def digest_laws_def hex_roundtripD)
qed

section \<open>Committing\<close>

lemma foldl_unlink:
  assumes "\<not> is_generated q \<or> q \<in> A"
  shows "fs_files (foldl (\<lambda>s' n. let p = path_join dir n in
       if is_generated p \<and> p \<notin> A \<and> \<not> f p then set_file p None s' else s') s ns) q = fs_files s q"
  using assms by (induction ns arbitrary: s) (auto simp: Let_def)

lemma foldl_unlink_durable:
  "fs_durable (foldl (\<lambda>s' n. let p = path_join dir n in
       if is_generated p \<and> p \<notin> A \<and> \<not> f p then set_file p None s' else s') s ns) = fs_durable s"
  by (induction ns arbitrary: s) (auto simp: Let_def)

lemma collect_generations_keeps:
  assumes "\<not> is_generated q \<or> q \<in> snd ` set (ps_active_bundles ps)"
  shows "fs_files (collect_generations N dir ps s) q = fs_files s q"
  using foldl_unlink [of q "set (map snd (ps_active_bundles ps))"] assms by (simp add: collect_generations_def)

lemma collect_generations_durable [simp]: "fs_durable (collect_generations N dir ps s) = fs_durable s"
  using foldl_unlink_durable [of dir "set (map snd (ps_active_bundles ps))"] by (simp add: collect_generations_def)

lemma snapshots_hold_same:
  assumes "snapshots_hold N ps s" and "hex_decode_digits (ce_ahu N)" and "same_but P s s'"
    and "P \<inter> snd ` set (ps_active_bundles ps) = {}"
  shows "snapshots_hold N ps s'"
proof (unfold snapshots_hold_def, clarify)
  fix label p assume active: "(label, p) \<in> set (ps_active_bundles ps)"
  then obtain bytes where bytes: "holds_file s p bytes" "snapshot_ok (ce_ahu N) ps p bytes"
    using assms(1) by (auto simp: snapshots_hold_def)
  have "p \<notin> P" using active assms(4) by force
  then show "\<exists>bytes. holds_file s' p bytes \<and> snapshot_ok (ce_ahu N) ps p bytes"
    using bytes same_but_holds [OF assms(3)] snapshot_ok_name(1) [OF bytes(2) assms(2)] by blast
qed

text \<open>What a commit leaves behind, for each of its outcomes.\<close>

lemma commit_cases:
  assumes "commit N cand st s = (r, s')" and "last (st_path cand) = ''state.json''" and "st_path cand = st_path st"
  shows "(\<exists>json s1. r = Inr (st\<lparr>st_state := st_state cand\<rparr>) \<and> ce_json_to N (st_state cand) = Inr json \<and>
            same_but {st_path cand} s s1 \<and> holds_file s1 (st_path cand) json \<and>
            s' = collect_generations N (generations_dir (st_path st)) (st_state cand) s1) \<or>
         (\<exists>json d m. r = Inl (DurabilityUncertain d m) \<and> ce_json_to N (st_state cand) = Inr json \<and>
            same_but {st_path cand} s s' \<and> fs_files s' (st_path cand) = Some json \<and>
            fs_durable s' (st_path cand) = fs_durable s (st_path cand)) \<or>
         (\<exists>e. r = Inl e \<and> (\<forall>d m. e \<noteq> DurabilityUncertain d m) \<and> same_but {} s s')"
proof (cases "ce_json_to N (st_state cand)")
  case (Inl e)
  then show ?thesis
    using assms(1) by (auto simp: commit_def persist_def bindIO_def liftIO_def map_errR_def same_but_def)
next
  case (Inr json)
  obtain r1 s1 where w: "write_next N (st_path cand) json s = (r1, s1)" by force
  have tmp: "\<not> is_tmp (st_path cand)" using descriptor_name(1) [OF assms(2)] .
  have persist: "persist N cand s = (r1, s1)"
    using Inr w by (simp add: persist_def bindIO_def liftIO_def map_errR_def)
  have same: "same_but {st_path cand} s s1" using write_next_same_but [OF w] .
  consider "r1 = Inr ()" "holds_file s1 (st_path cand) json"
    | d m where "r1 = Inl (DurabilityUncertain d m)" "fs_files s1 (st_path cand) = Some json"
        "fs_durable s1 (st_path cand) = fs_durable s (st_path cand)"
    | e where "r1 = Inl e" "\<forall>d m. e \<noteq> DurabilityUncertain d m" "fs_files s1 (st_path cand) = fs_files s (st_path cand)"
        "fs_durable s1 (st_path cand) = fs_durable s (st_path cand)"
    using write_next_cases [OF w tmp] by blast
  then show ?thesis
  proof cases
    case 1
    then show ?thesis
      using assms(1,3) persist same Inr by (auto simp: commit_def bindIO_def Let_def modifyIO_def returnIO_def)
  next
    case 2
    then show ?thesis using assms(1) persist same Inr by (auto simp: commit_def bindIO_def)
  next
    case 3
    then have "same_but {} s s1" using same unfolding same_but_def by (metis singletonD)
    then show ?thesis using 3 assms(1) persist by (auto simp: commit_def bindIO_def)
  qed
qed

end
