(* ===== verification/Core_Install.thy ===== *)
theory Core_Install
  imports Core_Admission Core_Recovery
begin

text \<open>
  Offline installation of a bundle (\<^verbatim>\<open>crates/hoike-core/src/install.rs\<close>): the checks that read only,
  then the snapshot, the commit of the descriptor, and the publication of the configured path. The
  lemmas show that the descriptor is the commit point: after any outcome and any crash, the state
  directory opens to the state before or to the one installed.
\<close>

section \<open>Installing\<close>

record InstallResult =
  is_destination :: path
  is_publication_warning :: "string option"

definition state_file :: "Config \<Rightarrow> path" where
  "state_file config = path_join (so_state_db (cf_storage config)) ''state.json''"

definition clock_now :: "core_env \<Rightarrow> core_error + u64" where
  "clock_now N = ok_orR (ConfigError ''second time provided was later than self'') (ce_now N)"

text \<open>Everything before the first write: nothing here changes the file system.\<close>

definition install_checks ::
    "core_env \<Rightarrow> Config \<Rightarrow> string \<Rightarrow> bytes \<Rightarrow> StateDirectoryLock \<Rightarrow> fs \<Rightarrow> core_error + path \<times> Bundle \<times> StateStore" where
  "install_checks N config label bytes guard s =
     bindR (ok_orR (ConfigError (''cannot resolve state directory '' @ show_path (so_state_db (cf_storage config))))
              (ce_canonicalize N (so_state_db (cf_storage config)))) (\<lambda>state_dir.
     if sl_state_dir guard \<noteq> state_dir
     then Inl (ConfigError (''writer guard protects state directory '' @ show_path (sl_state_dir guard)
            @ '' but the configuration uses '' @ show_path state_dir))
     else
     bindR (bundle_destination (ce_canonicalize N) config label) (\<lambda>destination.
     bindR (map_errR BundleError (from_bytes (ce_ahu N) bytes)) (\<lambda>b.
     bindR (clock_now N) (\<lambda>now.
     bindR (authenticate_bundle N b (cf_storage config) now s) (\<lambda>verification.
     bindR (validate_serving_profile b) (\<lambda>_.
     bindR (open_store N (state_file config) s) (\<lambda>store.
     bindR (check_rollback (ce_ahu N) store b) (\<lambda>_.
     bindR (check_continuity (ce_ahu N) store b) (\<lambda>_.
     Inr (destination, b, store))))))))))"

definition publish :: "core_env \<Rightarrow> string \<Rightarrow> path \<Rightarrow> bytes \<Rightarrow> InstallResult io" where
  "publish N label destination bytes = (\<lambda>s.
     case write_next N destination bytes s of
       (Inr _, s') \<Rightarrow> (Inr \<lparr>is_destination = destination, is_publication_warning = None\<rparr>, s')
     | (Inl e, s') \<Rightarrow>
         (Inr \<lparr>is_destination = destination, is_publication_warning =
            Some (''installation for CA '' @ label @ '' is committed, but publishing the configured bundle path ''
                   @ show_path destination @ '' failed'')\<rparr>, s'))"

definition install_bundle ::
    "core_env \<Rightarrow> Config \<Rightarrow> string \<Rightarrow> bytes \<Rightarrow> StateDirectoryLock \<Rightarrow> InstallResult io" where
  "install_bundle N config label bytes guard =
     bindIO (readIO (install_checks N config label bytes guard)) (\<lambda>(destination, b, store).
     bindIO (advance_from_bundle N b (transaction store)) (\<lambda>advanced.
     bindIO (snapshot N label b advanced) (\<lambda>candidate.
     bindIO (commit N candidate store) (\<lambda>_.
     publish N label destination bytes))))"

section \<open>The steps of an installation\<close>

lemma install_checks_Inr:
  assumes "install_checks N config label bytes guard s = Inr (destination, b, store)"
  shows "bundle_destination (ce_canonicalize N) config label = Inr destination"
    and "from_bytes (ce_ahu N) bytes = Inr b" and "servable b"
    and "open_store N (state_file config) s = Inr store"
    and "check_rollback (ce_ahu N) store b = Inr ()" and "check_continuity (ce_ahu N) store b = Inr ()"
    and "ce_canonicalize N (so_state_db (cf_storage config)) = Some (sl_state_dir guard)"
    and "\<exists>now v. ce_now N = Some now \<and> authenticate_bundle N b (cf_storage config) now s = Inr v"
  using assms
  by (auto simp: install_checks_def clock_now_def result_inverts validate_serving_profile_Inr split: if_splits)

text \<open>The state an installation commits: the marks of the bundle and its snapshot, the rest unchanged.\<close>

definition installed_state :: "externals \<Rightarrow> string \<Rightarrow> Bundle \<Rightarrow> path \<Rightarrow> bytes \<Rightarrow> PersistedState \<Rightarrow> PersistedState" where
  "installed_state E label b path out ps = reference_snapshot label (snapshot_path E path out) (record_bundle E b ps)"

lemma installed_state_marks:
  "ps_high_water_marks (installed_state E label b path out ps) = ps_high_water_marks (record_bundle E b ps)"
  "ps_manifest_digests (installed_state E label b path out ps) = ps_manifest_digests (record_bundle E b ps)"
  by (simp_all add: installed_state_def reference_snapshot_def)

lemma installed_state_active:
  "map_of (ps_active_bundles (installed_state E label b path out ps)) =
     (map_of (ps_active_bundles ps))(label \<mapsto> snapshot_path E path out)"
  by (simp add: installed_state_def reference_snapshot_def record_bundle_def update_conv')

lemma installed_active_subset:
  "set (ps_active_bundles (installed_state E label b path out ps)) \<subseteq>
     insert (label, snapshot_path E path out) (set (ps_active_bundles ps))"
  using set_update_subset [of label "snapshot_path E path out" "ps_active_bundles ps"]
  by (simp add: installed_state_def reference_snapshot_def record_bundle_def)

lemma installed_state_valid:
  assumes "marks_valid N ps" and "digest_laws (ce_ahu N)"
  shows "marks_valid N (installed_state (ce_ahu N) label b path out ps)"
proof -
  have "marks_valid N (record_bundle (ce_ahu N) b ps)"
    using assms record_scopes_valid by (simp add: record_bundle_def digest_laws_def)
  then show ?thesis
    by (auto simp: marks_valid_def validate_digest_Inr validate_mark_Inr installed_state_marks)
qed

lemma snapshot_ok_installed:
  "snapshot_ok E (installed_state E label b path out ps) p bytes \<longleftrightarrow> snapshot_ok E (record_bundle E b ps) p bytes"
  by (simp add: snapshot_ok_def covers_scopes_def installed_state_marks)

text \<open>
  An installation goes through the checks, the snapshot and the commit in this order, and fails at
  the first that does; after the commit it does not fail.
\<close>

lemma install_bundle_refused:
  assumes "install_checks N config label bytes guard s = Inl e"
  shows "install_bundle N config label bytes guard s = (Inl e, s)"
  using assms by (simp add: install_bundle_def bindIO_def readIO_def)

lemma install_bundle_steps:
  assumes "install_bundle N config label bytes guard s = (r, s')"
    and "install_checks N config label bytes guard s = Inr (destination, b, store)"
  shows "(\<exists>e. snapshot N label b (note_store (ce_ahu N) b (transaction store)) s = (Inl e, s') \<and> r = Inl e) \<or>
    (\<exists>candidate s1. snapshot N label b (note_store (ce_ahu N) b (transaction store)) s = (Inr candidate, s1) \<and>
      ((\<exists>e. commit N candidate store s1 = (Inl e, s') \<and> r = Inl e) \<or>
       (\<exists>st s2. commit N candidate store s1 = (Inr st, s2) \<and> publish N label destination bytes s2 = (r, s'))))"
proof -
  have "advance_from_bundle N b (transaction store) = returnIO (note_store (ce_ahu N) b (transaction store))"
    by (rule advance_from_bundle_staged) (simp add: transaction_def)
  then show ?thesis
    using assms unfolding install_bundle_def
    by (auto simp: bindIO_def readIO_def returnIO_def split: prod.splits sum.splits)
qed

section \<open>Installation is atomic under crashes\<close>

lemma last_state_file [simp]: "last (state_file config) = ''state.json''"
  by (simp add: state_file_def path_join_def)

lemma recoverable_same:
  assumes "recoverable N path ps s" and "last path = ''state.json''" and "digest_laws (ce_ahu N)"
    and "same_but P s s'" and "path \<notin> P" and "P \<inter> snd ` set (ps_active_bundles ps) = {}"
  shows "recoverable N path ps s'"
proof -
  have "snapshots_hold N ps s'"
    using assms(1,3) snapshots_hold_same [OF _ _ assms(4,6)] by (simp add: recoverable_def digest_laws_def)
  then show ?thesis
    using assms(1) same_but_holds [OF assms(4,5) descriptor_name(1) [OF assms(2)]] by (auto simp: recoverable_def)
qed

text \<open>
  What an installation relies on: the recorded state is durable and valid, a generation that can be
  read is durable, no recorded snapshot collides with the new one under SHA-256, the bundle fits in
  memory, JSON written is read back, and the configured destination is neither the descriptor nor
  a generation.
\<close>

definition install_ready :: "core_env \<Rightarrow> Config \<Rightarrow> string \<Rightarrow> bytes \<Rightarrow> PersistedState \<Rightarrow> fs \<Rightarrow> bool" where
  "install_ready N config label bytes old s \<longleftrightarrow>
     digest_laws (ce_ahu N) \<and>
     (\<forall>ps json. ce_json_to N ps = Inr json \<longrightarrow> ce_json_from N json = Inr ps) \<and>
     recoverable N (state_file config) old s \<and>
     (\<forall>p c. butlast p = generations_dir (state_file config) \<longrightarrow> fs_files s p = Some c \<longrightarrow> fs_durable s p = Some c) \<and>
     (\<forall>b out. from_bytes (ce_ahu N) bytes = Inr b \<longrightarrow> to_bytes b = Inr out \<longrightarrow>
        vec_fits out \<and>
        (\<forall>(l, p) \<in> set (ps_active_bundles old). \<forall>c. fs_files s p = Some c \<longrightarrow>
           sha256 (ce_ahu N) c = sha256 (ce_ahu N) out \<longrightarrow> c = out)) \<and>
     (\<forall>d. bundle_destination (ce_canonicalize N) config label = Inr d \<longrightarrow>
        d \<noteq> state_file config \<and> butlast d \<noteq> generations_dir (state_file config) \<and>
        d \<notin> snd ` set (ps_active_bundles old))"

lemma snapshot_equal:
  assumes "snapshot N label b st s = (r, s')" and "to_bytes b = Inr out"
    and "fs_files s (snapshot_path (ce_ahu N) (st_path st) out) = Some out"
  shows "same_but {} s s'"
  using assms
  by (auto simp: snapshot_def snapshot_path_def Let_def map_errR_def same_but_def bindIO_def liftIO_def modifyIO_def
      failIO_def returnIO_def split: option.splits if_splits)

text \<open>Writing the snapshot of a bundle disturbs nothing the recorded state needs.\<close>

lemma snapshot_keeps_old:
  assumes ready: "install_ready N config label bytes old s" and b: "from_bytes (ce_ahu N) bytes = Inr b"
    and snap: "snapshot N label b st s = (r, s')" and path: "st_path st = state_file config"
  shows "recoverable N (state_file config) old s'"
proof (cases "to_bytes b")
  case (Inl e)
  then show ?thesis using snapshot_same_but [OF snap] ready by (simp add: install_ready_def)
next
  case (Inr out)
  let ?E = "ce_ahu N" and ?p = "snapshot_path (ce_ahu N) (state_file config) out"
  have laws: "digest_laws ?E" and rec: "recoverable N (state_file config) old s"
    using ready by (simp_all add: install_ready_def)
  have p: "?p \<noteq> state_file config" using snapshot_path_name(2) [OF laws] last_state_file by metis
  have "\<exists>P \<subseteq> {?p}. same_but P s s' \<and> P \<inter> snd ` set (ps_active_bundles old) = {}"
  proof (cases "?p \<in> snd ` set (ps_active_bundles old)")
    case True
    then obtain l where active: "(l, ?p) \<in> set (ps_active_bundles old)" by auto
    then obtain c where c: "holds_file s ?p c" "snapshot_ok ?E old ?p c"
      using rec by (fastforce simp: recoverable_def snapshots_hold_def)
    have "sha256 ?E c = sha256 ?E out"
      using c(2) snapshot_path_stem [OF laws] laws by (auto simp: snapshot_ok_def digest_laws_def hex_roundtripD)
    then have "c = out" using ready b Inr active c(1) by (fastforce simp: install_ready_def holds_file_def)
    then have "same_but {} s s'" using snapshot_equal [OF snap Inr] c(1) path by (simp add: holds_file_def)
    then show ?thesis by (intro exI [of _ "{}"]) simp
  next
    case False
    then show ?thesis
      using snapshot_same_but [OF snap] Inr path by (intro exI [of _ "{?p}"]) simp
  qed
  then obtain P where P: "P \<subseteq> {?p}" "same_but P s s'" "P \<inter> snd ` set (ps_active_bundles old) = {}" by blast
  have "state_file config \<notin> P" using P(1) p by auto
  then show ?thesis using recoverable_same [OF rec last_state_file laws P(2) _ P(3)] by blast
qed

text \<open>After the snapshot is written, everything the new descriptor will name is durable and valid.\<close>

lemma snapshot_prepares_new:
  assumes ready: "install_ready N config label bytes old s" and b: "from_bytes (ce_ahu N) bytes = Inr b"
    and snap: "snapshot N label b (note_store (ce_ahu N) b st) s = (Inr cand, s')"
    and st: "st_path st = state_file config" "st_state st = old"
  shows "\<exists>out. to_bytes b = Inr out \<and> st_path cand = state_file config \<and>
    st_state cand = installed_state (ce_ahu N) label b (state_file config) out old \<and>
    marks_valid N (st_state cand) \<and> snapshots_hold N (st_state cand) s'"
proof -
  let ?E = "ce_ahu N"
  have laws: "digest_laws ?E" and rec: "recoverable N (state_file config) old s"
    using ready by (simp_all add: install_ready_def)
  obtain out where out: "to_bytes b = Inr out"
    "cand = (note_store ?E b st)\<lparr>st_state := installed_state ?E label b (state_file config) out old\<rparr>"
    "holds_file s' (snapshot_path ?E (state_file config) out) out \<or>
     fs_files s (snapshot_path ?E (state_file config) out) = Some out \<and> same_but {} s s'"
    using snapshot_Inr [OF snap laws] st by (auto simp: note_store_def installed_state_def)
  let ?p = "snapshot_path ?E (state_file config) out" and ?new = "installed_state ?E label b (state_file config) out old"
  have fits: "vec_fits out" using ready b out(1) by (simp add: install_ready_def)
  have valid: "marks_valid N ?new" using rec laws by (simp add: recoverable_def installed_state_valid)
  have "fs_durable s ?p = Some out" if "fs_files s ?p = Some out"
    using that ready by (simp add: install_ready_def snapshot_path_def path_join_def)
  then have held: "holds_file s' ?p out"
    using out(3) same_but_holds [of "{}" s s' ?p out] snapshot_path_name(1) [OF laws] by (auto simp: holds_file_def)
  have ok: "snapshot_ok ?E ?new ?p out"
    using snapshot_ok_written [OF laws out(1) fits b record_bundle_covers] by (simp add: snapshot_ok_installed)
  have old: "snapshots_hold N old s'"
    using snapshot_keeps_old [OF ready b snap] st by (simp add: note_store_def recoverable_def)
  have "\<exists>c. holds_file s' p c \<and> snapshot_ok ?E ?new p c" if "(l, p) \<in> set (ps_active_bundles ?new)" for l p
  proof (cases "(l, p) \<in> set (ps_active_bundles old)")
    case True
    then show ?thesis
      using old snapshot_ok_record unfolding snapshots_hold_def snapshot_ok_installed record_bundle_def by blast
  next
    case False
    then have "p = ?p" using that installed_active_subset by fastforce
    then show ?thesis using held ok by blast
  qed
  then have "snapshots_hold N ?new s'" by (auto simp: snapshots_hold_def)
  then show ?thesis using out valid st by (auto simp: note_store_def)
qed

text \<open>The commit moves a recoverable directory from one state to the next, or leaves it as it is.\<close>

definition opens_to :: "core_env \<Rightarrow> path \<Rightarrow> fs \<Rightarrow> PersistedState \<Rightarrow> bool" where
  "opens_to N path s ps \<longleftrightarrow> open_store N path s = Inr \<lparr>st_path = path, st_state = ps, st_staged = False\<rparr>"

lemma opens_to_iff:
  "opens_to N path s ps \<longleftrightarrow>
     (\<exists>json. fs_files s path = Some json \<and> ce_json_from N json = Inr ps) \<and> validate_persisted N ps s = Inr ()"
  by (auto simp: opens_to_def open_store_Inr)

lemma recoverable_opens_to: "recoverable N path ps s \<Longrightarrow> crash_of s c \<Longrightarrow> opens_to N path c ps"
  by (simp add: opens_to_def recoverable_open)

lemma snapshots_hold_validate:
  "marks_valid N ps \<Longrightarrow> snapshots_hold N ps s \<Longrightarrow> crash_of s c \<Longrightarrow> validate_persisted N ps c = Inr ()"
  using crash_holds by (fastforce simp: validate_persisted_Inr snapshots_hold_def)

lemma collect_recoverable:
  assumes "holds_file s path json" and "ce_json_from N json = Inr ps" and "last path = ''state.json''"
    and "marks_valid N ps" and "snapshots_hold N ps s"
  shows "recoverable N path ps (collect_generations N dir ps s)"
proof -
  have keep: "holds_file (collect_generations N dir ps s) p c"
    if "holds_file s p c" "\<not> is_generated p \<or> p \<in> snd ` set (ps_active_bundles ps)" for p c
    using that(1) collect_generations_keeps [OF that(2)] by (simp add: holds_file_def)
  have "snapshots_hold N ps (collect_generations N dir ps s)"
    unfolding snapshots_hold_def
  proof clarify
    fix label p assume active: "(label, p) \<in> set (ps_active_bundles ps)"
    then obtain c where "holds_file s p c" "snapshot_ok (ce_ahu N) ps p c"
      using assms(5) unfolding snapshots_hold_def by blast
    moreover have "p \<in> snd ` set (ps_active_bundles ps)" using active by force
    ultimately show "\<exists>c. holds_file (collect_generations N dir ps s) p c \<and> snapshot_ok (ce_ahu N) ps p c"
      using keep by blast
  qed
  then show ?thesis
    using assms(1,2,4) keep [OF assms(1)] descriptor_name(2) [OF assms(3)] unfolding recoverable_def by blast
qed

lemma commit_recoverable:
  assumes commit: "commit N cand st s = (r, s')" and path: "st_path cand = path" "st_path st = path" "last path = ''state.json''"
    and laws: "digest_laws (ce_ahu N)" and json: "\<And>json. ce_json_to N (st_state cand) = Inr json \<Longrightarrow> ce_json_from N json = Inr (st_state cand)"
    and old: "recoverable N path old s"
    and new: "marks_valid N (st_state cand)" "snapshots_hold N (st_state cand) s"
  shows "(r = Inr (st\<lparr>st_state := st_state cand\<rparr>) \<and> recoverable N path (st_state cand) s') \<or>
         (\<exists>d m. r = Inl (DurabilityUncertain d m) \<and>
            (\<forall>c. crash_of s' c \<longrightarrow> opens_to N path c old \<or> opens_to N path c (st_state cand))) \<or>
         (\<exists>e. r = Inl e \<and> (\<forall>d m. e \<noteq> DurabilityUncertain d m) \<and> recoverable N path old s')"
proof -
  have apart: "{path} \<inter> snd ` set (ps_active_bundles ps) = {}" if "snapshots_hold N ps s" for ps
    using that snapshot_ok_name(2) laws path(3) unfolding snapshots_hold_def digest_laws_def by fastforce
  have olds: "snapshots_hold N old s" using old by (simp add: recoverable_def)
  consider (finished) json1 s1 where "r = Inr (st\<lparr>st_state := st_state cand\<rparr>)" "ce_json_to N (st_state cand) = Inr json1"
      "same_but {path} s s1" "holds_file s1 path json1" "s' = collect_generations N (generations_dir path) (st_state cand) s1"
    | (uncertain) json1 d m where "r = Inl (DurabilityUncertain d m)" "ce_json_to N (st_state cand) = Inr json1"
      "same_but {path} s s'" "fs_files s' path = Some json1" "fs_durable s' path = fs_durable s path"
    | (unchanged) e where "r = Inl e" "\<forall>d m. e \<noteq> DurabilityUncertain d m" "same_but {} s s'"
    using commit_cases [OF commit] path by auto
  then show ?thesis
  proof cases
    case finished
    have "snapshots_hold N (st_state cand) s1"
      using snapshots_hold_same [OF new(2) _ finished(3) apart [OF new(2)]] laws by (simp add: digest_laws_def)
    then show ?thesis using collect_recoverable [OF finished(4) json [OF finished(2)] path(3) new(1)] finished(1,5) by blast
  next
    case uncertain
    have "opens_to N path c old \<or> opens_to N path c (st_state cand)" if c: "crash_of s' c" for c
    proof -
      have hold: "snapshots_hold N old s'" "snapshots_hold N (st_state cand) s'"
        using snapshots_hold_same [OF _ _ uncertain(3)] apart olds new(2) laws by (simp_all add: digest_laws_def)
      then have "validate_persisted N old c = Inr ()" "validate_persisted N (st_state cand) c = Inr ()"
        using snapshots_hold_validate c new(1) old by (auto simp: recoverable_def)
      moreover obtain json0 where "fs_durable s path = Some json0" "ce_json_from N json0 = Inr old"
        using old by (auto simp: recoverable_def holds_file_def)
      moreover have "fs_files c path = Some json1 \<or> fs_files c path = fs_durable s path"
        using c uncertain(4,5) by (metis crash_of_def)
      ultimately show ?thesis using json [OF uncertain(2)] by (auto simp: opens_to_iff)
    qed
    then show ?thesis using uncertain(1) by blast
  next
    case unchanged
    then show ?thesis using recoverable_same [OF old path(3) laws unchanged(3)] by blast
  qed
qed

text \<open>The three outcomes of an installation, each after any crash.\<close>

lemma publish_same_but: "publish N label d bytes s = (r, s') \<Longrightarrow> same_but {d} s s' \<and> (\<exists>res. r = Inr res \<and> is_destination res = d)"
  by (auto simp: publish_def dest: write_next_same_but split: prod.splits sum.splits)

lemma install_outcomes:
  assumes ready: "install_ready N config label bytes old s"
    and inst: "install_bundle N config label bytes guard s = (r, s')" and crash: "crash_of s' c"
  shows "(\<exists>res b out. r = Inr res \<and> from_bytes (ce_ahu N) bytes = Inr b \<and> to_bytes b = Inr out \<and>
            opens_to N (state_file config) c (installed_state (ce_ahu N) label b (state_file config) out old)) \<or>
         (\<exists>d m b out. r = Inl (DurabilityUncertain d m) \<and>
            (opens_to N (state_file config) c old \<or>
             from_bytes (ce_ahu N) bytes = Inr b \<and> to_bytes b = Inr out \<and>
             opens_to N (state_file config) c (installed_state (ce_ahu N) label b (state_file config) out old))) \<or>
         (\<exists>e. r = Inl e \<and> (\<forall>d m. e \<noteq> DurabilityUncertain d m) \<and> opens_to N (state_file config) c old)"
proof -
  let ?E = "ce_ahu N" and ?path = "state_file config"
  have laws: "digest_laws ?E" and rec: "recoverable N ?path old s"
    and json: "\<And>ps json. ce_json_to N ps = Inr json \<Longrightarrow> ce_json_from N json = Inr ps"
    using ready by (auto simp: install_ready_def)
  have same: ?thesis if "r = Inl e" "recoverable N ?path old s'" for e
    using that(1) recoverable_opens_to [OF that(2) crash] by blast
  consider (checks) e where "install_checks N config label bytes guard s = Inl e"
    | (go) destination b store where "install_checks N config label bytes guard s = Inr (destination, b, store)"
    by (cases "install_checks N config label bytes guard s") auto
  then show ?thesis
  proof cases
    case checks
    then have "r = Inl e" "s' = s" using install_bundle_refused inst by simp_all
    then show ?thesis using same rec by blast
  next
    case go
    note checked = install_checks_Inr [OF go]
    have "store = \<lparr>st_path = ?path, st_state = old, st_staged = False\<rparr>"
      using recoverable_open [OF rec, of s] checked(4) by (simp add: crash_of_def)
    then have tr: "st_path (transaction store) = ?path" "st_state (transaction store) = old" "st_path store = ?path"
      by (simp_all add: transaction_def)
    have nt: "st_path (note_store ?E b (transaction store)) = ?path" using tr by (simp add: note_store_def)
    consider (snap) e where "snapshot N label b (note_store ?E b (transaction store)) s = (Inl e, s')" "r = Inl e"
      | (commit) cand s1 where "snapshot N label b (note_store ?E b (transaction store)) s = (Inr cand, s1)"
          "(\<exists>e. commit N cand store s1 = (Inl e, s') \<and> r = Inl e) \<or>
           (\<exists>st s2. commit N cand store s1 = (Inr st, s2) \<and> publish N label destination bytes s2 = (r, s'))"
      using install_bundle_steps [OF inst go] by blast
    then show ?thesis
    proof cases
      case snap
      then show ?thesis using same snapshot_keeps_old [OF ready checked(2) snap(1) nt] by blast
    next
      case commit
      obtain out where out: "to_bytes b = Inr out" "st_path cand = ?path"
        "st_state cand = installed_state ?E label b ?path out old" "marks_valid N (st_state cand)"
        "snapshots_hold N (st_state cand) s1"
        using snapshot_prepares_new [OF ready checked(2) commit(1) tr(1,2)] by blast
      have old1: "recoverable N ?path old s1" using snapshot_keeps_old [OF ready checked(2) commit(1) nt] .
      note step = commit_recoverable [OF _ out(2) tr(3) last_state_file laws json old1 out(4,5)]
      from commit(2) show ?thesis
      proof (elim disjE exE conjE)
        fix e assume c: "commit N cand store s1 = (Inl e, s')" and r: "r = Inl e"
        show ?thesis
          using step [OF c] r crash out(1,3) checked(2) recoverable_opens_to [OF _ crash, of N ?path old] by auto
      next
        fix st s2 assume c: "commit N cand store s1 = (Inr st, s2)" and p: "publish N label destination bytes s2 = (r, s')"
        have rec2: "recoverable N ?path (st_state cand) s2" using step [OF c] by auto
        have apart: "?path \<notin> {destination}" "{destination} \<inter> snd ` set (ps_active_bundles (st_state cand)) = {}"
          using ready checked(1) installed_active_subset [of ?E label b ?path out old] out(3)
          by (auto simp: install_ready_def snapshot_path_def path_join_def)
        have "same_but {destination} s2 s'" using publish_same_but [OF p] by simp
        then have "recoverable N ?path (st_state cand) s'"
          by (rule recoverable_same [OF rec2 last_state_file laws _ apart])
        then show ?thesis
          using recoverable_opens_to [OF _ crash] publish_same_but [OF p] checked(2) out(1,3) by auto
      qed
    qed
  qed
qed

end
