(* ===== verification/Core_Request.thy ===== *)
theory Core_Request
  imports Core_Config Ahu_Seal Ahu_Index
begin

text \<open>
  OCSP requests (\<^verbatim>\<open>crates/hoike-core/src/request.rs\<close>): reduction of a DER request to the keys a lookup
  needs, the nonce and its length classes, the preferred signature algorithms, and the decoding of
  a GET path. The DER, base64 and percent decoders are third-party; a decoded request is seen
  through the accessors the code uses.
\<close>

section \<open>Requests\<close>

definition MAX_REQUEST_SIZE :: nat where
  "MAX_REQUEST_SIZE = 8192"

record ParsedCertId =
  pc_entry_key :: bytes
  pc_certid_der :: bytes
  pc_issuer_name_hash :: bytes
  pc_issuer_key_hash :: bytes
  pc_serial_number :: bytes
  pc_hash_alg_oid :: string

record ParsedRequest =
  pr_cert_ids :: "ParsedCertId list"
  pr_nonce :: "bytes option"
  pr_preferred_sig_algs :: "u16 list"

text \<open>The decoded request of \<^verbatim>\<open>x509_ocsp\<close>, by its accessors.\<close>

record CertId =
  ci_to_der :: "string + bytes"
  ci_issuer_name_hash :: bytes
  ci_issuer_key_hash :: bytes
  ci_serial_number :: bytes
  ci_hash_algorithm :: string

record Extension =
  ex_extn_id :: oid
  ex_extn_value :: bytes

record OcspRequest =
  oq_request_list :: "CertId list"
  oq_extensions :: "Extension list option"

record request_externals =
  ocsp_request_from_der :: "bytes \<Rightarrow> string + OcspRequest"
  octet_string_from_der :: "bytes \<Rightarrow> string + bytes"
  preferred_from_der :: "bytes \<Rightarrow> string + oid list"
  percent_decode_utf8 :: "string \<Rightarrow> string + string"
  base64_decode :: "string \<Rightarrow> string + bytes"

definition ID_PKIX_OCSP_NONCE :: oid where "ID_PKIX_OCSP_NONCE = ''1.3.6.1.5.5.7.48.1.2''"
definition PREF_SIG_ALGS_OID :: oid where "PREF_SIG_ALGS_OID = ''1.3.6.1.5.5.7.48.1.8''"

definition sig_oid_to_discriminator :: "oid \<Rightarrow> u16 option" where
  "sig_oid_to_discriminator oid =
     (if oid = ''1.2.840.10045.4.3.2'' then Some ALG_DISC_DEFAULT
      else if oid = ''2.16.840.1.101.3.4.3.17'' then Some ALG_DISC_ML_DSA_44
      else if oid = ''2.16.840.1.101.3.4.3.18'' then Some ALG_DISC_ML_DSA_65
      else if oid = ''2.16.840.1.101.3.4.3.19'' then Some ALG_DISC_ML_DSA_87
      else None)"

definition parse_preferred_sig_algs :: "request_externals \<Rightarrow> Extension list option \<Rightarrow> u16 list" where
  "parse_preferred_sig_algs R extensions =
     (case extensions of
        None \<Rightarrow> []
      | Some exts \<Rightarrow>
          (case find (\<lambda>e. ex_extn_id e = PREF_SIG_ALGS_OID) exts of
             None \<Rightarrow> []
           | Some ext \<Rightarrow>
               (case preferred_from_der R (ex_extn_value ext) of
                  Inl _ \<Rightarrow> []
                | Inr prefs \<Rightarrow> List.map_filter sig_oid_to_discriminator prefs)))"

definition parse_cert_id :: "externals \<Rightarrow> CertId \<Rightarrow> core_error + ParsedCertId" where
  "parse_cert_id E cert_id =
     bindR (map_errR (DerParse ''CertID encode'') (ci_to_der cert_id)) (\<lambda>certid_der.
     Inr \<lparr>pc_entry_key = sha256 E certid_der, pc_certid_der = certid_der,
          pc_issuer_name_hash = ci_issuer_name_hash cert_id, pc_issuer_key_hash = ci_issuer_key_hash cert_id,
          pc_serial_number = ci_serial_number cert_id, pc_hash_alg_oid = ci_hash_algorithm cert_id\<rparr>)"

definition parse_nonce :: "request_externals \<Rightarrow> Extension list option \<Rightarrow> core_error + bytes option" where
  "parse_nonce R extensions =
     (case (case extensions of None \<Rightarrow> None | Some exts \<Rightarrow> find (\<lambda>e. ex_extn_id e = ID_PKIX_OCSP_NONCE) exts) of
        None \<Rightarrow> Inr None
      | Some ext \<Rightarrow>
          bindR (map_errR (DerParse ''nonce extension value'') (octet_string_from_der R (ex_extn_value ext)))
            (\<lambda>inner. Inr (Some inner)))"

definition parse_ocsp_request :: "externals \<Rightarrow> request_externals \<Rightarrow> bytes \<Rightarrow> core_error + ParsedRequest" where
  "parse_ocsp_request E R der_bytes =
     (if der_bytes = [] then Inl EmptyRequest
      else if MAX_REQUEST_SIZE < length der_bytes
      then Inl (RequestTooLarge (length der_bytes) MAX_REQUEST_SIZE)
      else
      bindR (map_errR (DerParse ''OCSPRequest'') (ocsp_request_from_der R der_bytes)) (\<lambda>ocsp_req.
      if oq_request_list ocsp_req = [] then Inl EmptyRequestList
      else
      bindR (mapR (parse_cert_id E) (oq_request_list ocsp_req)) (\<lambda>cert_ids.
      bindR (parse_nonce R (oq_extensions ocsp_req)) (\<lambda>nonce.
      Inr \<lparr>pr_cert_ids = cert_ids, pr_nonce = nonce,
           pr_preferred_sig_algs = parse_preferred_sig_algs R (oq_extensions ocsp_req)\<rparr>))))"

definition decode_get_path :: "request_externals \<Rightarrow> string \<Rightarrow> core_error + bytes" where
  "decode_get_path R path =
     bindR (map_errR (\<lambda>e. GetDecode (''URL decode: '' @ e)) (percent_decode_utf8 R path)) (\<lambda>decoded_path.
     map_errR (\<lambda>e. GetDecode (''base64: '' @ e))
       (base64_decode R (dropWhile (\<lambda>c. c = CHR ''/'') decoded_path)))"

datatype NonceAction = MustAccept | MayOmit | MalformedRequest

definition validate_nonce :: "bytes \<Rightarrow> NonceAction" where
  "validate_nonce nonce_bytes =
     (let n = length nonce_bytes in
      if n = 0 then MalformedRequest
      else if n \<le> 15 then MayOmit
      else if n \<le> 32 then MustAccept
      else if n \<le> 128 then MayOmit
      else MalformedRequest)"

section \<open>What a parsed request holds\<close>

lemma parse_cert_id_Inr:
  "parse_cert_id E c = Inr p \<Longrightarrow>
     ci_to_der c = Inr (pc_certid_der p) \<and> pc_entry_key p = sha256 E (pc_certid_der p) \<and>
     pc_issuer_name_hash p = ci_issuer_name_hash c \<and> pc_issuer_key_hash p = ci_issuer_key_hash c"
  by (auto simp: parse_cert_id_def result_inverts)

lemma parse_ocsp_request_Inr:
  assumes "parse_ocsp_request E R der = Inr req"
  shows "\<exists>q. ocsp_request_from_der R der = Inr q \<and> der \<noteq> [] \<and> length der \<le> 8192 \<and> oq_request_list q \<noteq> [] \<and>
    list_all2 (\<lambda>c p. parse_cert_id E c = Inr p) (oq_request_list q) (pr_cert_ids req) \<and>
    parse_nonce R (oq_extensions q) = Inr (pr_nonce req) \<and>
    pr_preferred_sig_algs req = parse_preferred_sig_algs R (oq_extensions q)"
  using assms by (auto simp: parse_ocsp_request_def MAX_REQUEST_SIZE_def result_inverts mapR_eq_Inr split: if_splits)

lemma sig_oid_to_discriminator_range:
  "sig_oid_to_discriminator oid = Some d \<Longrightarrow>
     d \<in> {ALG_DISC_DEFAULT, ALG_DISC_ML_DSA_44, ALG_DISC_ML_DSA_65, ALG_DISC_ML_DSA_87}"
  by (auto simp: sig_oid_to_discriminator_def split: if_splits)

lemma parse_preferred_sig_algs_range:
  "set (parse_preferred_sig_algs R exts) \<subseteq> {ALG_DISC_DEFAULT, ALG_DISC_ML_DSA_44, ALG_DISC_ML_DSA_65, ALG_DISC_ML_DSA_87}"
proof -
  have "set (List.map_filter sig_oid_to_discriminator prefs) \<subseteq>
      {ALG_DISC_DEFAULT, ALG_DISC_ML_DSA_44, ALG_DISC_ML_DSA_65, ALG_DISC_ML_DSA_87}" for prefs
  proof
    fix d assume "d \<in> set (List.map_filter sig_oid_to_discriminator prefs)"
    then obtain oid where "sig_oid_to_discriminator oid = Some d" by (auto simp: List.map_filter_def)
    then show "d \<in> {ALG_DISC_DEFAULT, ALG_DISC_ML_DSA_44, ALG_DISC_ML_DSA_65, ALG_DISC_ML_DSA_87}"
      by (rule sig_oid_to_discriminator_range)
  qed
  moreover have "parse_preferred_sig_algs R exts = [] \<or>
      (\<exists>prefs. parse_preferred_sig_algs R exts = List.map_filter sig_oid_to_discriminator prefs)"
    by (simp add: parse_preferred_sig_algs_def split: option.split sum.split) blast
  ultimately show ?thesis by (elim disjE exE) simp_all
qed

end
