(* ===== verification/Core_Router.thy ===== *)
theory Core_Router
  imports Core_Install Core_Request
begin

text \<open>
  The loaded working set (\<^verbatim>\<open>crates/hoike-core/src/router.rs\<close>): the map from issuer hashes to bundles,
  its construction from the configured files through admission and the anti-rollback store, start-up
  with recovery from the committed snapshots, hot reload, and the lookup of a certificate.
\<close>

section \<open>The scope map\<close>

type_synonym ScopeKey = "bytes \<times> bytes"

record ScopeEntry =
  se_bundle_idx :: nat
  se_ca_label :: string
  se_nonce_policy :: string
  se_completeness :: string
  se_forward_to :: "string option"
  se_max_age_fraction :: f64

record ScopeMap =
  sm_entries :: "(ScopeKey \<times> ScopeEntry list) list"
  sm_bundles :: "Bundle list"

record LookupResult =
  lr_response_bytes :: bytes
  lr_window :: Window
  lr_ca_label :: string
  lr_nonce_policy :: string
  lr_forward_to :: "string option"
  lr_max_age_fraction :: f64

record ScopeDetail =
  sd_ca_label :: string
  sd_producer_id :: string
  sd_epoch :: u64
  sd_completeness :: string
  sd_entry_count :: u64
  sd_window :: Window

text \<open>A poisoned lock is one whose holder panicked.\<close>

record ResponderState =
  rs_scope_map :: ScopeMap
  rs_config :: Config
  rs_state_store :: StateStore
  rs_lock_poisoned :: bool
  rs_writer_guard :: StateDirectoryLock

section \<open>Lookup\<close>

definition scope_for_certid :: "ScopeMap \<Rightarrow> ParsedCertId \<Rightarrow> (string \<times> bool \<times> string option) option" where
  "scope_for_certid m cert_id =
     (case map_of (sm_entries m) (pc_issuer_name_hash cert_id, pc_issuer_key_hash cert_id) of
        None \<Rightarrow> None
      | Some [] \<Rightarrow> None
      | Some (entry # _) \<Rightarrow>
          Some (se_ca_label entry, se_completeness entry = ''authoritative-complete'', se_forward_to entry))"

definition search_entry :: "ScopeMap \<Rightarrow> ParsedCertId \<Rightarrow> u16 list \<Rightarrow> ScopeEntry \<Rightarrow> bytes option" where
  "search_entry m cert_id preferred_algs entry =
     (let b = sm_bundles m ! se_bundle_idx entry in
      if preferred_algs = [] then Ahu_Bundle.lookup b (pc_entry_key cert_id)
      else lookup_preferred b (pc_entry_key cert_id) preferred_algs)"

fun collect_hits :: "ScopeMap \<Rightarrow> ParsedCertId \<Rightarrow> u16 list \<Rightarrow> ScopeEntry list \<Rightarrow> (ScopeEntry \<times> bytes \<times> Window) list" where
  "collect_hits m cert_id algs [] = []"
| "collect_hits m cert_id algs (entry # entries) =
     (case search_entry m cert_id algs entry of
        None \<Rightarrow> collect_hits m cert_id algs entries
      | Some response \<Rightarrow>
          (entry, response, mf_window (b_manifest (sm_bundles m ! se_bundle_idx entry)))
            # collect_hits m cert_id algs entries)"

definition router_lookup :: "ScopeMap \<Rightarrow> ParsedCertId \<Rightarrow> u16 list \<Rightarrow> LookupResult option" where
  "router_lookup m cert_id preferred_algs =
     (case map_of (sm_entries m) (pc_issuer_name_hash cert_id, pc_issuer_key_hash cert_id) of
        None \<Rightarrow> None
      | Some scope_entries \<Rightarrow>
          (case collect_hits m cert_id preferred_algs scope_entries of
             [] \<Rightarrow> None
           | (entry, response_bytes, window) # _ \<Rightarrow>
               Some \<lparr>lr_response_bytes = response_bytes, lr_window = window, lr_ca_label = se_ca_label entry,
                     lr_nonce_policy = se_nonce_policy entry, lr_forward_to = se_forward_to entry,
                     lr_max_age_fraction = se_max_age_fraction entry\<rparr>))"

section \<open>Diagnostics\<close>

definition default_window :: "ScopeMap \<Rightarrow> Window option" where
  "default_window m = (case sm_bundles m of [] \<Rightarrow> None | b # _ \<Rightarrow> Some (mf_window (b_manifest b)))"

text \<open>The sum over \<^verbatim>\<open>u64\<close> wraps in a release build.\<close>

definition total_entries :: "ScopeMap \<Rightarrow> u64" where
  "total_entries m = sum_list (map (\<lambda>b. mf_entry_count (b_manifest b)) (sm_bundles m))"

definition bundle_count :: "ScopeMap \<Rightarrow> nat" where
  "bundle_count m = length (sm_bundles m)"

definition scope_count :: "ScopeMap \<Rightarrow> nat" where
  "scope_count m = length (sm_entries m)"

definition first_epoch :: "Bundle \<Rightarrow> u64" where
  "first_epoch b = (case mf_ca_scopes (b_manifest b) of [] \<Rightarrow> 0 | s # _ \<Rightarrow> cs_epoch s)"

definition scope_info :: "ScopeMap \<Rightarrow> (string \<times> u64 \<times> string) list" where
  "scope_info m =
     map (\<lambda>entry. (se_ca_label entry, first_epoch (sm_bundles m ! se_bundle_idx entry), se_completeness entry))
       (concat (map snd (sm_entries m)))"

definition bundle_scopes :: "ScopeMap \<Rightarrow> ScopeDetail list" where
  "bundle_scopes m =
     map (\<lambda>entry. let b = sm_bundles m ! se_bundle_idx entry in
            \<lparr>sd_ca_label = se_ca_label entry, sd_producer_id = mf_producer_id (b_manifest b),
             sd_epoch = first_epoch b, sd_completeness = se_completeness entry,
             sd_entry_count = mf_entry_count (b_manifest b), sd_window = mf_window (b_manifest b)\<rparr>)
       (concat (map snd (sm_entries m)))"

section \<open>Loading\<close>

fun validate_nonce_cas :: "string \<Rightarrow> string set \<Rightarrow> CaConfig list \<Rightarrow> core_error + unit" where
  "validate_nonce_cas mode labels [] = Inr ()"
| "validate_nonce_cas mode labels (ca # cas) =
     (if ca_label ca \<in> labels
      then Inl (ConfigError (''duplicate CA label '' @ ca_label ca))
      else
      bindR (if ca_nonce_policy ca = ''ignore'' then Inr ()
             else if ca_nonce_policy ca = ''live''
             then if mode = ''edge''
                  then Inl (ConfigError (''CA '' @ ca_label ca @ '': nonce_policy live requires signer or combined mode (edge nodes have no signing key)''))
                  else if ca_signing_key ca = None
                  then Inl (ConfigError (''CA '' @ ca_label ca @ '': nonce_policy live requires a signing_key''))
                  else Inr ()
             else if ca_nonce_policy ca = ''forward''
             then if ca_forward_to ca = None
                  then Inl (ConfigError (''CA '' @ ca_label ca @ '': nonce_policy forward requires a forward_to URL''))
                  else Inr ()
             else Inl (ConfigError (''CA '' @ ca_label ca @ '': unknown nonce_policy '' @ ca_nonce_policy ca
                    @ '' (expected: ignore, live, forward)''))) (\<lambda>_.
      validate_nonce_cas mode (insert (ca_label ca) labels) cas))"

definition validate_nonce_config :: "Config \<Rightarrow> core_error + unit" where
  "validate_nonce_config config = validate_nonce_cas (sc_mode (cf_server config)) {} (cf_ca config)"

definition max_epoch :: "Bundle \<Rightarrow> u64" where
  "max_epoch b = fold max (map cs_epoch (mf_ca_scopes (b_manifest b))) 0"

fun pick_newest :: "core_env \<Rightarrow> fs \<Rightarrow> (path \<times> u64) option \<Rightarrow> path list \<Rightarrow> (path \<times> u64) option" where
  "pick_newest N s best [] = best"
| "pick_newest N s best (path # paths) =
     (case Ahu_Bundle.from_file (ce_ahu N) (read_file path s) of
        Inl _ \<Rightarrow> pick_newest N s best paths
      | Inr b \<Rightarrow>
          pick_newest N s
            (if (case best of None \<Rightarrow> True | Some (_, e) \<Rightarrow> e < max_epoch b) then Some (path, max_epoch b) else best) paths)"

definition find_newest_bundle :: "core_env \<Rightarrow> path \<Rightarrow> fs \<Rightarrow> core_error + path" where
  "find_newest_bundle N dir s =
     (case ce_read_dir N dir of
        Some e \<Rightarrow> Inl (CoreIo e)
      | None \<Rightarrow>
          let ahu_files = filter (\<lambda>p. path_extension p = Some ''ahu'') (map (path_join dir) (read_dir dir s)) in
          if ahu_files = [] then Inl (ConfigError (''no .ahu files in '' @ show_path dir))
          else ok_orR (ConfigError (''no valid .ahu files in '' @ show_path dir))
                 (map_option fst (pick_newest N s None ahu_files)))"

definition configured_bundle_paths :: "core_env \<Rightarrow> Config \<Rightarrow> fs \<Rightarrow> core_error + path list" where
  "configured_bundle_paths N config s =
     bindR (validate_nonce_config config) (\<lambda>_.
     if cf_ca config = []
     then bindR (find_newest_bundle N (so_bundle_dir (cf_storage config)) s) (\<lambda>p. Inr [p])
     else Inr (map (ca_bundle_path config) (cf_ca config)))"

definition load_and_verify_bundle :: "core_env \<Rightarrow> path \<Rightarrow> Config \<Rightarrow> fs \<Rightarrow> core_error + Bundle" where
  "load_and_verify_bundle N path config s =
     bindR (map_errR BundleError (Ahu_Bundle.from_file (ce_ahu N) (read_file path s))) (\<lambda>b.
     bindR (clock_now N) (\<lambda>now.
     bindR (admit_bundle N b (cf_storage config) now s) (\<lambda>trust.
     Inr b)))"

text \<open>\<^verbatim>\<open>entries.entry(key).or_default().push(entry)\<close> for every scope of a bundle.\<close>

definition push_scope :: "ScopeKey \<Rightarrow> ScopeEntry \<Rightarrow> (ScopeKey \<times> ScopeEntry list) list \<Rightarrow> (ScopeKey \<times> ScopeEntry list) list" where
  "push_scope key entry entries =
     AList.update key ((case map_of entries key of None \<Rightarrow> [] | Some es \<Rightarrow> es) @ [entry]) entries"

definition register_bundle_scopes ::
    "Bundle \<Rightarrow> ScopeEntry \<Rightarrow> (ScopeKey \<times> ScopeEntry list) list \<Rightarrow> (ScopeKey \<times> ScopeEntry list) list" where
  "register_bundle_scopes b entry =
     fold (\<lambda>scope. push_scope (cs_issuer_name_hash scope, cs_issuer_key_hash scope) entry) (mf_ca_scopes (b_manifest b))"

definition default_entry :: ScopeEntry where
  "default_entry = \<lparr>se_bundle_idx = 0, se_ca_label = ''default'', se_nonce_policy = ''ignore'',
     se_completeness = ''authoritative-complete'', se_forward_to = None, se_max_age_fraction = Finite (1 / 2)\<rparr>"

definition ca_entry :: "CaConfig \<Rightarrow> nat \<Rightarrow> ScopeEntry" where
  "ca_entry ca idx = \<lparr>se_bundle_idx = idx, se_ca_label = ca_label ca, se_nonce_policy = ca_nonce_policy ca,
     se_completeness = ca_completeness ca, se_forward_to = ca_forward_to ca, se_max_age_fraction = ca_max_age_fraction ca\<rparr>"

text \<open>Admission, the rollback and continuity checks and the advance of the marks, for one file.\<close>

definition accept_bundle :: "core_env \<Rightarrow> Config \<Rightarrow> path \<Rightarrow> StateStore \<Rightarrow> (Bundle \<times> StateStore) io" where
  "accept_bundle N config path store =
     bindIO (readIO (load_and_verify_bundle N path config)) (\<lambda>b.
     bindIO (liftIO (check_rollback (ce_ahu N) store b)) (\<lambda>_.
     bindIO (liftIO (check_continuity (ce_ahu N) store b)) (\<lambda>_.
     bindIO (advance_from_bundle N b store) (\<lambda>store'.
     returnIO (b, store')))))"

record Loading =
  ld_bundles :: "Bundle list"
  ld_entries :: "(ScopeKey \<times> ScopeEntry list) list"
  ld_loaded_paths :: "(path \<times> nat) list"
  ld_store :: StateStore

definition load_ca :: "core_env \<Rightarrow> Config \<Rightarrow> CaConfig \<times> path \<Rightarrow> Loading \<Rightarrow> Loading io" where
  "load_ca N config = (\<lambda>(ca, bundle_path) ld.
     let canonical = canonical_or_self (ce_canonicalize N) bundle_path in
     bindIO (case map_of (ld_loaded_paths ld) canonical of
               Some idx \<Rightarrow> returnIO (idx, ld)
             | None \<Rightarrow>
                 bindIO (accept_bundle N config bundle_path (ld_store ld)) (\<lambda>(b, store').
                 let idx = length (ld_bundles ld) in
                 returnIO (idx, ld\<lparr>ld_bundles := ld_bundles ld @ [b],
                                   ld_loaded_paths := AList.update canonical idx (ld_loaded_paths ld),
                                   ld_store := store'\<rparr>))) (\<lambda>(idx, ld').
     returnIO (ld'\<lparr>ld_entries := register_bundle_scopes (ld_bundles ld' ! idx) (ca_entry ca idx) (ld_entries ld')\<rparr>)))"

definition load_default :: "core_env \<Rightarrow> Config \<Rightarrow> path \<Rightarrow> StateStore \<Rightarrow> Loading io" where
  "load_default N config path store =
     bindIO (accept_bundle N config path store) (\<lambda>(b, store').
     returnIO \<lparr>ld_bundles = [b], ld_entries = register_bundle_scopes b default_entry [],
               ld_loaded_paths = [], ld_store = store'\<rparr>)"

text \<open>One snapshot per label, in the iteration order of the map.\<close>

definition snapshot_entry :: "core_env \<Rightarrow> Bundle list \<Rightarrow> ScopeEntry \<Rightarrow> string list \<times> StateStore \<Rightarrow> (string list \<times> StateStore) io" where
  "snapshot_entry N bundles entry = (\<lambda>(labels, store).
     if se_ca_label entry \<in> set labels then returnIO (labels, store)
     else bindIO (snapshot N (se_ca_label entry) (bundles ! se_bundle_idx entry) store) (\<lambda>store'.
          returnIO (se_ca_label entry # labels, store')))"

definition load_scope_map_candidate :: "core_env \<Rightarrow> Config \<Rightarrow> StateStore \<Rightarrow> (ScopeMap \<times> StateStore) io" where
  "load_scope_map_candidate N config store =
     bindIO (readIO (configured_bundle_paths N config)) (\<lambda>paths.
     bindIO (if cf_ca config = [] then load_default N config (hd paths) store
             else foldIO (load_ca N config) (zip (cf_ca config) paths)
                    \<lparr>ld_bundles = [], ld_entries = [], ld_loaded_paths = [], ld_store = store\<rparr>) (\<lambda>ld.
     bindIO (foldIO (snapshot_entry N (ld_bundles ld)) (concat (map snd (ld_entries ld))) ([], ld_store ld)) (\<lambda>(_, store').
     returnIO (\<lparr>sm_entries = ld_entries ld, sm_bundles = ld_bundles ld\<rparr>, store'))))"

definition load_scope_map :: "core_env \<Rightarrow> Config \<Rightarrow> StateStore \<Rightarrow> (ScopeMap \<times> StateStore) io" where
  "load_scope_map N config store =
     bindIO (load_scope_map_candidate N config (clear_active_bundles (transaction store))) (\<lambda>(m, candidate).
     bindIO (commit N candidate store) (\<lambda>store'.
     returnIO (m, store')))"

section \<open>Start-up and reload\<close>

definition recover_default :: "core_env \<Rightarrow> Config \<Rightarrow> path \<Rightarrow> StateStore \<Rightarrow> (ScopeMap \<times> StateStore) io" where
  "recover_default N config path store =
     bindIO (accept_bundle N config path (clear_active_bundles (transaction store))) (\<lambda>(b, candidate).
     bindIO (snapshot N ''default'' b candidate) (\<lambda>candidate'.
     bindIO (commit N candidate' store) (\<lambda>store'.
     returnIO (\<lparr>sm_entries = register_bundle_scopes b default_entry [], sm_bundles = [b]\<rparr>, store'))))"

definition recovery_config :: "Config \<Rightarrow> StateStore \<Rightarrow> core_error + Config" where
  "recovery_config config store =
     bindR (mapR (\<lambda>ca.
              bindR (ok_orR (ConfigError (''no committed snapshot for '' @ ca_label ca))
                       (map_of (ps_active_bundles (st_state store)) (ca_label ca))) (\<lambda>p.
              Inr (ca\<lparr>ca_bundle_file := Some p\<rparr>))) (cf_ca config)) (\<lambda>cas.
     Inr (config\<lparr>cf_ca := cas\<rparr>))"

definition load_or_recover :: "core_env \<Rightarrow> Config \<Rightarrow> StateStore \<Rightarrow> (ScopeMap \<times> StateStore) io" where
  "load_or_recover N config store = (\<lambda>s.
     case load_scope_map N config store s of
       (Inr loaded, s') \<Rightarrow> (Inr loaded, s')
     | (Inl original, s') \<Rightarrow>
         if ps_active_bundles (st_state store) = [] then (Inl original, s')
         else if cf_ca config = []
         then bindIO (liftIO (ok_orR original (map_of (ps_active_bundles (st_state store)) ''default''))) (\<lambda>path.
              recover_default N config path store) s'
         else bindIO (liftIO (recovery_config config store)) (\<lambda>recovery.
              load_scope_map N recovery store) s')"

definition load :: "core_env \<Rightarrow> Config \<Rightarrow> StateDirectoryLock \<Rightarrow> ResponderState io" where
  "load N config guard =
     bindIO (liftIO (ok_orR (ConfigError (''cannot resolve state directory '' @ show_path (so_state_db (cf_storage config))))
              (ce_canonicalize N (so_state_db (cf_storage config))))) (\<lambda>state_dir.
     if sl_state_dir guard \<noteq> state_dir
     then failIO (ConfigError (''writer lock guards state directory '' @ show_path (sl_state_dir guard)
            @ '' but the configuration uses '' @ show_path state_dir))
     else
     bindIO (readIO (open_store N (state_file config))) (\<lambda>store.
     bindIO (load_or_recover N config store) (\<lambda>(m, store').
     returnIO \<lparr>rs_scope_map = m, rs_config = config, rs_state_store = store', rs_lock_poisoned = False,
               rs_writer_guard = guard\<rparr>)))"

text \<open>A failed reload leaves the responder as it was.\<close>

definition reload :: "core_env \<Rightarrow> ResponderState \<Rightarrow> fs \<Rightarrow> (core_error + unit) \<times> ResponderState \<times> fs" where
  "reload N rs s =
     (if rs_lock_poisoned rs then (Inl (StateStoreError ''state store lock poisoned''), rs, s)
      else case load_scope_map N (rs_config rs) (rs_state_store rs) s of
             (Inl e, s') \<Rightarrow> (Inl e, rs, s')
           | (Inr (m, store'), s') \<Rightarrow> (Inr (), rs\<lparr>rs_scope_map := m, rs_state_store := store'\<rparr>, s'))"

section \<open>Lookup answers from the first entry that has a response\<close>

definition result_of :: "ScopeMap \<Rightarrow> ScopeEntry \<Rightarrow> bytes \<Rightarrow> LookupResult" where
  "result_of m entry response =
     \<lparr>lr_response_bytes = response, lr_window = mf_window (b_manifest (sm_bundles m ! se_bundle_idx entry)),
      lr_ca_label = se_ca_label entry, lr_nonce_policy = se_nonce_policy entry, lr_forward_to = se_forward_to entry,
      lr_max_age_fraction = se_max_age_fraction entry\<rparr>"

lemma collect_hits_first:
  "collect_hits m cid algs es = (e, response, w) # hits \<Longrightarrow>
     \<exists>pre post. es = pre @ e # post \<and> (\<forall>x \<in> set pre. search_entry m cid algs x = None) \<and>
       search_entry m cid algs e = Some response \<and> w = mf_window (b_manifest (sm_bundles m ! se_bundle_idx e))"
proof (induction es)
  case (Cons x es)
  show ?case
  proof (cases "search_entry m cid algs x")
    case None
    then obtain pre post where "es = pre @ e # post" "\<forall>x \<in> set pre. search_entry m cid algs x = None"
      "search_entry m cid algs e = Some response" "w = mf_window (b_manifest (sm_bundles m ! se_bundle_idx e))"
      using Cons by auto
    then show ?thesis using None by (intro exI [of _ "x # pre"] exI [of _ post]) simp
  next
    case (Some r)
    then show ?thesis using Cons.prems by (intro exI [of _ "[]"] exI [of _ es]) auto
  qed
qed simp

lemma collect_hits_Nil: "collect_hits m cid algs es = [] \<longleftrightarrow> (\<forall>e \<in> set es. search_entry m cid algs e = None)"
  by (induction es) (auto split: option.splits)

definition candidates :: "ScopeMap \<Rightarrow> ParsedCertId \<Rightarrow> ScopeEntry list" where
  "candidates m cid =
     (case map_of (sm_entries m) (pc_issuer_name_hash cid, pc_issuer_key_hash cid) of None \<Rightarrow> [] | Some es \<Rightarrow> es)"

lemma router_lookup_None:
  "router_lookup m cid algs = None \<longleftrightarrow> (\<forall>e \<in> set (candidates m cid). search_entry m cid algs e = None)"
proof (cases "map_of (sm_entries m) (pc_issuer_name_hash cid, pc_issuer_key_hash cid)")
  case (Some es)
  have "router_lookup m cid algs = None \<longleftrightarrow> collect_hits m cid algs es = []"
    using Some by (auto simp: router_lookup_def split: list.split)
  then show ?thesis using Some by (simp add: candidates_def collect_hits_Nil)
qed (simp add: router_lookup_def candidates_def)

lemma router_lookup_Some:
  assumes "router_lookup m cid algs = Some r"
  shows "\<exists>pre e post response. candidates m cid = pre @ e # post \<and>
     (\<forall>x \<in> set pre. search_entry m cid algs x = None) \<and> search_entry m cid algs e = Some response \<and>
     r = result_of m e response"
proof -
  obtain es e response w hits where "map_of (sm_entries m) (pc_issuer_name_hash cid, pc_issuer_key_hash cid) = Some es"
    "collect_hits m cid algs es = (e, response, w) # hits"
    "r = \<lparr>lr_response_bytes = response, lr_window = w, lr_ca_label = se_ca_label e, lr_nonce_policy = se_nonce_policy e,
          lr_forward_to = se_forward_to e, lr_max_age_fraction = se_max_age_fraction e\<rparr>"
    using assms by (auto simp: router_lookup_def split: option.splits list.splits)
  then show ?thesis
    using collect_hits_first [of m cid algs es e response w hits] by (auto simp: candidates_def result_of_def)
qed

end
