(* ===== verification/Core_Loading.thy ===== *)
theory Core_Loading
  imports Core_Router
begin

text \<open>
  What loading establishes (\<^verbatim>\<open>load_scope_map\<close> and \<^verbatim>\<open>ResponderState::reload\<close> of
  \<^verbatim>\<open>crates/hoike-core/src/router.rs\<close>): a loaded map is well formed, every bundle in it was admitted,
  and the bundles form a run of the epoch guard, so that no reload goes back behind what was served.
\<close>

section \<open>What a loaded map holds\<close>

text \<open>Every entry points at a bundle of the map, under the hashes of one of that bundle's scopes.\<close>

definition entry_ok :: "Bundle list \<Rightarrow> ScopeKey \<Rightarrow> ScopeEntry \<Rightarrow> bool" where
  "entry_ok bundles key entry \<longleftrightarrow>
     se_bundle_idx entry < length bundles \<and>
     (\<exists>scope \<in> set (mf_ca_scopes (b_manifest (bundles ! se_bundle_idx entry))).
        key = (cs_issuer_name_hash scope, cs_issuer_key_hash scope))"

definition wf_entries :: "Bundle list \<Rightarrow> (ScopeKey \<times> ScopeEntry list) list \<Rightarrow> bool" where
  "wf_entries bundles entries \<longleftrightarrow>
     distinct (map fst entries) \<and> (\<forall>(key, es) \<in> set entries. es \<noteq> [] \<and> (\<forall>e \<in> set es. entry_ok bundles key e))"

definition wf_scope_map :: "ScopeMap \<Rightarrow> bool" where
  "wf_scope_map m \<longleftrightarrow> wf_entries (sm_bundles m) (sm_entries m)"

lemma entry_ok_append: "entry_ok bundles key e \<Longrightarrow> entry_ok (bundles @ bs) key e"
  by (auto simp: entry_ok_def nth_append)

lemma wf_entries_append: "wf_entries bundles entries \<Longrightarrow> wf_entries (bundles @ bs) entries"
  using entry_ok_append by (fastforce simp: wf_entries_def)

lemma wf_push_scope:
  assumes "wf_entries bundles entries" and "entry_ok bundles key e"
  shows "wf_entries bundles (push_scope key e entries)"
proof -
  let ?es = "(case map_of entries key of None \<Rightarrow> [] | Some es \<Rightarrow> es) @ [e]"
  have "\<forall>x \<in> set ?es. entry_ok bundles key x"
  proof (cases "map_of entries key")
    case (Some es)
    then have "(key, es) \<in> set entries" by (rule map_of_SomeD)
    then have "\<forall>x \<in> set es. entry_ok bundles key x" using assms(1) by (auto simp: wf_entries_def)
    then show ?thesis using Some assms(2) by simp
  qed (simp add: assms(2))
  moreover have "(k, es) = (key, ?es) \<or> (k, es) \<in> set entries" if "(k, es) \<in> set (push_scope key e entries)" for k es
    using that set_update_subset [of key ?es entries] unfolding push_scope_def by blast
  moreover have "distinct (map fst (push_scope key e entries))"
    using assms(1) by (simp add: push_scope_def wf_entries_def distinct_update)
  moreover have "es \<noteq> [] \<and> (\<forall>x \<in> set es. entry_ok bundles k x)" if "(k, es) \<in> set entries" for k es
    using assms(1) that unfolding wf_entries_def by blast
  ultimately show ?thesis unfolding wf_entries_def by blast
qed

lemma wf_register_bundle_scopes:
  assumes "wf_entries bundles entries" and "se_bundle_idx e < length bundles" and "bundles ! se_bundle_idx e = b"
  shows "wf_entries bundles (register_bundle_scopes b e entries)"
proof -
  have "wf_entries bundles (fold (\<lambda>scope. push_scope (cs_issuer_name_hash scope, cs_issuer_key_hash scope) e) scopes entries)"
    if "set scopes \<subseteq> set (mf_ca_scopes (b_manifest b))" for scopes
    using assms(1) that
  proof (induction scopes arbitrary: entries)
    case (Cons scope scopes)
    have "entry_ok bundles (cs_issuer_name_hash scope, cs_issuer_key_hash scope) e"
      using assms(2,3) Cons.prems(2) by (auto simp: entry_ok_def)
    then show ?case using Cons.IH [OF wf_push_scope [OF Cons.prems(1)]] Cons.prems(2) by simp
  qed simp
  then show ?thesis by (simp add: register_bundle_scopes_def)
qed

section \<open>Loading is a run of the epoch guard\<close>

text \<open>The marks of a store: what the checks read and the advances write.\<close>

definition same_marks :: "StateStore \<Rightarrow> StateStore \<Rightarrow> bool" where
  "same_marks a b \<longleftrightarrow>
     ps_high_water_marks (st_state a) = ps_high_water_marks (st_state b) \<and>
     ps_manifest_digests (st_state a) = ps_manifest_digests (st_state b)"

lemma same_marks_get:
  assumes "same_marks a b"
  shows "get_high_water a = get_high_water b" and "get_manifest_digest E a = get_manifest_digest E b"
  using assms by (auto simp: same_marks_def get_high_water_def get_manifest_digest_def fun_eq_iff)

lemma same_marks_check: "same_marks a b \<Longrightarrow> check_rollback E a c = check_rollback E b c"
  using same_marks_get [of a b] unfolding check_rollback_def check_rollback_scope_def by presburger

lemma same_marks_record:
  assumes "ps_high_water_marks p = ps_high_water_marks q" "ps_manifest_digests p = ps_manifest_digests q"
  shows "ps_high_water_marks (record_scopes E b scopes p) = ps_high_water_marks (record_scopes E b scopes q) \<and>
     ps_manifest_digests (record_scopes E b scopes p) = ps_manifest_digests (record_scopes E b scopes q)"
  using assms
proof (induction scopes arbitrary: p q)
  case (Cons scope scopes)
  let ?raise = "raise_mark E (scope_key E (b_manifest b) scope) (cs_epoch scope) (sha256 E (b_manifest_bytes b))"
  have "ps_high_water_marks (?raise p) = ps_high_water_marks (?raise q)"
    "ps_manifest_digests (?raise p) = ps_manifest_digests (?raise q)"
    by (simp_all add: raise_mark_def Cons.prems)
  then show ?case unfolding record_scopes_Cons by (rule Cons.IH)
qed simp

lemma same_marks_note: "same_marks a b \<Longrightarrow> same_marks (note_store E c a) (note_store E c b)"
  using same_marks_record [of "st_state a" "st_state b" E c "mf_ca_scopes (b_manifest c)"]
  by (simp add: same_marks_def note_store_def record_bundle_def)

text \<open>The bundles accepted on the way from one store to another.\<close>

definition guarded_run :: "externals \<Rightarrow> StateStore \<Rightarrow> Bundle list \<Rightarrow> StateStore \<Rightarrow> bool" where
  "guarded_run E st bs st' \<longleftrightarrow>
     accepted_run (\<lambda>st b. check_rollback E st b = Inr ()) (note_store E) st bs \<and> same_marks (fold (note_store E) bs st) st'"

lemma accepted_run_snoc:
  "accepted_run a n s (bs @ [b]) \<longleftrightarrow> accepted_run a n s bs \<and> a (fold n bs s) b"
  by (induction bs arbitrary: s) simp_all

lemma guarded_run_Nil: "guarded_run E st [] st"
  by (simp add: guarded_run_def same_marks_def)

lemma guarded_run_snoc:
  assumes "guarded_run E st bs st'" and "check_rollback E st' b = Inr ()"
  shows "guarded_run E st (bs @ [b]) (note_store E b st')"
  using assms same_marks_note same_marks_check unfolding guarded_run_def accepted_run_snoc by auto

lemma guarded_run_same_marks: "guarded_run E st bs st' \<Longrightarrow> same_marks st' st'' \<Longrightarrow> guarded_run E st bs st''"
  by (auto simp: guarded_run_def same_marks_def)

lemma same_marks_fold: "same_marks a b \<Longrightarrow> same_marks (fold (note_store E) bs a) (fold (note_store E) bs b)"
  by (induction bs arbitrary: a b) (simp_all add: same_marks_note)

lemma same_marks_accepted_run:
  "same_marks a b \<Longrightarrow>
     accepted_run (\<lambda>st b. check_rollback E st b = Inr ()) (note_store E) a bs \<longleftrightarrow>
     accepted_run (\<lambda>st b. check_rollback E st b = Inr ()) (note_store E) b bs"
proof (induction bs arbitrary: a b)
  case (Cons c bs)
  then show ?case using Cons.IH [OF same_marks_note [OF Cons.prems]] same_marks_check [OF Cons.prems] by simp
qed simp

lemma guarded_run_start:
  assumes "guarded_run E a bs st'" and "same_marks a b"
  shows "guarded_run E b bs st'"
proof -
  have "same_marks (fold (note_store E) bs b) st'"
    using assms(1) same_marks_fold [OF assms(2), of E bs] by (simp add: guarded_run_def same_marks_def)
  then show ?thesis using assms(1) same_marks_accepted_run [OF assms(2)] by (simp add: guarded_run_def)
qed

lemma accept_bundle_Inr:
  assumes "accept_bundle N config path store s = (Inr (b, store'), s')" and "st_staged store"
  shows "s' = s" and "load_and_verify_bundle N path config s = Inr b"
    and "check_rollback (ce_ahu N) store b = Inr ()" and "check_continuity (ce_ahu N) store b = Inr ()"
    and "store' = note_store (ce_ahu N) b store"
  using assms by (auto simp: accept_bundle_def io_inverts advance_from_bundle_staged)

definition loading_ok :: "core_env \<Rightarrow> Config \<Rightarrow> fs \<Rightarrow> StateStore \<Rightarrow> Loading \<Rightarrow> bool" where
  "loading_ok N config s store ld \<longleftrightarrow>
     st_staged (ld_store ld) \<and> st_path (ld_store ld) = st_path store \<and>
     guarded_run (ce_ahu N) store (ld_bundles ld) (ld_store ld) \<and>
     wf_entries (ld_bundles ld) (ld_entries ld) \<and>
     (\<forall>(p, i) \<in> set (ld_loaded_paths ld). i < length (ld_bundles ld)) \<and>
     (\<forall>b \<in> set (ld_bundles ld). \<exists>path. load_and_verify_bundle N path config s = Inr b)"

lemma note_store_fields [simp]:
  "st_staged (note_store E b st) = st_staged st" "st_path (note_store E b st) = st_path st"
  by (simp_all add: note_store_def)

text \<open>Loading one more bundle keeps the invariant.\<close>

lemma loading_ok_accept:
  assumes "loading_ok N config s store ld" and "accept_bundle N config path (ld_store ld) s = (Inr (b, store'), s')"
  shows "s' = s"
    and "loading_ok N config s store (ld\<lparr>ld_bundles := ld_bundles ld @ [b],
          ld_loaded_paths := AList.update canonical (length (ld_bundles ld)) (ld_loaded_paths ld), ld_store := store'\<rparr>)"
proof -
  have staged: "st_staged (ld_store ld)" using assms(1) by (simp add: loading_ok_def)
  note acc = accept_bundle_Inr [OF assms(2) staged]
  show "s' = s" by (rule acc(1))
  have "guarded_run (ce_ahu N) store (ld_bundles ld @ [b]) store'"
    using assms(1) acc(3,5) by (simp add: loading_ok_def guarded_run_snoc)
  moreover have "wf_entries (ld_bundles ld @ [b]) (ld_entries ld)"
    using assms(1) by (simp add: loading_ok_def wf_entries_append)
  moreover have "i < Suc (length (ld_bundles ld))"
    if "(p, i) \<in> set (AList.update canonical (length (ld_bundles ld)) (ld_loaded_paths ld))" for p i
  proof -
    have "(p, i) = (canonical, length (ld_bundles ld)) \<or> (p, i) \<in> set (ld_loaded_paths ld)"
      using subsetD [OF set_update_subset that] by simp
    then show ?thesis using assms(1) by (auto simp: loading_ok_def)
  qed
  ultimately show "loading_ok N config s store (ld\<lparr>ld_bundles := ld_bundles ld @ [b],
      ld_loaded_paths := AList.update canonical (length (ld_bundles ld)) (ld_loaded_paths ld), ld_store := store'\<rparr>)"
    using assms(1) acc(2,5) by (auto simp: loading_ok_def)
qed

lemma loading_ok_register:
  assumes "loading_ok N config s store ld" and "idx < length (ld_bundles ld)"
  shows "loading_ok N config s store
    (ld\<lparr>ld_entries := register_bundle_scopes (ld_bundles ld ! idx) (ca_entry ca idx) (ld_entries ld)\<rparr>)"
  using assms wf_register_bundle_scopes [of "ld_bundles ld" "ld_entries ld" "ca_entry ca idx"]
  by (simp add: loading_ok_def ca_entry_def)

lemma load_ca_ok:
  assumes "loading_ok N config s store ld" and "load_ca N config (ca, path) ld s = (Inr ld', s')"
  shows "s' = s \<and> loading_ok N config s store ld'"
proof (cases "map_of (ld_loaded_paths ld) (canonical_or_self (ce_canonicalize N) path)")
  case None
  then obtain b store' where acc: "accept_bundle N config path (ld_store ld) s = (Inr (b, store'), s')"
    and ld': "ld' = (let ld1 = ld\<lparr>ld_bundles := ld_bundles ld @ [b],
        ld_loaded_paths := AList.update (canonical_or_self (ce_canonicalize N) path) (length (ld_bundles ld)) (ld_loaded_paths ld),
        ld_store := store'\<rparr> in
      ld1\<lparr>ld_entries := register_bundle_scopes (ld_bundles ld1 ! length (ld_bundles ld)) (ca_entry ca (length (ld_bundles ld))) (ld_entries ld1)\<rparr>)"
    using assms(2) by (auto simp: load_ca_def io_inverts Let_def)
  show ?thesis
    using loading_ok_accept [OF assms(1) acc] loading_ok_register [OF loading_ok_accept(2) [OF assms(1) acc], of "length (ld_bundles ld)"]
    unfolding ld' Let_def by simp
next
  case (Some idx)
  then have "idx < length (ld_bundles ld)"
    using assms(1) by (auto simp: loading_ok_def dest!: map_of_SomeD)
  then show ?thesis
    using assms Some loading_ok_register [OF assms(1)] by (auto simp: load_ca_def io_inverts)
qed

lemma foldIO_load_ca_ok:
  assumes "loading_ok N config s store ld" and "foldIO (load_ca N config) cps ld s = (Inr ld', s')"
  shows "s' = s \<and> loading_ok N config s store ld'"
  using assms
proof (induction cps arbitrary: ld)
  case (Cons cp cps)
  obtain ca path where cp: "cp = (ca, path)" by force
  obtain ld1 s1 where "load_ca N config (ca, path) ld s = (Inr ld1, s1)" "foldIO (load_ca N config) cps ld1 s1 = (Inr ld', s')"
    using Cons.prems(2) cp by (auto simp: io_inverts)
  then show ?case using load_ca_ok [OF Cons.prems(1)] Cons.IH by blast
qed auto

lemma load_default_ok:
  assumes "st_staged store" and "load_default N config path store s = (Inr ld, s')"
  shows "s' = s \<and> loading_ok N config s store ld"
proof -
  obtain b store' where acc: "accept_bundle N config path store s = (Inr (b, store'), s')"
    and ld: "ld = \<lparr>ld_bundles = [b], ld_entries = register_bundle_scopes b default_entry [], ld_loaded_paths = [], ld_store = store'\<rparr>"
    using assms(2) by (auto simp: load_default_def io_inverts)
  note acc = accept_bundle_Inr [OF acc assms(1)]
  have "guarded_run (ce_ahu N) store [b] store'"
    using guarded_run_snoc [OF guarded_run_Nil acc(3)] acc(5) by simp
  moreover have "wf_entries [b] (register_bundle_scopes b default_entry [])"
    by (rule wf_register_bundle_scopes) (simp_all add: wf_entries_def default_entry_def)
  ultimately show ?thesis using acc assms(1) ld by (auto simp: loading_ok_def)
qed

text \<open>Snapshots and the commit change files and references, never the marks.\<close>

lemma snapshot_same_marks: "snapshot N label b st s = (Inr st', s') \<Longrightarrow> same_marks st st'"
  by (auto simp: snapshot_def io_inverts Let_def same_marks_def split: option.splits if_splits)

lemma snapshot_entry_same_marks:
  "snapshot_entry N bundles e (labels, st) s = (Inr (labels', st'), s') \<Longrightarrow> same_marks st st'"
  using snapshot_same_marks by (auto simp: snapshot_entry_def io_inverts same_marks_def split: if_splits)

lemma foldIO_snapshot_same_marks:
  "foldIO (snapshot_entry N bundles) es (labels, st) s = (Inr (labels', st'), s') \<Longrightarrow> same_marks st st'"
proof (induction es arbitrary: labels st s)
  case (Cons e es)
  obtain labels1 st1 s1 where "snapshot_entry N bundles e (labels, st) s = (Inr (labels1, st1), s1)"
    "foldIO (snapshot_entry N bundles) es (labels1, st1) s1 = (Inr (labels', st'), s')"
    using Cons.prems by (auto simp: io_inverts)
  then have "same_marks st st1" "same_marks st1 st'" using snapshot_entry_same_marks Cons.IH by blast+
  then show ?case by (simp add: same_marks_def)
qed (auto simp: same_marks_def)

lemma commit_Inr: "commit N cand st s = (Inr st', s') \<Longrightarrow> st' = st\<lparr>st_state := st_state cand\<rparr>"
  by (auto simp: commit_def io_inverts Let_def)

lemma load_scope_map_Inr:
  assumes "load_scope_map N config store s = (Inr (m, store'), s')"
  shows "wf_scope_map m" and "guarded_run (ce_ahu N) store (sm_bundles m) store'"
    and "\<And>b. b \<in> set (sm_bundles m) \<Longrightarrow> \<exists>path. load_and_verify_bundle N path config s = Inr b"
proof -
  let ?st = "clear_active_bundles (transaction store)"
  have st: "st_staged ?st" "same_marks ?st store"
    by (simp_all add: clear_active_bundles_def transaction_def same_marks_def)
  obtain cand s1 where cand: "load_scope_map_candidate N config ?st s = (Inr (m, cand), s1)" "st_state store' = st_state cand"
    using assms by (auto simp: load_scope_map_def io_inverts dest!: commit_Inr)
  obtain ld labels where ld: "loading_ok N config s ?st ld"
    "foldIO (snapshot_entry N (ld_bundles ld)) (concat (map snd (ld_entries ld))) ([], ld_store ld) s = (Inr (labels, cand), s1)"
    "m = \<lparr>sm_entries = ld_entries ld, sm_bundles = ld_bundles ld\<rparr>"
  proof -
    obtain paths ld s2 labels where *: "(if cf_ca config = [] then load_default N config (hd paths) ?st
        else foldIO (load_ca N config) (zip (cf_ca config) paths)
          \<lparr>ld_bundles = [], ld_entries = [], ld_loaded_paths = [], ld_store = ?st\<rparr>) s = (Inr ld, s2)"
      "foldIO (snapshot_entry N (ld_bundles ld)) (concat (map snd (ld_entries ld))) ([], ld_store ld) s2 = (Inr (labels, cand), s1)"
      "m = \<lparr>sm_entries = ld_entries ld, sm_bundles = ld_bundles ld\<rparr>"
      using cand(1) unfolding load_scope_map_candidate_def by (auto simp: io_inverts)
    have "loading_ok N config s ?st \<lparr>ld_bundles = [], ld_entries = [], ld_loaded_paths = [], ld_store = ?st\<rparr>"
      using st(1) by (simp add: loading_ok_def guarded_run_Nil wf_entries_def)
    then have "s2 = s \<and> loading_ok N config s ?st ld"
      using *(1) foldIO_load_ca_ok load_default_ok [OF st(1)] by (cases "cf_ca config = []") fastforce+
    then show thesis using that * by blast
  qed
  have "guarded_run (ce_ahu N) ?st (ld_bundles ld) (ld_store ld)" using ld(1) by (simp add: loading_ok_def)
  moreover have "same_marks (ld_store ld) store'"
    using foldIO_snapshot_same_marks [OF ld(2)] cand(2) by (simp add: same_marks_def)
  ultimately show "guarded_run (ce_ahu N) store (sm_bundles m) store'"
    using guarded_run_start [OF guarded_run_same_marks st(2)] ld(3) by auto
  show "wf_scope_map m" using ld by (simp add: wf_scope_map_def loading_ok_def)
  show "\<exists>path. load_and_verify_bundle N path config s = Inr b" if "b \<in> set (sm_bundles m)" for b
    using that ld by (auto simp: loading_ok_def)
qed

lemma load_and_verify_bundle_Inr:
  assumes "load_and_verify_bundle N path config s = Inr b"
  shows "\<exists>bytes now trust. fs_files s path = Some bytes \<and> from_bytes (ce_ahu N) bytes = Inr b \<and>
     ce_now N = Some now \<and> admit_bundle N b (cf_storage config) now s = Inr trust"
  using assms
  by (auto simp: load_and_verify_bundle_def from_file_def read_file_def clock_now_def result_inverts)

section \<open>The working set over time\<close>

text \<open>
  The responder reloads on request while anything outside it may change files: other processes write
  bundles, and a reload may fail.
\<close>

inductive responder_step :: "externals \<Rightarrow> ResponderState \<times> fs \<Rightarrow> ResponderState \<times> fs \<Rightarrow> bool" for E where
  reloading: "reload N rs s = (r, rs', s') \<Longrightarrow> ce_ahu N = E \<Longrightarrow> responder_step E (rs, s) (rs', s')"
| environment: "responder_step E (rs, s) (rs, s')"

inductive_cases responder_stepE: "responder_step E (rs, s) (rs', s')"

text \<open>Everything the responder serves is covered by its marks.\<close>

definition covers_served :: "externals \<Rightarrow> StateStore \<Rightarrow> Bundle \<Rightarrow> bool" where
  "covers_served E st b \<longleftrightarrow>
     (\<forall>(k, e) \<in> bundle_scopes_of b. store.covered E st k e (sha256 E (b_manifest_bytes b)))"

lemma covered_same_marks: "same_marks a b \<Longrightarrow> store.covered E a k e d \<longleftrightarrow> store.covered E b k e d"
  using same_marks_get [of a b] by (auto simp: store.covered_def)

lemma covers_served_same_marks: "same_marks a b \<Longrightarrow> covers_served E a c \<longleftrightarrow> covers_served E b c"
  using covered_same_marks by (fastforce simp: covers_served_def)

lemma guarded_run_covers:
  assumes "guarded_run E st bs st'" and "hex_roundtrip E" "sha256_length E"
  shows "b \<in> set bs \<Longrightarrow> covers_served E st' b" and "covers_served E st c \<Longrightarrow> covers_served E st' c"
    and "\<lbrakk>covers_served E st c; b \<in> set bs; (k, e) \<in> bundle_scopes_of c; (k, e') \<in> bundle_scopes_of b\<rbrakk> \<Longrightarrow>
       e \<le> e' \<and> (e = e' \<longrightarrow> sha256 E (b_manifest_bytes b) = sha256 E (b_manifest_bytes c))"
proof -
  have laws: "hex_roundtrip E \<and> sha256_length E" using assms by simp
  have run: "accepted_run (\<lambda>st b. check_rollback E st b = Inr ()) (note_store E) st bs"
    and marks: "same_marks (fold (note_store E) bs st) st'"
    using assms(1) by (simp_all add: guarded_run_def)
  show "covers_served E st' b" if "b \<in> set bs"
    using store.run_covers [OF laws run that] covered_same_marks [OF marks] by (auto simp: covers_served_def)
  show "covers_served E st' c" if "covers_served E st c"
    using that store.covered_fold [OF laws] covered_same_marks [OF marks] by (fastforce simp: covers_served_def)
  show "e \<le> e' \<and> (e = e' \<longrightarrow> sha256 E (b_manifest_bytes b) = sha256 E (b_manifest_bytes c))"
    if "covers_served E st c" "b \<in> set bs" "(k, e) \<in> bundle_scopes_of c" "(k, e') \<in> bundle_scopes_of b"
  proof -
    have "store.covered E st k e (sha256 E (b_manifest_bytes c))" using that by (auto simp: covers_served_def)
    then show ?thesis using store.run_covered [OF laws _ run that(2,4)] by blast
  qed
qed

lemma recover_default_Inr:
  assumes "recover_default N config path store s = (Inr (m, store'), s')"
  shows "wf_scope_map m" and "guarded_run (ce_ahu N) store (sm_bundles m) store'"
    and "\<And>b. b \<in> set (sm_bundles m) \<Longrightarrow> \<exists>path. load_and_verify_bundle N path config s = Inr b"
proof -
  let ?st = "clear_active_bundles (transaction store)"
  obtain b cand s1 cand' s2 where b: "accept_bundle N config path ?st s = (Inr (b, cand), s1)"
    "snapshot N ''default'' b cand s1 = (Inr cand', s2)" "st_state store' = st_state cand'"
    and m: "m = \<lparr>sm_entries = register_bundle_scopes b default_entry [], sm_bundles = [b]\<rparr>"
    using assms by (auto simp: recover_default_def io_inverts dest!: commit_Inr)
  have st: "st_staged ?st" "same_marks ?st store"
    by (simp_all add: clear_active_bundles_def transaction_def same_marks_def)
  note acc = accept_bundle_Inr [OF b(1) st(1)]
  have "guarded_run (ce_ahu N) ?st [b] cand"
    using guarded_run_snoc [OF guarded_run_Nil acc(3)] acc(5) by simp
  moreover have "same_marks cand store'" using snapshot_same_marks [OF b(2)] b(3) by (simp add: same_marks_def)
  ultimately show "guarded_run (ce_ahu N) store (sm_bundles m) store'"
    using guarded_run_start [OF guarded_run_same_marks st(2)] m by auto
  show "wf_scope_map m"
    unfolding m wf_scope_map_def by simp (rule wf_register_bundle_scopes; simp add: wf_entries_def default_entry_def)
  show "\<exists>path. load_and_verify_bundle N path config s = Inr c" if "c \<in> set (sm_bundles m)" for c
    using that acc(2) m by auto
qed

lemma load_or_recover_steps:
  assumes "load_or_recover N config store s = (Inr loaded, s')"
  shows "load_scope_map N config store s = (Inr loaded, s') \<or>
    (\<exists>s1. (\<exists>path. recover_default N config path store s1 = (Inr loaded, s')) \<or>
          (\<exists>config'. cf_storage config' = cf_storage config \<and> load_scope_map N config' store s1 = (Inr loaded, s')))"
proof (cases "load_scope_map N config store s")
  case (Pair r s1)
  show ?thesis
  proof (cases r)
    case (Inl original)
    show ?thesis
    proof (cases "cf_ca config = []")
      case True
      then have "\<exists>path. recover_default N config path store s1 = (Inr loaded, s')"
        using assms Pair Inl unfolding load_or_recover_def by (simp add: bindIO_eq_Inr split: if_splits) blast
      then show ?thesis by blast
    next
      case False
      then obtain config' where "recovery_config config store = Inr config'" "load_scope_map N config' store s1 = (Inr loaded, s')"
        using assms Pair Inl unfolding load_or_recover_def by (auto simp: io_inverts split: if_splits)
      moreover from this(1) have "cf_storage config' = cf_storage config" by (auto simp: recovery_config_def result_inverts)
      ultimately show ?thesis by blast
    qed
  qed (use assms Pair in \<open>simp add: load_or_recover_def\<close>)
qed

lemma load_or_recover_run:
  assumes "load_or_recover N config store s = (Inr (m, store'), s')"
  shows "wf_scope_map m \<and> guarded_run (ce_ahu N) store (sm_bundles m) store'"
  using load_or_recover_steps [OF assms]
proof (elim disjE exE)
  fix s1 path assume "recover_default N config path store s1 = (Inr (m, store'), s')"
  then show ?thesis using recover_default_Inr(1,2) by blast
qed (use load_scope_map_Inr(1,2) in blast)+

lemma load_Inr:
  assumes "load N config guard s = (Inr rs, s')"
  shows "wf_scope_map (rs_scope_map rs)"
    and "\<exists>store. guarded_run (ce_ahu N) store (sm_bundles (rs_scope_map rs)) (rs_state_store rs)"
  using assms by (auto simp: load_def io_inverts split: if_splits dest!: load_or_recover_run)

lemma reload_cases:
  assumes "reload N rs s = (r, rs', s')"
  shows "(\<exists>e. r = Inl e \<and> rs' = rs) \<or>
     (r = Inr () \<and> wf_scope_map (rs_scope_map rs') \<and>
      guarded_run (ce_ahu N) (rs_state_store rs) (sm_bundles (rs_scope_map rs')) (rs_state_store rs'))"
  using assms load_scope_map_Inr
  by (fastforce simp: reload_def split: if_splits prod.splits sum.splits)

definition served :: "ResponderState \<Rightarrow> Bundle set" where
  "served rs = set (sm_bundles (rs_scope_map rs))"

lemma responder_step_covers:
  assumes "responder_step E (rs, s) (rs', s')" and "hex_roundtrip E" "sha256_length E"
  shows "covers_served E (rs_state_store rs) b \<Longrightarrow> covers_served E (rs_state_store rs') b"
    and "\<lbrakk>\<forall>b \<in> served rs. covers_served E (rs_state_store rs) b; wf_scope_map (rs_scope_map rs)\<rbrakk> \<Longrightarrow>
       (\<forall>b \<in> served rs'. covers_served E (rs_state_store rs') b) \<and> wf_scope_map (rs_scope_map rs')"
  using assms(1)
proof -
  have "rs' = rs \<or> (wf_scope_map (rs_scope_map rs') \<and>
      guarded_run E (rs_state_store rs) (sm_bundles (rs_scope_map rs')) (rs_state_store rs'))"
    using assms(1) by (elim responder_stepE) (auto dest!: reload_cases)
  then show "covers_served E (rs_state_store rs) b \<Longrightarrow> covers_served E (rs_state_store rs') b"
    and "\<lbrakk>\<forall>b \<in> served rs. covers_served E (rs_state_store rs) b; wf_scope_map (rs_scope_map rs)\<rbrakk> \<Longrightarrow>
       (\<forall>b \<in> served rs'. covers_served E (rs_state_store rs') b) \<and> wf_scope_map (rs_scope_map rs')"
    using guarded_run_covers [OF _ assms(2,3)] by (auto simp: served_def)
qed

lemma responder_steps_covers:
  assumes "(responder_step E)\<^sup>*\<^sup>* (rs, s) (rs', s')" and "hex_roundtrip E" "sha256_length E"
  shows "covers_served E (rs_state_store rs) b \<Longrightarrow> covers_served E (rs_state_store rs') b"
    and "\<lbrakk>\<forall>b \<in> served rs. covers_served E (rs_state_store rs) b; wf_scope_map (rs_scope_map rs)\<rbrakk> \<Longrightarrow>
       (\<forall>b \<in> served rs'. covers_served E (rs_state_store rs') b) \<and> wf_scope_map (rs_scope_map rs')"
  using assms(1)
  by (induction rule: rtranclp_induct2) (use responder_step_covers [OF _ assms(2,3)] in blast)+

section \<open>What is served was admitted\<close>

definition admitted :: "externals \<Rightarrow> StorageConfig \<Rightarrow> Bundle \<Rightarrow> bool" where
  "admitted E storage b \<longleftrightarrow>
     (\<exists>N s path bytes now trust. ce_ahu N = E \<and> fs_files s path = Some bytes \<and> from_bytes E bytes = Inr b \<and>
        ce_now N = Some now \<and> admit_bundle N b storage now s = Inr trust)"

definition responder_ok :: "externals \<Rightarrow> ResponderState \<Rightarrow> bool" where
  "responder_ok E rs \<longleftrightarrow>
     wf_scope_map (rs_scope_map rs) \<and> (\<forall>b \<in> served rs. admitted E (cf_storage (rs_config rs)) b)"

lemma load_and_verify_admitted:
  "load_and_verify_bundle N path config s = Inr b \<Longrightarrow> admitted (ce_ahu N) (cf_storage config) b"
  unfolding admitted_def using load_and_verify_bundle_Inr by blast

lemma load_scope_map_admitted:
  assumes "load_scope_map N config store s = (Inr (m, store'), s')"
  shows "wf_scope_map m \<and> (\<forall>b \<in> set (sm_bundles m). admitted (ce_ahu N) (cf_storage config) b)"
  using load_scope_map_Inr(1,3) [OF assms] load_and_verify_admitted by blast

lemma load_or_recover_admitted:
  assumes "load_or_recover N config store s = (Inr (m, store'), s')"
  shows "wf_scope_map m \<and> (\<forall>b \<in> set (sm_bundles m). admitted (ce_ahu N) (cf_storage config) b)"
  using load_or_recover_steps [OF assms]
proof (elim disjE exE conjE)
  fix s1 path assume run: "recover_default N config path store s1 = (Inr (m, store'), s')"
  show ?thesis using recover_default_Inr(1,3) [OF run] load_and_verify_admitted by blast
next
  fix s1 config' assume "cf_storage config' = cf_storage config" "load_scope_map N config' store s1 = (Inr (m, store'), s')"
  then show ?thesis using load_scope_map_admitted [of N config' store s1 m store' s'] by simp
qed (rule load_scope_map_admitted)

lemma load_responder_ok:
  assumes "load N config guard s = (Inr rs, s')"
  shows "responder_ok (ce_ahu N) rs \<and> rs_config rs = config"
  using assms by (auto simp: load_def io_inverts responder_ok_def served_def split: if_splits dest!: load_or_recover_admitted)

lemma responder_step_ok:
  assumes "responder_step E (rs, s) (rs', s')" and "responder_ok E rs"
  shows "responder_ok E rs' \<and> rs_config rs' = rs_config rs"
proof -
  consider N r where "reload N rs s = (r, rs', s')" "ce_ahu N = E" | "rs' = rs"
    using assms(1) by (elim responder_stepE) auto
  then show ?thesis
  proof cases
    case (1 N r)
    obtain q s1 where run: "load_scope_map N (rs_config rs) (rs_state_store rs) s = (q, s1)" by force
    show ?thesis
      using 1 assms(2) run load_scope_map_admitted [of N "rs_config rs" "rs_state_store rs" s]
      by (cases q) (auto simp: reload_def responder_ok_def served_def split: if_splits)
  qed (use assms(2) in simp)
qed

lemma responder_steps_ok:
  assumes "(responder_step E)\<^sup>*\<^sup>* (rs, s) (rs', s')" and "responder_ok E rs"
  shows "responder_ok E rs' \<and> rs_config rs' = rs_config rs"
  using assms
proof (induction rule: rtranclp_induct2)
  case (step rs1 s1 rs2 s2)
  then show ?case using responder_step_ok [OF step.hyps(2)] by simp
qed simp

end
