(* ===== verification/Core_Progress.thy ===== *)
theory Core_Progress
  imports Core_Loading
begin

text \<open>
  Progress of the operations that write: when every system call succeeds and no directory or stale
  temporary file is in the way, an atomic write, a snapshot, a commit and a whole installation return
  success. These are the counterparts of the safety lemmas, which hold whatever the system calls do.
\<close>

section \<open>A file system without obstacles\<close>

definition no_tmp :: "fs \<Rightarrow> bool" where
  "no_tmp s \<longleftrightarrow> (\<forall>p. is_tmp p \<longrightarrow> fs_files s p = None)"

definition above :: "path \<Rightarrow> path set" where
  "above p = {take n p |n. n < length p}"

definition no_faults :: "core_env \<Rightarrow> bool" where
  "no_faults N \<longleftrightarrow> (\<forall>n. ce_write N n = write_succeeds) \<and> (\<forall>d. ce_create_dir N d = None)"

text \<open>A path that can be written: not a directory, and not directly under the root of the file system.\<close>

definition writable :: "fs \<Rightarrow> path \<Rightarrow> bool" where
  "writable s p \<longleftrightarrow> \<not> fs_dirs s p \<and> 1 < length p \<and> \<not> is_tmp p"

definition grows :: "path set \<Rightarrow> fs \<Rightarrow> fs \<Rightarrow> bool" where
  "grows D s s' \<longleftrightarrow> (\<forall>d. fs_dirs s' d \<longrightarrow> fs_dirs s d \<or> d \<in> D)"

lemma grows_trans: "grows D s s1 \<Longrightarrow> grows D' s1 s2 \<Longrightarrow> D \<union> D' \<subseteq> D'' \<Longrightarrow> grows D'' s s2"
  unfolding grows_def by blast

lemma writable_grows: "writable s p \<Longrightarrow> grows D s s' \<Longrightarrow> p \<notin> D \<Longrightarrow> writable s' p"
  unfolding writable_def grows_def by blast

lemma above_butlast: "d \<in> set (map (\<lambda>n. take n (butlast p)) [1..<Suc (length (butlast p))]) \<Longrightarrow> d \<in> above p"
proof -
  assume "d \<in> set (map (\<lambda>n. take n (butlast p)) [1..<Suc (length (butlast p))])"
  then obtain n where "d = take n (butlast p)" "n \<ge> 1" "n \<le> length p - 1" by auto
  then have "n < length p" "d = take n p" by (auto simp: take_butlast)
  then show ?thesis unfolding above_def by blast
qed

lemma grows_add_dirs: "grows (above p) s (add_dirs (butlast p) s)"
  using above_butlast by (auto simp: grows_def add_dirs_def fs_dirs_def)

lemma not_above_self: "p \<notin> above p"
proof
  assume "p \<in> above p"
  then obtain n where "p = take n p" "n < length p" unfolding above_def by blast
  then have "length p = min (length p) n" by (metis length_take)
  then show False using \<open>n < length p\<close> by simp
qed

lemma grows_eq: "fs_dirs s' = fs_dirs s \<Longrightarrow> grows D s s'"
  by (simp add: grows_def)

section \<open>Each operation succeeds\<close>

lemma write_next_succeeds:
  assumes "no_faults N" and "no_tmp s" and "writable s p"
  shows "\<exists>s'. write_next N p bytes s = (Inr (), s') \<and> no_tmp s' \<and> grows (above p) s s'"
proof -
  have parent: "write_parent p = butlast p" using assms(3) by (simp add: writable_def write_parent_butlast)
  let ?s = "s\<lparr>fs_calls := Suc (fs_calls s)\<rparr>"
  let ?s1 = "(add_dirs (butlast p) ?s)\<lparr>fs_tmp_counter := fs_tmp_counter s + 1\<rparr>"
  let ?tmp = "path_join (butlast p) (tmp_name (ce_pid N) (fs_tmp_counter s))"
  let ?s2 = "sync_entry p (rename_file ?tmp p (set_file ?tmp (Some bytes) (set_file ?tmp (Some []) ?s1)))"
  have free: "fs_files ?s1 ?tmp = None" using assms(2) by (simp add: no_tmp_def)
  have dirs: "fs_dirs ?s1 = fs_dirs (add_dirs (butlast p) s)"
    by (simp add: add_dirs_def fs_dirs_def fun_eq_iff)
  have "length (butlast p) < length p" using assms(3) by (auto simp: writable_def)
  then have nodir: "\<not> fs_dirs ?s1 p"
    using assms(3) add_dirs_shorter unfolding dirs writable_def by blast
  have "write_next N p bytes s = (Inr (), ?s2)"
    using assms(1) free nodir
    by (simp add: write_next_def no_faults_def write_atomic_def write_steps_def write_succeeds_def parent Let_def)
  moreover have "no_tmp ?s2"
    using assms(2,3) by (auto simp: no_tmp_def writable_def)
  moreover have "fs_dirs ?s2 = fs_dirs (add_dirs (butlast p) s)"
    using dirs by (simp add: sync_entry_def rename_file_def)
  then have "grows (above p) s ?s2" using grows_add_dirs [of p s] by (simp add: grows_def)
  ultimately show ?thesis by blast
qed

lemma snapshot_succeeds:
  assumes "no_faults N" and "no_tmp s" and "digest_laws (ce_ahu N)" and "to_bytes b = Inr out"
    and "writable s (snapshot_path (ce_ahu N) (st_path st) out)"
  shows "\<exists>s'. snapshot N label b st s =
       (Inr (st\<lparr>st_state := reference_snapshot label (snapshot_path (ce_ahu N) (st_path st) out) (st_state st)\<rparr>), s') \<and>
     no_tmp s' \<and> grows (above (snapshot_path (ce_ahu N) (st_path st) out)) s s'"
proof -
  let ?p = "snapshot_path (ce_ahu N) (st_path st) out" and ?dir = "generations_dir (st_path st)"
  let ?s = "add_dirs ?dir s"
  have dir: "butlast ?p = ?dir" by (simp add: snapshot_path_def path_join_def)
  have grows: "grows (above ?p) s ?s" using grows_add_dirs [of ?p s] by (simp add: dir)
  have w: "writable ?s ?p" by (rule writable_grows [OF assms(5) grows not_above_self])
  have nodir: "\<not> fs_dirs ?s ?p" using w by (simp add: writable_def)
  have mkdir: "ce_create_dir N ?dir = None" using assms(1) by (simp add: no_faults_def)
  have tmp: "no_tmp ?s" using assms(2) by (simp add: no_tmp_def)
  have step: "snapshot N label b st s =
    (if fs_files ?s ?p \<noteq> Some out
     then bindIO (write_next N ?p out) (\<lambda>_. returnIO (st\<lparr>st_state := reference_snapshot label ?p (st_state st)\<rparr>)) ?s
     else (Inr (st\<lparr>st_state := reference_snapshot label ?p (st_state st)\<rparr>), ?s))"
    using assms(4) mkdir nodir unfolding snapshot_path_def
    by (simp add: snapshot_def bindIO_def liftIO_def map_errR_def Let_def modifyIO_def returnIO_def reference_snapshot_def)
  show ?thesis
  proof (cases "fs_files ?s ?p = Some out")
    case True
    then show ?thesis using step tmp grows by simp
  next
    case False
    obtain s' where s': "write_next N ?p out ?s = (Inr (), s')" "no_tmp s'" "grows (above ?p) ?s s'"
      using write_next_succeeds [OF assms(1) tmp w] by blast
    then have "grows (above ?p) s s'" using grows_trans [OF grows] by blast
    then show ?thesis using step False s' by (simp add: bindIO_def returnIO_def)
  qed
qed

lemma collect_generations_quiet:
  "no_tmp s \<Longrightarrow> no_tmp (collect_generations N dir ps s)" "fs_dirs (collect_generations N dir ps s) = fs_dirs s"
proof -
  have "fs_files (foldl (\<lambda>s' n. let p = path_join dir n in
       if is_generated p \<and> p \<notin> A \<and> \<not> f p then set_file p None s' else s') s ns) q = None"
    if "fs_files s q = None" for A f ns s q
    using that by (induction ns arbitrary: s) (auto simp: Let_def)
  then show "no_tmp s \<Longrightarrow> no_tmp (collect_generations N dir ps s)"
    unfolding no_tmp_def collect_generations_def by simp
  have "fs_dirs (foldl (\<lambda>s' n. let p = path_join dir n in
       if is_generated p \<and> p \<notin> A \<and> \<not> f p then set_file p None s' else s') s ns) = fs_dirs s" for A f ns
    by (induction ns arbitrary: s) (auto simp: Let_def)
  then show "fs_dirs (collect_generations N dir ps s) = fs_dirs s" by (simp add: collect_generations_def)
qed

lemma commit_succeeds:
  assumes "no_faults N" and "no_tmp s" and "writable s (st_path cand)" and "ce_json_to N (st_state cand) = Inr json"
  shows "\<exists>s'. commit N cand st s = (Inr (st\<lparr>st_state := st_state cand\<rparr>), s') \<and> no_tmp s' \<and> grows (above (st_path cand)) s s'"
proof -
  obtain s1 where s1: "write_next N (st_path cand) json s = (Inr (), s1)" "no_tmp s1" "grows (above (st_path cand)) s s1"
    using write_next_succeeds [OF assms(1,2,3)] by blast
  then have "commit N cand st s =
      (Inr (st\<lparr>st_state := st_state cand\<rparr>), collect_generations N (generations_dir (st_path st)) (st_state cand) s1)"
    using assms(4) by (simp add: commit_def persist_def bindIO_def liftIO_def map_errR_def modifyIO_def returnIO_def Let_def)
  moreover have "grows (above (st_path cand)) s (collect_generations N (generations_dir (st_path st)) (st_state cand) s1)"
    using s1(3) by (simp add: grows_def collect_generations_quiet(2))
  ultimately show ?thesis using s1(2) collect_generations_quiet(1) by blast
qed

section \<open>An installation completes\<close>

lemma install_completes_lemma:
  assumes checks: "install_checks N config label bytes guard s = Inr (destination, b, store)"
    and out: "to_bytes b = Inr out"
    and json: "ce_json_to N (installed_state (ce_ahu N) label b (state_file config) out (st_state store)) = Inr json"
    and quiet: "no_faults N" "no_tmp s" "digest_laws (ce_ahu N)"
    and free: "writable s (snapshot_path (ce_ahu N) (state_file config) out)" "writable s (state_file config)"
      "writable s destination"
    and apart: "destination \<notin> above (snapshot_path (ce_ahu N) (state_file config) out)" "destination \<notin> above (state_file config)"
      "state_file config \<notin> above (snapshot_path (ce_ahu N) (state_file config) out)"
  shows "\<exists>s'. install_bundle N config label bytes guard s =
     (Inr \<lparr>is_destination = destination, is_publication_warning = None\<rparr>, s')"
proof -
  let ?sp = "snapshot_path (ce_ahu N) (state_file config) out"
  let ?adv = "note_store (ce_ahu N) b (transaction store)"
  have path: "st_path store = state_file config"
    using install_checks_Inr(4) [OF checks] by (simp add: open_store_Inr)
  have advp: "st_path ?adv = state_file config" using path by (simp add: transaction_def)
  let ?cand = "?adv\<lparr>st_state := installed_state (ce_ahu N) label b (state_file config) out (st_state store)\<rparr>"
  have cand: "?adv\<lparr>st_state := reference_snapshot label ?sp (st_state ?adv)\<rparr> = ?cand"
    by (simp add: note_store_def transaction_def installed_state_def)
  obtain s1 where s1: "snapshot N label b ?adv s = (Inr ?cand, s1)" "no_tmp s1" "grows (above ?sp) s s1"
    using snapshot_succeeds [OF quiet(1,2,3) out, of ?adv label] free(1) unfolding advp cand by blast
  have w1: "writable s1 (state_file config)" "writable s1 destination"
    using writable_grows [OF free(2) s1(3)] writable_grows [OF free(3) s1(3)] apart by blast+
  have candp: "st_path ?cand = state_file config" using advp by simp
  obtain s2 where s2: "commit N ?cand store s1 = (Inr (store\<lparr>st_state := st_state ?cand\<rparr>), s2)" "no_tmp s2"
    "grows (above (state_file config)) s1 s2"
    using commit_succeeds [OF quiet(1) s1(2), of ?cand json store] w1(1) json unfolding candp by auto
  have w2: "writable s2 destination" using writable_grows [OF w1(2) s2(3)] apart(2) by blast
  obtain s3 where s3: "write_next N destination bytes s2 = (Inr (), s3)"
    using write_next_succeeds [OF quiet(1) s2(2) w2] by blast
  have adv: "advance_from_bundle N b (transaction store) = returnIO ?adv"
    by (rule advance_from_bundle_staged) (simp add: transaction_def)
  have "install_bundle N config label bytes guard s = (Inr \<lparr>is_destination = destination, is_publication_warning = None\<rparr>, s3)"
    using s1(1) s2(1) s3
    by (simp add: install_bundle_def bindIO_def readIO_def checks adv returnIO_def publish_def)
  then show ?thesis by blast
qed

end
