(* ===== verification/Core_Examples.thy ===== *)
theory Core_Examples
  imports Core_Progress Ahu_Properties
begin

text \<open>
  A concrete state directory, configuration and environment, in which a sealed bundle is installed,
  loaded and reloaded; used to show that the premises of the theorems on the core can hold.
\<close>

section \<open>The example bundle\<close>

definition ex_bundle :: Bundle where
  "ex_bundle = built_bundle example_E example_builder [42]"

definition ex_out :: bytes where
  "ex_out = projr (to_bytes ex_bundle)"

lemma ex_bundle_parts:
  "b_manifest_bytes ex_bundle = [0xA0]" "b_seal_bytes ex_bundle = [42]" "b_manifest ex_bundle = example_manifest"
  by (simp_all add: ex_bundle_def built_bundle_def Let_def)

lemma ex_bundle_scopes [simp]: "mf_ca_scopes (b_manifest ex_bundle) = [example_scope]"
  by (simp add: ex_bundle_parts example_manifest_def)

lemma ex_bundle_sizes: "length (write_index (b_index ex_bundle)) + length (b_data ex_bundle) < 2 ^ 32"
  using layout_data_bound [of "sort_entries (bb_entries example_builder)" 5 example_E]
    layout_entries_wf [of "sort_entries (bb_entries example_builder)" example_E] wf_example_builder
  by (simp add: ex_bundle_def built_bundle_def built_layout_def Let_def length_write_index length_la_index
      INDEX_RECORD_SIZE_def example_builder_entries wf_builder_def)

lemma to_bytes_ex_bundle: "to_bytes ex_bundle = Inr ex_out"
proof -
  have "unat (len_u64 (write_index (b_index ex_bundle))) < 2 ^ 32"
    using ex_bundle_sizes by (subst unat_len_u64) simp_all
  then obtain out where "to_bytes ex_bundle = Inr out"
    by (simp add: to_bytes_def try_len_u32_def ex_bundle_parts checked_add_u64_def HEADER_SIZE_def len_u32_def Let_def)
  then show ?thesis by (simp add: ex_out_def)
qed

lemma vec_fits_ex_out [simp]: "vec_fits ex_out"
proof -
  have "length out = 66 + length (write_index (b_index ex_bundle)) + length (b_data ex_bundle)"
    if "to_bytes ex_bundle = Inr out" for out
    using that by (auto simp: to_bytes_def try_len_u32_def ex_bundle_parts checked_add_u64_def HEADER_SIZE_def
        bindR_eq_Inr Let_def split: if_splits)
  then show ?thesis using ex_bundle_sizes to_bytes_ex_bundle by (simp add: vec_fits_def)
qed

lemma from_bytes_example_file: "from_bytes example_E example_file = Inr ex_bundle"
  using from_bytes_build [OF wf_example_builder _ _ _ _ _ _ build_example, of "[42]"]
  by (simp add: example_seal_fn_def ex_bundle_def)

lemma ex_bundle_sound: "structurally_sound example_E ex_bundle"
  unfolding ex_bundle_def
  by (rule built_bundle_sound [OF wf_example_builder _ _ build_layout_fits [OF wf_example_builder build_example]])
    (simp_all add: example_builder_entries)

lemma flags_la_index: "map ir_flags (la_index (layout_entries E es)) = map (\<lambda>e. ir_flags (fst e)) es"
proof (induction es rule: rev_induct)
  case (snoc e es)
  then show ?case
    by (cases e) (auto simp: layout_entries_def layout_entry_def place_def Let_def split: option.split)
qed (simp add: layout_entries_def layout_empty_def)

lemma ex_bundle_servable: "servable ex_bundle"
proof -
  have "\<not> is_tombstone r" if "r \<in> set (b_index ex_bundle)" for r
  proof -
    have "set (map ir_flags (b_index ex_bundle)) = (\<lambda>e. ir_flags (fst e)) ` set (bb_entries example_builder)"
      unfolding ex_bundle_def built_bundle_def built_layout_def
      by (simp only: flags_la_index Let_def Bundle.select_convs) (simp add: sort_entries_def)
    then have "ir_flags r \<in> (\<lambda>e. ir_flags (fst e)) ` set (bb_entries example_builder)"
      using that by auto
    then show ?thesis by (auto simp: example_builder_entries is_tombstone_def flags_contain_def TOMBSTONE_def)
  qed
  then show ?thesis by (simp add: servable_def ex_bundle_parts example_manifest_def)
qed

section \<open>A state directory and an environment\<close>

definition ex_state_path :: path where "ex_state_path = [''state'', ''state.json'']"
definition ex_bundle_path :: path where "ex_bundle_path = [''bundles'', ''ca1.ahu'']"
definition ex_pin_path :: path where "ex_pin_path = [''etc'', ''pin.der'']"

definition ex_installed :: PersistedState where
  "ex_installed = installed_state example_E ''ca1'' ex_bundle ex_state_path ex_out empty_state"

definition ex_env :: core_env where
  "ex_env =
     \<lparr>ce_ahu = example_E, ce_cms = example_cms,
      ce_json_to = (\<lambda>ps. if ps = empty_state then Inr [1] else if ps = ex_installed then Inr [2] else Inl ''json''),
      ce_json_from = (\<lambda>bs. if bs = [1] then Inr empty_state else if bs = [2] then Inr ex_installed else Inl ''json''),
      ce_cert_from_pem = (\<lambda>_. Inl ''pem''), ce_canonicalize = Some, ce_write = (\<lambda>_. write_succeeds),
      ce_create_dir = (\<lambda>_. None), ce_read_dir = (\<lambda>_. None), ce_unlink_fails = (\<lambda>_. False), ce_pid = 1,
      ce_now = Some 500\<rparr>"

definition ex_ca :: CaConfig where
  "ex_ca =
     \<lparr>ca_label = ''ca1'', ca_bundle_file = None, ca_nonce_policy = ''ignore'', ca_completeness = ''partial'',
      ca_issuer_name_hash = None, ca_issuer_key_hash = None, ca_forward_to = None, ca_forward_insecure = False,
      ca_forward_ca = None, ca_source = None, ca_batch_interval = 3600, ca_validity_secs = 86400, ca_jitter_secs = 0,
      ca_certid_compat = ''dual'', ca_max_age_fraction = Finite (1 / 2), ca_archive_cutoff_secs = 0,
      ca_urgent_revocation = True, ca_issuer_name_der_b64 = None, ca_issuer_key_bytes_b64 = None,
      ca_sig_alg = ''ecdsa-p256'', ca_signing_key = None, ca_responder_cert = None, ca_key_rotation = None,
      ca_seal_key = None, ca_seal_cert = None\<rparr>"

definition ex_storage :: StorageConfig where
  "ex_storage =
     \<lparr>so_bundle_dir = [''bundles''], so_state_db = [''state''], so_seal_trust_anchors = None,
      so_seal_authorizations = [], so_seal_signer_pins = [ex_pin_path], so_allow_unauthenticated_bundles = False\<rparr>"

definition ex_config :: Config where
  "ex_config =
     \<lparr>cf_server = \<lparr>sc_mode = ''edge'', sc_listen = ''127.0.0.1:8080'', sc_max_request = 8192, sc_admin = None,
        sc_webui = None, sc_metrics_listen = None, sc_admin_listen = None, sc_admin_tls = None, sc_metrics_tls = None\<rparr>,
      cf_storage = ex_storage, cf_ca = [ex_ca], cf_gossip = None\<rparr>"

definition ex_guard :: StateDirectoryLock where
  "ex_guard = \<lparr>sl_state_dir = [''state'']\<rparr>"

definition ex_fs :: fs where
  "ex_fs =
     \<lparr>fs_store = [(ex_state_path, [1]), (ex_pin_path, [48]), (ex_bundle_path, example_file)],
      fs_directories = [[''state''], [''etc''], [''bundles'']],
      fs_durable = map_of [(ex_state_path, [1]), (ex_pin_path, [48]), (ex_bundle_path, example_file)],
      fs_locks = (\<lambda>_. None), fs_tmp_counter = 0, fs_calls = 0\<rparr>"

lemmas ex_path_defs = ex_state_path_def ex_bundle_path_def ex_pin_path_def

lemma ex_env_sel [simp]:
  "ce_ahu ex_env = example_E" "ce_cms ex_env = example_cms" "ce_canonicalize ex_env = Some" "ce_now ex_env = Some 500"
  "ce_json_from ex_env [1] = Inr empty_state" "ce_json_to ex_env ex_installed = (if ex_installed = empty_state then Inr [1] else Inr [2])"
  by (simp_all add: ex_env_def)

lemma ex_no_faults: "no_faults ex_env"
  by (simp add: no_faults_def ex_env_def)

lemma ex_files [simp]:
  "fs_files ex_fs ex_state_path = Some [1]" "fs_files ex_fs ex_pin_path = Some [48]"
  "fs_files ex_fs ex_bundle_path = Some example_file"
  by (simp_all add: fs_files_def ex_fs_def ex_path_defs)

lemma ex_state_file [simp]: "state_file ex_config = ex_state_path"
  by (simp add: state_file_def ex_config_def ex_storage_def path_join_def ex_state_path_def)

lemma hex_decode_ref_digits: "hex_decode_ref t = Inr bs \<Longrightarrow> list_all is_ascii_hexdigit t"
proof (induction t arbitrary: bs rule: hex_decode_ref.induct)
  case (3 c d cs)
  have "is_ascii_hexdigit c" if "hex_value c = Some x" for c x
    using map_of_SomeD [OF that [unfolded hex_value_def]] set_zip_leftD
    unfolding is_ascii_hexdigit_def by fast
  then show ?case using 3 by (auto simp: bindR_eq_Inr split: option.splits)
qed simp_all

lemma length_hex_encode_ref: "length (hex_encode_ref bs) = 2 * length bs"
  by (induction bs) simp_all

lemma example_digest_laws [simp]: "digest_laws example_E"
proof -
  have "hex_length example_E" "hex_decode_digits example_E"
    unfolding hex_length_def hex_decode_digits_def example_E_def example_externals_def
    using length_hex_encode_ref hex_decode_ref_digits by simp_all
  then show ?thesis by (simp add: digest_laws_def)
qed

section \<open>The installation of the example\<close>

lemma ex_read_certs: "read_certs ex_env ex_fs [ex_pin_path] = Inr [[48]]"
  by (simp add: read_certs_def read_cert_def read_file_def pem_marker_def example_cms_def example_cert_def)

lemma ex_authenticate: "authenticate_bundle ex_env ex_bundle ex_storage 500 ex_fs = Inr example_verification"
proof -
  have "admission_verify_structure example_E ex_bundle = Inr ()"
    using ex_bundle_sound by (simp add: admission_verify_structure_Inr)
  moreover have "verify_configured_seal ex_env ex_storage ex_bundle [] [[48]] 500 = Inr example_verification"
    by (simp add: verify_configured_seal_def has_pins_def ex_storage_def ex_bundle_parts example_pinned)
  ultimately show ?thesis
    using ex_read_certs
    by (simp add: authenticate_bundle_def has_pins_def ex_bundle_parts ex_storage_def read_certs_def)
qed

lemma ex_destination: "bundle_destination Some ex_config ''ca1'' = Inr ex_bundle_path"
  by (simp add: bundle_destination_def ex_config_def ex_ca_def unsafe_label_def ca_bundle_path_def ex_storage_def
      path_join_def ex_bundle_path_def canonical_or_self_def)

definition ex_store :: StateStore where
  "ex_store = \<lparr>st_path = ex_state_path, st_state = empty_state, st_staged = False\<rparr>"

lemma ex_recoverable: "recoverable ex_env ex_state_path empty_state ex_fs"
proof -
  have "holds_file ex_fs ex_state_path [1]"
    by (simp add: holds_file_def) (simp add: ex_fs_def)
  then have "\<exists>json. holds_file ex_fs ex_state_path json \<and> ce_json_from ex_env json = Inr empty_state"
    by (intro exI [of _ "[1]"]) simp
  then show ?thesis by (simp add: recoverable_def marks_valid_def snapshots_hold_def empty_state_def)
qed

lemma ex_open: "open_store ex_env ex_state_path ex_fs = Inr ex_store"
  using recoverable_open [OF ex_recoverable, of ex_fs] by (simp add: crash_of_def ex_store_def)

lemma ex_checks:
  "install_checks ex_env ex_config ''ca1'' example_file ex_guard ex_fs = Inr (ex_bundle_path, ex_bundle, ex_store)"
proof -
  have "check_rollback example_E ex_store ex_bundle = Inr ()" "check_continuity example_E ex_store ex_bundle = Inr ()"
    by (simp_all add: check_rollback_def check_rollback_scope_def ex_store_def get_high_water_def empty_state_def
        check_continuity_def ex_bundle_parts example_manifest_def)
  moreover have "validate_serving_profile ex_bundle = Inr ()"
    using ex_bundle_servable by (simp add: validate_serving_profile_Inr)
  moreover have "cf_storage ex_config = ex_storage" "so_state_db ex_storage = sl_state_dir ex_guard"
    by (simp_all add: ex_config_def ex_storage_def ex_guard_def)
  ultimately show ?thesis
    by (simp add: install_checks_def ex_destination from_bytes_example_file clock_now_def ex_authenticate ex_open)
qed

lemma ex_installed_not_empty: "ex_installed \<noteq> empty_state"
proof
  assume "ex_installed = empty_state"
  then have "map_of (ps_active_bundles ex_installed) ''ca1'' = map_of (ps_active_bundles empty_state) ''ca1''" by simp
  then have "map_of (ps_active_bundles ex_installed) ''ca1'' = None" by (simp add: empty_state_def)
  then show False by (simp add: ex_installed_def installed_state_active)
qed

lemma ex_json: "ce_json_to ex_env ps = Inr json \<Longrightarrow> ce_json_from ex_env json = Inr ps"
  using ex_installed_not_empty by (auto simp: ex_env_def split: if_splits)

lemma ex_dom: "fs_files ex_fs p = Some c \<Longrightarrow> p \<in> {ex_state_path, ex_pin_path, ex_bundle_path}"
  by (auto simp: fs_files_def ex_fs_def split: if_splits)

lemma ex_generations: "generations_dir ex_state_path = [''state'', ''generations'']"
  by (simp add: generations_dir_def path_parent_def ex_state_path_def path_join_def)

lemma ex_ready: "install_ready ex_env ex_config ''ca1'' example_file empty_state ex_fs"
  unfolding install_ready_def
proof (intro conjI allI impI)
  show "recoverable ex_env (state_file ex_config) empty_state ex_fs" using ex_recoverable by simp
  show "ce_json_to ex_env ps = Inr json \<Longrightarrow> ce_json_from ex_env json = Inr ps" for ps json by (rule ex_json)
  show "fs_durable ex_fs p = Some c" if "fs_files ex_fs p = Some c" for p c
    using that by (simp add: fs_files_def ex_fs_def)
  show "vec_fits out" if "from_bytes (ce_ahu ex_env) example_file = Inr b" "to_bytes b = Inr out" for b out
    using that from_bytes_example_file to_bytes_ex_bundle by simp
  fix d assume "bundle_destination (ce_canonicalize ex_env) ex_config ''ca1'' = Inr d"
  then have "d = ex_bundle_path" using ex_destination by simp
  then show "d \<noteq> state_file ex_config" "butlast d \<noteq> generations_dir (state_file ex_config)"
    "d \<notin> snd ` set (ps_active_bundles empty_state)"
    by (simp_all add: ex_generations) (simp_all add: ex_path_defs empty_state_def)
qed (simp_all add: empty_state_def)

lemma ex_snapshot_path: "butlast (snapshot_path example_E ex_state_path ex_out) = [''state'', ''generations'']"
  "length (snapshot_path example_E ex_state_path ex_out) = 3"
  by (simp_all add: snapshot_path_def path_join_def ex_generations)

lemma ex_no_tmp: "no_tmp ex_fs"
proof -
  have "\<not> is_tmp p" if "p \<in> {ex_state_path, ex_pin_path, ex_bundle_path}" for p
    using that by (auto simp: is_tmp_def is_tmp_name_def starts_with_def ex_path_defs)
  then show ?thesis unfolding no_tmp_def using ex_dom by (metis option.exhaust)
qed

lemma ex_writable:
  "writable ex_fs (snapshot_path example_E ex_state_path ex_out)" "writable ex_fs ex_state_path" "writable ex_fs ex_bundle_path"
proof -
  have dirs: "length d = 1" if "fs_dirs ex_fs d" for d using that by (auto simp: fs_dirs_def ex_fs_def)
  show "writable ex_fs (snapshot_path example_E ex_state_path ex_out)"
    using dirs ex_snapshot_path(2) snapshot_path_name(1) [OF example_digest_laws] by (auto simp: writable_def)
  show "writable ex_fs ex_state_path" "writable ex_fs ex_bundle_path"
    using dirs [of ex_state_path] dirs [of ex_bundle_path]
    by (auto simp: writable_def ex_path_defs is_tmp_def is_tmp_name_def starts_with_def)
qed

lemma not_above: "take (length q) p \<noteq> q \<Longrightarrow> q \<notin> above p"
  by (auto simp: above_def min_def split: if_splits)

lemma ex_apart:
  "ex_bundle_path \<notin> above (snapshot_path example_E ex_state_path ex_out)" "ex_bundle_path \<notin> above ex_state_path"
  "ex_state_path \<notin> above (snapshot_path example_E ex_state_path ex_out)"
proof -
  have "take (Suc (Suc 0)) (snapshot_path example_E ex_state_path ex_out) = [''state'', ''generations'']"
    using ex_snapshot_path by (metis butlast_conv_take diff_Suc_1 numeral_3_eq_3)
  then show "ex_bundle_path \<notin> above (snapshot_path example_E ex_state_path ex_out)"
    "ex_state_path \<notin> above (snapshot_path example_E ex_state_path ex_out)"
    by (auto intro!: not_above simp: ex_path_defs)
  show "ex_bundle_path \<notin> above ex_state_path" by (rule not_above) (simp add: ex_path_defs)
qed

section \<open>Loading and reloading the example\<close>

definition ex_key :: string where "ex_key = scope_key example_E example_manifest example_scope"

definition ex_marks :: PersistedState where
  "ex_marks = \<lparr>ps_high_water_marks = [(ex_key, 7)],
     ps_manifest_digests = [(ex_key, hex_encode example_E (replicate 32 0))], ps_active_bundles = []\<rparr>"

lemma ex_record: "record_bundle example_E ex_bundle empty_state = ex_marks" "record_bundle example_E ex_bundle ex_marks = ex_marks"
  by (simp_all add: record_bundle_def raise_mark_def ex_marks_def empty_state_def ex_key_def ex_bundle_parts)

lemma ex_installed_eq:
  "ex_installed = reference_snapshot ''ca1'' (snapshot_path example_E ex_state_path ex_out) ex_marks"
  by (simp add: ex_installed_def installed_state_def ex_record)

definition ex_entry :: ScopeEntry where "ex_entry = ca_entry ex_ca 0"

definition ex_map :: ScopeMap where
  "ex_map = \<lparr>sm_entries = [(([2], [3]), [ex_entry])], sm_bundles = [ex_bundle]\<rparr>"

lemma ex_paths: "configured_bundle_paths ex_env ex_config s = Inr [ex_bundle_path]"
  by (simp add: configured_bundle_paths_def validate_nonce_config_def ex_config_def ex_ca_def ca_bundle_path_def
      ex_storage_def path_join_def ex_bundle_path_def)

lemma ex_load_and_verify: "load_and_verify_bundle ex_env ex_bundle_path ex_config ex_fs = Inr ex_bundle"
proof -
  have "cf_storage ex_config = ex_storage" by (simp add: ex_config_def)
  moreover have "admit_bundle ex_env ex_bundle ex_storage 500 ex_fs = Inr (Authenticated (sv_signer_sha256 example_verification))"
    using ex_authenticate ex_bundle_servable [folded validate_serving_profile_Inr [of _ "()"]]
    by (simp add: admit_bundle_def) (simp add: ex_storage_def)
  ultimately show ?thesis
    by (simp add: load_and_verify_bundle_def from_file_def read_file_def from_bytes_example_file clock_now_def)
qed

text \<open>Loading from a store whose marks are empty or are those of the example bundle itself.\<close>

lemma ex_check:
  assumes "ps_active_bundles (st_state st) = []" and "st_state st = empty_state \<or> st_state st = ex_marks"
  shows "check_rollback example_E st ex_bundle = Inr ()" and "check_continuity example_E st ex_bundle = Inr ()"
    and "note_store example_E ex_bundle st = st\<lparr>st_state := ex_marks\<rparr>"
proof -
  have key: "make_key (mf_producer_id example_manifest) (hex_encode example_E (cs_issuer_key_hash example_scope)) = ex_key"
    by (simp add: ex_key_def scope_key_def)
  have epoch: "cs_epoch example_scope = 7" by (simp add: example_scope_def)
  show "check_rollback example_E st ex_bundle = Inr ()"
    using assms(2) by (auto simp: check_rollback_Inr check_rollback_scope_Inr ex_bundle_parts get_high_water_def
        get_manifest_digest_def key epoch empty_state_def ex_marks_def hex_roundtripD)
  show "check_continuity example_E st ex_bundle = Inr ()"
    by (simp add: check_continuity_def ex_bundle_parts example_manifest_def)
  show "note_store example_E ex_bundle st = st\<lparr>st_state := ex_marks\<rparr>"
    using assms(2) ex_record by (auto simp: note_store_def)
qed

lemma ex_load:
  assumes "st_path st = ex_state_path" and "st_state st = empty_state \<or> st_state st = ex_installed"
  shows "\<exists>s'. load_scope_map ex_env ex_config st ex_fs = (Inr (ex_map, st\<lparr>st_state := ex_installed\<rparr>), s')"
proof -
  let ?c = "clear_active_bundles (transaction st)"
  have c: "ps_active_bundles (st_state ?c) = []" "st_state ?c = empty_state \<or> st_state ?c = ex_marks" "st_staged ?c" "st_path ?c = ex_state_path"
    using assms by (auto simp: clear_active_bundles_def transaction_def ex_installed_eq reference_snapshot_def empty_state_def ex_marks_def)
  let ?n = "?c\<lparr>st_state := ex_marks\<rparr>"
  have acc: "accept_bundle ex_env ex_config ex_bundle_path ?c ex_fs = (Inr (ex_bundle, ?n), ex_fs)"
    using ex_load_and_verify ex_check [OF c(1,2)] advance_from_bundle_staged [OF c(3), of ex_env ex_bundle]
    by (simp add: accept_bundle_def bindIO_def readIO_def liftIO_def returnIO_def)
  let ?ld = "\<lparr>ld_bundles = [ex_bundle], ld_entries = [(([2], [3]), [ex_entry])],
     ld_loaded_paths = [(ex_bundle_path, 0)], ld_store = ?n\<rparr>"
  have ld: "load_ca ex_env ex_config (ex_ca, ex_bundle_path)
      \<lparr>ld_bundles = [], ld_entries = [], ld_loaded_paths = [], ld_store = ?c\<rparr> ex_fs = (Inr ?ld, ex_fs)"
    using acc
    by (simp add: load_ca_def bindIO_def returnIO_def canonical_or_self_def Let_def register_bundle_scopes_def
        push_scope_def ex_entry_def) (simp add: example_scope_def)
  let ?cand = "?n\<lparr>st_state := ex_installed\<rparr>"
  obtain s1 where s1: "snapshot ex_env ''ca1'' ex_bundle ?n ex_fs = (Inr ?cand, s1)" "no_tmp s1"
    "grows (above (snapshot_path example_E ex_state_path ex_out)) ex_fs s1"
    using snapshot_succeeds [OF ex_no_faults ex_no_tmp _ to_bytes_ex_bundle, of ?n "''ca1''"] ex_writable(1) c(4)
    by (auto simp: ex_installed_eq)
  have entry: "se_ca_label ex_entry = ''ca1''" "se_bundle_idx ex_entry = 0"
    by (simp_all add: ex_entry_def ca_entry_def ex_ca_def)
  have cas: "cf_ca ex_config = [ex_ca]" by (simp add: ex_config_def)
  have cand: "load_scope_map_candidate ex_env ex_config ?c ex_fs = (Inr (ex_map, ?cand), s1)"
    using ld s1(1)
    by (simp add: load_scope_map_candidate_def bindIO_def readIO_def ex_paths cas returnIO_def
        snapshot_entry_def entry ex_map_def)
  have "writable s1 ex_state_path" by (rule writable_grows [OF ex_writable(2) s1(3) ex_apart(3)])
  then obtain s2 where "commit ex_env ?cand st s1 = (Inr (st\<lparr>st_state := ex_installed\<rparr>), s2)"
    using commit_succeeds [OF ex_no_faults s1(2), of ?cand "[2]" st] c(4) ex_installed_not_empty by auto
  then show ?thesis using cand by (simp add: load_scope_map_def bindIO_def returnIO_def)
qed

definition ex_responder :: ResponderState where
  "ex_responder = \<lparr>rs_scope_map = ex_map, rs_config = ex_config, rs_state_store = ex_store\<lparr>st_state := ex_installed\<rparr>,
     rs_lock_poisoned = False, rs_writer_guard = ex_guard\<rparr>"

lemma ex_load_responder: "\<exists>s'. load ex_env ex_config ex_guard ex_fs = (Inr ex_responder, s')"
proof -
  obtain s' where "load_scope_map ex_env ex_config ex_store ex_fs = (Inr (ex_map, ex_store\<lparr>st_state := ex_installed\<rparr>), s')"
    using ex_load [of ex_store] by (auto simp: ex_store_def)
  then have "load_or_recover ex_env ex_config ex_store ex_fs = (Inr (ex_map, ex_store\<lparr>st_state := ex_installed\<rparr>), s')"
    by (simp add: load_or_recover_def)
  moreover have "so_state_db (cf_storage ex_config) = sl_state_dir ex_guard"
    by (simp add: ex_config_def ex_storage_def ex_guard_def)
  ultimately show ?thesis
    using ex_open by (simp add: load_def bindIO_def liftIO_def readIO_def returnIO_def ex_responder_def)
qed

lemma ex_reload: "\<exists>s'. reload ex_env ex_responder ex_fs = (Inr (), ex_responder, s')"
  using ex_load [of "rs_state_store ex_responder"] by (auto simp: reload_def ex_responder_def ex_store_def)

definition ex_request_externals :: request_externals where
  "ex_request_externals =
     \<lparr>ocsp_request_from_der = (\<lambda>_. Inr \<lparr>oq_request_list = [\<lparr>ci_to_der = Inr [1, 2], ci_issuer_name_hash = [2],
          ci_issuer_key_hash = [3], ci_serial_number = [4], ci_hash_algorithm = ''2.16.840.1.101.3.4.2.1''\<rparr>],
        oq_extensions = None\<rparr>),
      octet_string_from_der = (\<lambda>_. Inl ''der''), preferred_from_der = (\<lambda>_. Inl ''der''),
      percent_decode_utf8 = Inr, base64_decode = (\<lambda>_. Inr [48])\<rparr>"

end
