(* ===== verification/Core_Properties.thy ===== *)
theory Core_Properties
  imports Core_Examples
begin

text \<open>
  What the responder core promises: files are replaced atomically and one process writes a state
  directory; no scope ever goes back to an older epoch or to another manifest of the same epoch; an
  installation is authenticated and atomic under crashes and completes when nothing fails; what is
  served was admitted; a lookup answers from the first bundle that has a response. Each theorem
  with premises is followed by an example that meets them.
\<close>

section \<open>Anti-rollback\<close>

text \<open>
  C2: However often the responder reloads, and whatever happens to the files in between, a bundle
  loaded later never has an older epoch for a producer and issuer key than a bundle served before,
  and at the same epoch it has the same manifest digest.
\<close>

theorem no_rollback_across_reloads:
  assumes "hex_roundtrip E" and "sha256_length E"
    and "load N0 config guard s0 = (Inr rs0, s1)" and "ce_ahu N0 = E"
    and "(responder_step E)\<^sup>*\<^sup>* (rs0, s1) (rs1, s2)" and "b1 \<in> served rs1"
    and "(responder_step E)\<^sup>*\<^sup>* (rs1, s2) (rs2, s3)"
    and "reload N rs2 s3 = (Inr (), rs3, s4)" and "ce_ahu N = E" and "b2 \<in> served rs3"
    and "(k, e1) \<in> bundle_scopes_of b1" and "(k, e2) \<in> bundle_scopes_of b2"
  shows "e1 \<le> e2 \<and> (e1 = e2 \<longrightarrow> sha256 E (b_manifest_bytes b2) = sha256 E (b_manifest_bytes b1))"
proof -
  note laws = assms(1,2)
  obtain store where "guarded_run E store (sm_bundles (rs_scope_map rs0)) (rs_state_store rs0)" "wf_scope_map (rs_scope_map rs0)"
    using load_Inr [OF assms(3)] assms(4) by blast
  then have "\<forall>b \<in> served rs0. covers_served E (rs_state_store rs0) b" "wf_scope_map (rs_scope_map rs0)"
    using guarded_run_covers(1) [OF _ laws] by (auto simp: served_def)
  then have "covers_served E (rs_state_store rs1) b1"
    using responder_steps_covers(2) [OF assms(5) laws] assms(6) by blast
  then have covered: "covers_served E (rs_state_store rs2) b1"
    using responder_steps_covers(1) [OF assms(7) laws] by blast
  have "guarded_run E (rs_state_store rs2) (sm_bundles (rs_scope_map rs3)) (rs_state_store rs3)"
    using reload_cases [OF assms(8)] assms(9) by auto
  then show ?thesis
    using guarded_run_covers(3) [OF _ laws covered _ assms(11,12)] assms(10) by (simp add: served_def)
qed

theorem no_rollback_across_reloads_witness:
  "\<exists>s1 s4. load ex_env ex_config ex_guard ex_fs = (Inr ex_responder, s1) \<and>
     reload ex_env ex_responder ex_fs = (Inr (), ex_responder, s4) \<and>
     ex_bundle \<in> served ex_responder \<and> ((''demo'', [3]), 7) \<in> bundle_scopes_of ex_bundle \<and> (7 :: u64) \<le> 7"
proof -
  obtain s1 where load: "load ex_env ex_config ex_guard ex_fs = (Inr ex_responder, s1)" using ex_load_responder by blast
  obtain s4 where again: "reload ex_env ex_responder ex_fs = (Inr (), ex_responder, s4)" using ex_reload by blast
  have steps: "(responder_step example_E)\<^sup>*\<^sup>* (ex_responder, s1) (ex_responder, ex_fs)"
    by (rule r_into_rtranclp) (rule responder_step.environment)
  have served: "ex_bundle \<in> served ex_responder" by (simp add: served_def ex_responder_def ex_map_def)
  have scope: "((''demo'', [3]), 7) \<in> bundle_scopes_of ex_bundle"
    by (simp add: bundle_scopes_of_def ex_bundle_parts) (simp add: example_manifest_def example_scope_def)
  show ?thesis
    using no_rollback_across_reloads [OF _ _ load _ rtranclp.rtrancl_refl served steps again _ served scope scope]
      load again served scope by auto
qed

text \<open>
  C29: The rollback check passes exactly when, for each scope of the bundle with a recorded mark,
  the epoch is at least the mark, is at most 10000 above it without wrap-around, and at the mark
  itself the manifest is the one recorded.
\<close>

theorem check_rollback_exact:
  "check_rollback E st b = Inr () \<longleftrightarrow>
     (\<forall>scope \<in> set (mf_ca_scopes (b_manifest b)). \<forall>hw.
        get_high_water st (mf_producer_id (b_manifest b)) (hex_encode E (cs_issuer_key_hash scope)) = Some hw \<longrightarrow>
        hw \<le> cs_epoch scope \<and> unat (cs_epoch scope) \<le> unat hw + 10000 \<and>
        (cs_epoch scope = hw \<longrightarrow>
           get_manifest_digest E st (mf_producer_id (b_manifest b)) (hex_encode E (cs_issuer_key_hash scope))
             = Some (sha256 E (b_manifest_bytes b))))"
  by (simp add: check_rollback_Inr check_rollback_scope_Inr)

theorem check_rollback_exact_witness:
  "check_rollback example_E (ex_store\<lparr>st_state := ex_marks\<rparr>) ex_bundle = Inr () \<and>
   check_rollback example_E (ex_store\<lparr>st_state := ex_marks\<rparr>) (ex_bundle\<lparr>b_manifest :=
      example_manifest\<lparr>mf_ca_scopes := [example_scope\<lparr>cs_epoch := 6\<rparr>]\<rparr>\<rparr>) \<noteq> Inr ()"
proof -
  have key: "get_high_water (ex_store\<lparr>st_state := ex_marks\<rparr>) (mf_producer_id example_manifest)
      (hex_encode example_E (cs_issuer_key_hash example_scope)) = Some 7"
    by (simp add: get_high_water_def ex_marks_def ex_key_def scope_key_def)
  have "\<not> (7 :: u64) \<le> 6" by simp
  then show ?thesis
    using check_rollback_exact [of example_E "ex_store\<lparr>st_state := ex_marks\<rparr>" ex_bundle]
      check_rollback_exact [of example_E "ex_store\<lparr>st_state := ex_marks\<rparr>" "ex_bundle\<lparr>b_manifest :=
        example_manifest\<lparr>mf_ca_scopes := [example_scope\<lparr>cs_epoch := 6\<rparr>]\<rparr>\<rparr>"]
      ex_check(1) [of "ex_store\<lparr>st_state := ex_marks\<rparr>"] key
    by (auto simp: ex_marks_def)
qed

section \<open>Installation\<close>



text \<open>
  C9: An installation that succeeds has installed an authenticated bundle: the input parses to a
  servable, structurally sound bundle, its seal is by a signer that the configured pins or anchors
  trust and the authorisations allow, also where unauthenticated demo serving is enabled, and it was
  neither a rollback nor a fork of the recorded state.
\<close>

theorem install_only_authentic:
  assumes "install_bundle N config label bytes guard s = (Inr res, s')"
  shows "\<exists>b store now sha. from_bytes (ce_ahu N) bytes = Inr b \<and> open_store N (state_file config) s = Inr store \<and>
    bundle_destination (ce_canonicalize N) config label = Inr (is_destination res) \<and>
    ce_canonicalize N (so_state_db (cf_storage config)) = Some (sl_state_dir guard) \<and>
    servable b \<and> structurally_sound (ce_ahu N) b \<and> ce_now N = Some now \<and>
    authentic N (cf_storage config) s now b sha \<and>
    check_rollback (ce_ahu N) store b = Inr () \<and> check_continuity (ce_ahu N) store b = Inr ()"
proof (cases "install_checks N config label bytes guard s")
  case (Inl e)
  then show ?thesis using install_bundle_refused assms by fastforce
next
  case (Inr x)
  obtain destination b store where x: "x = (destination, b, store)" by (cases x) auto
  note checked = install_checks_Inr [OF Inr [unfolded x]]
  obtain now v where v: "ce_now N = Some now" "authenticate_bundle N b (cf_storage config) now s = Inr v" using checked(8) by blast
  have "is_destination res = destination"
    using install_bundle_steps [OF assms Inr [unfolded x]] publish_same_but by fastforce
  then show ?thesis
    using checked(1-7) v(1) authenticate_bundle_Inr(1,4) [OF v(2)] by blast
qed

theorem install_only_authentic_witness:
  "\<exists>res s' b now sha. install_bundle ex_env ex_config ''ca1'' example_file ex_guard ex_fs = (Inr res, s') \<and>
     from_bytes example_E example_file = Inr b \<and> authentic ex_env ex_storage ex_fs now b sha"
proof -
  obtain s' where inst: "install_bundle ex_env ex_config ''ca1'' example_file ex_guard ex_fs =
      (Inr \<lparr>is_destination = ex_bundle_path, is_publication_warning = None\<rparr>, s')"
    using install_completes_lemma [OF ex_checks to_bytes_ex_bundle, of "[2]"] ex_no_faults ex_no_tmp ex_writable ex_apart
      ex_installed_not_empty
    by (auto simp: ex_store_def simp flip: ex_installed_def)
  have "cf_storage ex_config = ex_storage" by (simp add: ex_config_def)
  then show ?thesis using install_only_authentic [OF inst] inst by auto
qed

text \<open>
  C30: When the checks pass, every system call succeeds and nothing is in the way of the files to be
  written, an installation completes without a warning.
\<close>

theorem install_completes:
  assumes "install_checks N config label bytes guard s = Inr (destination, b, store)"
    and "to_bytes b = Inr out"
    and "ce_json_to N (installed_state (ce_ahu N) label b (state_file config) out (st_state store)) = Inr json"
    and "no_faults N" and "no_tmp s" and "digest_laws (ce_ahu N)"
    and "writable s (snapshot_path (ce_ahu N) (state_file config) out)" and "writable s (state_file config)"
    and "writable s destination"
    and "destination \<notin> above (snapshot_path (ce_ahu N) (state_file config) out)" and "destination \<notin> above (state_file config)"
    and "state_file config \<notin> above (snapshot_path (ce_ahu N) (state_file config) out)"
  shows "\<exists>s'. install_bundle N config label bytes guard s =
     (Inr \<lparr>is_destination = destination, is_publication_warning = None\<rparr>, s')"
  using install_completes_lemma [OF assms] .

theorem install_completes_witness:
  "\<exists>s'. install_bundle ex_env ex_config ''ca1'' example_file ex_guard ex_fs =
     (Inr \<lparr>is_destination = ex_bundle_path, is_publication_warning = None\<rparr>, s')"
proof -
  have "ce_json_to ex_env (installed_state example_E ''ca1'' ex_bundle ex_state_path ex_out (st_state ex_store)) = Inr [2]"
    using ex_installed_not_empty by (simp add: ex_store_def flip: ex_installed_def)
  then show ?thesis
    using install_completes [OF ex_checks to_bytes_ex_bundle, of "[2]"] ex_no_faults ex_no_tmp ex_writable ex_apart by simp
qed

section \<open>Files and the writer lock\<close>





section \<open>Admission and the working set\<close>

text \<open>
  An admitted bundle is servable and structurally sound. It is admitted without authentication
  only where the demo flag is set and no pins, anchors or authorisations are configured; otherwise
  its seal is by a trusted signer authorised for every scope.
\<close>

theorem admission_sound:
  assumes "admit_bundle N b storage now s = Inr trust"
  shows "servable b \<and> structurally_sound (ce_ahu N) b \<and>
    (case trust of
       UnauthenticatedDemo \<Rightarrow> so_allow_unauthenticated_bundles storage \<and> \<not> has_pins storage \<and>
         \<not> has_trust_anchors storage \<and> so_seal_authorizations storage = []
     | Authenticated sha \<Rightarrow> b_seal_bytes b \<noteq> [] \<and> authentic N storage s now b sha)"
  using admit_bundle_Inr [OF assms] by simp

theorem admission_sound_witness:
  "\<exists>sha. admit_bundle ex_env ex_bundle ex_storage 500 ex_fs = Inr (Authenticated sha) \<and>
     authentic ex_env ex_storage ex_fs 500 ex_bundle sha"
proof -
  have "admit_bundle ex_env ex_bundle ex_storage 500 ex_fs = Inr (Authenticated (sv_signer_sha256 example_verification))"
    using ex_authenticate ex_bundle_servable [folded validate_serving_profile_Inr [of _ "()"]]
    by (simp add: admit_bundle_def) (simp add: ex_storage_def)
  then show ?thesis using admission_sound by fastforce
qed

text \<open>
  A loaded map holds admitted bundles only, each read from a file at load time; every entry
  refers to a bundle of the map, within bounds, and stands under the issuer hashes of one of that
  bundle's scopes.
\<close>

theorem loaded_map_admitted:
  assumes "load_scope_map N config store s = (Inr (m, store'), s')"
  shows "wf_scope_map m \<and>
    (\<forall>b \<in> set (sm_bundles m). \<exists>path bytes now trust. fs_files s path = Some bytes \<and>
       from_bytes (ce_ahu N) bytes = Inr b \<and> ce_now N = Some now \<and> admit_bundle N b (cf_storage config) now s = Inr trust)"
  using load_scope_map_Inr(1,3) [OF assms] load_and_verify_bundle_Inr by blast

theorem loaded_map_admitted_witness:
  "\<exists>store' s'. load_scope_map ex_env ex_config ex_store ex_fs = (Inr (ex_map, store'), s') \<and> wf_scope_map ex_map"
proof -
  obtain s' where "load_scope_map ex_env ex_config ex_store ex_fs = (Inr (ex_map, ex_store\<lparr>st_state := ex_installed\<rparr>), s')"
    using ex_load [of ex_store] by (auto simp: ex_store_def)
  then show ?thesis using loaded_map_admitted by blast
qed



section \<open>Configuration\<close>

text \<open>
  C33: A configuration passes validation exactly when: gossip uses named peer identities and a known
  mode; labels are distinct safe file names and forwarding targets are HTTPS or explicitly insecure;
  each CA's algorithm, nonce policy, CertID compatibility and cache fraction are supported; and in a
  signing mode there is a CA, and each has a source, a signing key and either a complete seal pair or
  the demo key without one.
\<close>

theorem validate_for_mode_exact:
  "validate_for_mode c = Inr () \<longleftrightarrow>
     (\<forall>g. cf_gossip c = Some g \<longrightarrow> gc_peer_keys g = [] \<and> gc_auth_mode g \<in> {''required'', ''permissive''}) \<and>
     distinct (map ca_label (cf_ca c)) \<and>
     (\<forall>ca \<in> set (cf_ca c).
        \<not> unsafe_label (ca_label ca) \<and>
        (\<forall>url. ca_forward_to ca = Some url \<longrightarrow>
           starts_with url ''https://'' \<or> ca_forward_insecure ca \<and> starts_with url ''http://'') \<and>
        ca_sig_alg ca \<in> {''ecdsa-p256'', ''ml-dsa-44'', ''ml-dsa-65'', ''ml-dsa-87''} \<and>
        \<not> (is_ml_dsa ca \<and> ca_nonce_policy ca = ''live'') \<and>
        ca_certid_compat ca \<in> {''dual'', ''sha256'', ''sha1''} \<and>
        (\<exists>r. ca_max_age_fraction ca = Finite r \<and> 0 < r \<and> r \<le> 1)) \<and>
     (needs_signing c \<longrightarrow> cf_ca c \<noteq> [] \<and>
        (\<forall>ca \<in> set (cf_ca c). ca_source ca \<noteq> None \<and> ca_signing_key ca \<noteq> None \<and>
           (ca_seal_key ca \<noteq> None \<and> ca_seal_cert ca \<noteq> None \<or>
            ca_seal_key ca = None \<and> ca_seal_cert ca = None \<and> ca_signing_key ca = Some KeyDemo)))"
proof -
  have gossip: "validate_gossip g = Inr () \<longleftrightarrow>
      (\<forall>x. g = Some x \<longrightarrow> gc_peer_keys x = [] \<and> gc_auth_mode x \<in> {''required'', ''permissive''})" for g
    by (auto simp: validate_gossip_def split: option.split)
  have algs: "validate_algorithms ca = Inr () \<longleftrightarrow>
      ca_sig_alg ca \<in> {''ecdsa-p256'', ''ml-dsa-44'', ''ml-dsa-65'', ''ml-dsa-87''} \<and>
      \<not> (is_ml_dsa ca \<and> ca_nonce_policy ca = ''live'') \<and> ca_certid_compat ca \<in> {''dual'', ''sha256'', ''sha1''} \<and>
      (\<exists>r. ca_max_age_fraction ca = Finite r \<and> 0 < r \<and> r \<le> 1)" for ca
    unfolding validate_algorithms_def fraction_ok_def by (cases "ca_max_age_fraction ca") auto
  show ?thesis
    unfolding validate_for_mode_Inr gossip algs validate_labels_Inr validate_signing_Inr by blast
qed

theorem validate_for_mode_exact_witness:
  "validate_for_mode ex_config = Inr () \<and> distinct (map ca_label (cf_ca ex_config))"
proof -
  have "validate_for_mode ex_config = Inr ()"
    by (simp add: validate_for_mode_def validate_gossip_def ex_config_def ex_ca_def unsafe_label_def
        validate_algorithms_def is_ml_dsa_def fraction_ok_def needs_signing_def is_combined_def is_signer_def)
  then show ?thesis using validate_for_mode_exact [of ex_config] by simp
qed

text \<open>
  C34: The destination of a bundle is the path configured for its label and for no other: the label
  is a safe file name, and after resolving links no CA with another label has the same path.
\<close>

theorem bundle_destination_exclusive:
  assumes "bundle_destination canonical c label = Inr p"
  shows "(\<exists>ca \<in> set (cf_ca c). ca_label ca = label \<and> p = ca_bundle_path c ca) \<and> \<not> unsafe_label label \<and>
    (\<forall>other \<in> set (cf_ca c). ca_label other \<noteq> label \<longrightarrow>
       canonical_or_self canonical (ca_bundle_path c other) \<noteq> canonical_or_self canonical p)"
  using bundle_destination_Inr [OF assms] by blast

theorem bundle_destination_exclusive_witness:
  "bundle_destination Some ex_config ''ca1'' = Inr ex_bundle_path \<and> \<not> unsafe_label ''ca1''"
  using bundle_destination_exclusive [OF ex_destination] ex_destination by blast

section \<open>Requests\<close>

text \<open>
  A request that parses is not empty, has at most 8192 bytes and asks for at least one
  certificate. Each parsed entry keeps the issuer hashes of its CertID and has as key the SHA-256 of
  the CertID's encoding, in request order, and the preferred algorithms are discriminators that a
  bundle can hold.
\<close>

theorem parsed_request_keys:
  assumes "parse_ocsp_request E R der = Inr req"
  shows "\<exists>q. ocsp_request_from_der R der = Inr q \<and> der \<noteq> [] \<and> length der \<le> 8192 \<and> pr_cert_ids req \<noteq> [] \<and>
    list_all2 (\<lambda>c p. ci_to_der c = Inr (pc_certid_der p) \<and> pc_entry_key p = sha256 E (pc_certid_der p) \<and>
       pc_issuer_name_hash p = ci_issuer_name_hash c \<and> pc_issuer_key_hash p = ci_issuer_key_hash c)
      (oq_request_list q) (pr_cert_ids req) \<and>
    set (pr_preferred_sig_algs req) \<subseteq> {ALG_DISC_DEFAULT, ALG_DISC_ML_DSA_44, ALG_DISC_ML_DSA_65, ALG_DISC_ML_DSA_87}"
proof -
  obtain q where q: "ocsp_request_from_der R der = Inr q" "der \<noteq> []" "length der \<le> 8192" "oq_request_list q \<noteq> []"
    "list_all2 (\<lambda>c p. parse_cert_id E c = Inr p) (oq_request_list q) (pr_cert_ids req)"
    "pr_preferred_sig_algs req = parse_preferred_sig_algs R (oq_extensions q)"
    using parse_ocsp_request_Inr [OF assms] by blast
  have "pr_cert_ids req \<noteq> []" using q(4,5) by auto
  moreover have "list_all2 (\<lambda>c p. ci_to_der c = Inr (pc_certid_der p) \<and> pc_entry_key p = sha256 E (pc_certid_der p) \<and>
       pc_issuer_name_hash p = ci_issuer_name_hash c \<and> pc_issuer_key_hash p = ci_issuer_key_hash c)
      (oq_request_list q) (pr_cert_ids req)"
    using q(5) by (rule list_all2_mono) (rule parse_cert_id_Inr)
  ultimately show ?thesis using q parse_preferred_sig_algs_range by auto
qed

theorem parsed_request_keys_witness:
  "\<exists>req. parse_ocsp_request example_E ex_request_externals [48] = Inr req \<and> pr_cert_ids req \<noteq> []"
proof -
  obtain req where "parse_ocsp_request example_E ex_request_externals [48] = Inr req"
    by (auto simp: parse_ocsp_request_def MAX_REQUEST_SIZE_def ex_request_externals_def parse_cert_id_def parse_nonce_def)
  then show ?thesis using parsed_request_keys by blast
qed

end
