(* ===== verification/Sign_Calendar.thy ===== *)
theory Sign_Calendar
  imports Hoike_Prelude
begin

text \<open>
  Calendar arithmetic (\<^verbatim>\<open>crates/hoike-sign/src/generate.rs\<close>): the conversion of seconds since 1970 to a
  date by the era method, and of a date to seconds by counting years and months. The two are
  inverse. All values stay far below the width of \<^verbatim>\<open>u64\<close> (days are at most a 86400th of it), so the
  arithmetic is on natural numbers; the casts to \<^verbatim>\<open>u16\<close> and \<^verbatim>\<open>u8\<close> are written out.
\<close>

section \<open>Operations\<close>

definition days_to_ymd :: "nat \<Rightarrow> nat \<times> nat \<times> nat" where
  "days_to_ymd days =
     (let z = days + 719468;
          era = z div 146097;
          doe = z - era * 146097;
          yoe = (doe - doe div 1460 + doe div 36524 - doe div 146096) div 365;
          y = yoe + era * 400;
          doy = doe - (365 * yoe + yoe div 4 - yoe div 100);
          mp = (5 * doy + 2) div 153;
          d = doy - (153 * mp + 2) div 5 + 1;
          m = (if mp < 10 then mp + 3 else mp - 9);
          y' = (if m \<le> 2 then y + 1 else y) in
      (y', m, d))"

text \<open>The date of \<^verbatim>\<open>der::DateTime\<close>, by its accessors.\<close>

record DateTime =
  dt_year :: nat
  dt_month :: nat
  dt_day :: nat
  dt_hour :: nat
  dt_minutes :: nat
  dt_seconds :: nat

definition leap :: "nat \<Rightarrow> bool" where
  "leap y \<longleftrightarrow> y mod 4 = 0 \<and> (y mod 100 \<noteq> 0 \<or> y mod 400 = 0)"

definition mdays :: "nat list" where
  "mdays = [0, 31, 28, 31, 30, 31, 30, 31, 31, 30, 31, 30, 31]"

definition year_days :: "nat \<Rightarrow> nat" where
  "year_days y = (if leap y then 366 else 365)"

definition month_days :: "nat \<Rightarrow> nat \<Rightarrow> nat" where
  "month_days y m = mdays ! m + (if m = 2 \<and> leap y then 1 else 0)"

definition days_before_year :: "nat \<Rightarrow> nat" where
  "days_before_year year = fold (\<lambda>y days. days + year_days y) [1970..<year] 0"

definition days_before_month :: "nat \<Rightarrow> nat \<Rightarrow> nat" where
  "days_before_month year month = fold (\<lambda>m days. days + month_days year m) [1..<month] 0"

definition datetime_to_epoch :: "DateTime \<Rightarrow> nat" where
  "datetime_to_epoch dt =
     (let days = days_before_year (dt_year dt) + days_before_month (dt_year dt) (dt_month dt) + (dt_day dt - 1) in
      days * 86400 + dt_hour dt * 3600 + dt_minutes dt * 60 + dt_seconds dt)"

type_synonym datetime_new = "nat \<Rightarrow> nat \<Rightarrow> nat \<Rightarrow> nat \<Rightarrow> nat \<Rightarrow> nat \<Rightarrow> string + DateTime"

text \<open>\<^verbatim>\<open>der::DateTime::new\<close> is the parameter \<open>new\<close>.\<close>

definition epoch_to_datetime :: "datetime_new \<Rightarrow> u64 \<Rightarrow> string + DateTime" where
  "epoch_to_datetime new secs =
     (let days = unat secs div 86400;
          time_of_day = unat secs mod 86400;
          hours = time_of_day div 3600;
          minutes = (time_of_day mod 3600) div 60;
          seconds = time_of_day mod 60;
          (year, month, day) = days_to_ymd days in
      new (year mod 2 ^ 16) (month mod 2 ^ 8) (day mod 2 ^ 8) hours minutes seconds)"

text \<open>Documented: a date of the years 1970 to 9999 that the calendar has is accepted as it is.\<close>

definition datetime_new_law :: "datetime_new \<Rightarrow> bool" where
  "datetime_new_law new \<longleftrightarrow>
     (\<forall>y m d h mi s. 1970 \<le> y \<and> y \<le> 9999 \<and> 1 \<le> m \<and> m \<le> 12 \<and> 1 \<le> d \<and> d \<le> month_days y m \<and>
        h < 24 \<and> mi < 60 \<and> s < 60 \<longrightarrow>
        new y m d h mi s = Inr \<lparr>dt_year = y, dt_month = m, dt_day = d, dt_hour = h, dt_minutes = mi, dt_seconds = s\<rparr>)"

section \<open>Years that begin in March\<close>

text \<open>The days before the first of March of a year, counted from the year 0.\<close>

definition march_days :: "nat \<Rightarrow> nat" where
  "march_days y = 365 * y + y div 4 - y div 100 + y div 400"

lemma march_step:
  fixes y a b c :: nat
  assumes "b \<le> y" "r \<longrightarrow> q" "q \<longrightarrow> p"
  shows "365 * Suc y + (a + of_bool p) - (b + of_bool q) + (c + of_bool r)
    = 365 * y + a - b + c + (if p \<and> (\<not> q \<or> r) then 366 else 365)"
  using assms by (cases p; cases q; cases r) simp_all

lemma div_Suc_of_bool: "Suc y div n = y div n + of_bool (n dvd Suc y)"
  by (simp add: div_Suc mod_eq_0_iff_dvd)

lemma march_days_Suc: "march_days (Suc y) = march_days y + year_days (Suc y)"
proof -
  have "400 dvd Suc y \<longrightarrow> 100 dvd Suc y" "100 dvd Suc y \<longrightarrow> 4 dvd Suc y"
    using dvd_trans [of 100 400 "Suc y"] dvd_trans [of 4 100 "Suc y"] by simp_all
  from march_step [OF div_le_dividend this] show ?thesis
    unfolding march_days_def year_days_def leap_def mod_eq_0_iff_dvd div_Suc_of_bool .
qed

lemma march_days_mono: "a \<le> b \<Longrightarrow> march_days a \<le> march_days b"
  by (induction b) (auto simp: march_days_Suc le_Suc_eq)

lemma march_eras:
  fixes y a b c e :: nat
  assumes "b \<le> y"
  shows "365 * (y + e * 400) + (a + e * 100) - (b + e * 4) + (c + e) = 365 * y + a - b + c + e * 146097"
  using assms by simp

lemma march_days_era: "march_days (y + era * 400) = march_days y + era * 146097"
proof -
  have "(y + era * 400) div 4 = y div 4 + era * 100" using div_mult_self1 [of 4 y "era * 100"] by (simp add: ac_simps)
  moreover have "(y + era * 400) div 100 = y div 100 + era * 4" using div_mult_self1 [of 100 y "era * 4"] by (simp add: ac_simps)
  moreover have "(y + era * 400) div 400 = y div 400 + era" by simp
  ultimately show ?thesis
    unfolding march_days_def using march_eras [OF div_le_dividend] by (simp only:)
qed

lemma march_year_below: "doe < march_days n \<Longrightarrow> \<exists>y < n. march_days y \<le> doe \<and> doe < march_days (Suc y)"
proof (induction n)
  case (Suc n)
  then show ?case by (cases "doe < march_days n") (auto simp: less_Suc_eq)
qed (simp add: march_days_def)

text \<open>The quotient by which the era method finds the year, and that it is monotone.\<close>

definition year_quotient :: "nat \<Rightarrow> nat" where
  "year_quotient doe = doe - doe div 1460 + doe div 36524 - doe div 146096"

lemma quotient_step:
  fixes n a b c :: nat
  assumes "a \<le> n" "c \<le> b" "r \<longrightarrow> q"
  shows "n - a + b - c \<le> Suc n - (a + of_bool p) + (b + of_bool q) - (c + of_bool r)"
  using assms by (cases p; cases q; cases r) simp_all

lemma year_quotient_Suc: "year_quotient n \<le> year_quotient (Suc n)"
proof -
  have "146096 dvd Suc n \<longrightarrow> 36524 dvd Suc n" using dvd_trans [of 36524 146096 "Suc n"] by simp
  moreover have "n div 146096 \<le> n div 36524" by (rule div_le_mono2) simp_all
  ultimately show ?thesis
    unfolding year_quotient_def div_Suc_of_bool by (intro quotient_step div_le_dividend)
qed

lemma year_quotient_mono: "a \<le> b \<Longrightarrow> year_quotient a \<le> year_quotient b"
  by (induction b) (auto simp: le_Suc_eq intro: order_trans year_quotient_Suc)

lemma div_bounds: "n * (m div n) \<le> m" "0 < n \<Longrightarrow> m < n * (m div n) + n" for m n :: nat
  using dividend_less_times_div [of n m] by (simp_all add: ac_simps)

lemma quarters:
  fixes y q c :: nat
  assumes "100 * c \<le> y" "y < 100 * c + 100" "4 * q \<le> y" "y < 4 * q + 4"
  shows "25 * c \<le> q \<and> q \<le> 25 * c + 24"
  using assms by linarith

lemma quarter_century: "25 * (y div 100) \<le> y div 4" "y div 4 \<le> 25 * (y div 100) + 24" for y :: nat
  using quarters [OF div_bounds(1) div_bounds(2) div_bounds(1) div_bounds(2)] by simp_all

lemma year_quotient_first_day:
  assumes "y < 400"
  shows "365 * y \<le> year_quotient (march_days y)"
proof -
  define q c n where "q = y div 4" and "c = y div 100" and "n = march_days y"
  have n: "n = 365 * y + q - c" using assms by (simp add: n_def march_days_def q_def c_def)
  have y: "y < 4 * q + 4" "100 * c \<le> y" "25 * c \<le> q" "q \<le> 25 * c + 24" "c < 4"
    using assms quarter_century [of y] div_bounds [where m = y] unfolding q_def c_def by (simp_all add: less_mult_imp_div_less)
  have "n < Suc q * 1460" using n y by simp
  then have "n div 1460 \<le> q" using less_mult_imp_div_less less_Suc_eq_le by blast
  moreover have "c \<le> n div 36524" using n y by (simp add: less_eq_div_iff_mult_less_eq)
  moreover have "n div 146096 = 0" using n y assms by simp
  ultimately show ?thesis unfolding year_quotient_def n_def [symmetric] using n y by linarith
qed

lemma year_quotient_last_day:
  assumes "0 < y" "y \<le> 400"
  shows "year_quotient (march_days y - 1) < 365 * y"
proof (cases "y = 400")
  case True
  then show ?thesis by (simp add: year_quotient_def march_days_def)
next
  case False
  define q c n where "q = y div 4" and "c = y div 100" and "n = march_days y - 1"
  have n: "n = 365 * y + q - c - 1" using assms False by (simp add: n_def march_days_def q_def c_def)
  have y: "4 * q \<le> y" "y < 100 * c + 100" "25 * c \<le> q" "q \<le> 25 * c + 24"
    using quarter_century [of y] div_bounds [where m = y] unfolding q_def c_def by simp_all
  have "q * 1460 \<le> n" using n y assms(1) by (cases "q = 0") simp_all
  then have "q \<le> n div 1460" by (simp add: less_eq_div_iff_mult_less_eq)
  moreover have "n < Suc c * 36524" using n y by simp
  then have "n div 36524 \<le> c" using less_mult_imp_div_less less_Suc_eq_le by blast
  moreover have "n div 1460 \<le> n" by (rule div_le_dividend)
  ultimately show ?thesis unfolding year_quotient_def n_def [symmetric] using n y assms(1) by linarith
qed

lemma era_year:
  assumes "doe < 146097"
  shows "\<exists>y < 400. year_quotient doe div 365 = y \<and> march_days y \<le> doe \<and> doe < march_days (Suc y)"
proof -
  have "march_days 400 = 146097" by (simp add: march_days_def)
  then obtain y where y: "y < 400" "march_days y \<le> doe" "doe < march_days (Suc y)"
    using march_year_below [of doe 400] assms by auto
  have "365 * y \<le> year_quotient doe"
    using year_quotient_first_day [OF y(1)] year_quotient_mono [OF y(2)] by linarith
  moreover have "year_quotient doe < 365 * (y + 1)"
    using year_quotient_last_day [of "y + 1"] year_quotient_mono [of doe "march_days (y + 1) - 1"] y(1,3) by fastforce
  ultimately have "year_quotient doe div 365 = y" by (intro div_nat_eqI) simp_all
  then show ?thesis using y by blast
qed

section \<open>Months of a year that begins in March\<close>

definition month_start :: "nat \<Rightarrow> nat" where
  "month_start mp = (153 * mp + 2) div 5"

lemma month_bounds:
  fixes doy :: nat
  defines "mp \<equiv> (5 * doy + 2) div 153"
  shows "month_start mp \<le> doy" and "doy < month_start (mp + 1)"
proof -
  have "153 * mp \<le> 5 * doy + 2" "5 * doy + 2 < 153 * (mp + 1)"
    unfolding mp_def by (rule times_div_less_eq_dividend) (use dividend_less_times_div [of 153 "5 * doy + 2"] in simp)
  then show "month_start mp \<le> doy" "doy < month_start (mp + 1)" unfolding month_start_def by linarith+
qed

section \<open>Counting from 1970\<close>

lemma fold_add: "fold (\<lambda>x n. n + f x) xs (a :: nat) = a + sum_list (map f xs)"
  by (induction xs arbitrary: a) simp_all

lemma days_before_year_Suc: "1970 \<le> y \<Longrightarrow> days_before_year (Suc y) = days_before_year y + year_days y"
  by (simp add: days_before_year_def)

lemma march_days_from_1970:
  assumes "1970 \<le> y"
  shows "march_days y + 306 = 719468 + days_before_year y + year_days y"
  using assms
proof (induction y rule: dec_induct)
  case base
  then show ?case by (simp add: march_days_def days_before_year_def year_days_def leap_def)
next
  case (step n)
  then show ?case by (simp add: march_days_Suc days_before_year_Suc)
qed

text \<open>The months from March on, and January and February of the next year.\<close>

lemma days_before_month_1: "days_before_month y 1 = 0" "days_before_month y (Suc 0) = 0"
  by (simp_all add: days_before_month_def)

lemma days_before_month_step:
  assumes "1 < m"
  shows "days_before_month y m = days_before_month y (m - 1) + month_days y (m - 1)"
proof -
  obtain k where "m = Suc k" "1 \<le> k" using assms by (cases m) auto
  then show ?thesis by (simp add: days_before_month_def)
qed

lemmas month_evaluation = days_before_month_step days_before_month_1 month_days_def mdays_def month_start_def year_days_def

lemma march_months: "mp < 10 \<longleftrightarrow> mp \<in> {0, 1, 2, 3, 4, 5, 6, 7, 8, 9}" for mp :: nat
  by (auto simp: numeral_eq_Suc less_Suc_eq)

lemma days_before_month_march:
  assumes "mp < 10"
  shows "days_before_month y (mp + 3) + 306 = month_start mp + year_days y"
  using assms unfolding march_months by (elim insertE emptyE; simp add: month_evaluation)

lemma days_before_month_january:
  assumes "mp = 10 \<or> mp = 11"
  shows "days_before_month y (mp - 9) + 306 = month_start mp"
  using assms by (elim disjE; simp add: month_evaluation)

lemma month_length:
  assumes "mp < 11"
  shows "month_start (mp + 1) - month_start mp \<le> month_days y (if mp < 10 then mp + 3 else mp - 9)"
proof -
  have "mp = 10 \<or> mp < 10" using assms by auto
  then show ?thesis unfolding march_months by (elim insertE emptyE disjE; simp add: month_evaluation)
qed

text \<open>The date found by the era method: its parts in terms of years that begin in March.\<close>

lemma days_to_ymd_parts:
  obtains y doy where "n + 719468 = march_days y + doy" "doy < year_days (Suc y)"
    "days_to_ymd n = (let mp = (5 * doy + 2) div 153; m = (if mp < 10 then mp + 3 else mp - 9) in
       (if m \<le> 2 then y + 1 else y, m, doy - month_start mp + 1))"
proof -
  define z where "z = n + 719468"
  define era doe where "era = z div 146097" and "doe = z mod 146097"
  have z: "z = era * 146097 + doe" by (simp add: era_def doe_def)
  have "doe < 146097" by (simp add: doe_def)
  then obtain yoe where yoe: "yoe < 400" "year_quotient doe div 365 = yoe" "march_days yoe \<le> doe" "doe < march_days (Suc yoe)"
    using era_year by blast
  have start: "365 * yoe + yoe div 4 - yoe div 100 = march_days yoe" using yoe(1) by (simp add: march_days_def)
  have doe: "z - era * 146097 = doe" using z by simp
  show thesis
  proof (rule that)
    show "n + 719468 = march_days (yoe + era * 400) + (doe - march_days yoe)"
      using z yoe(3) unfolding z_def [symmetric] march_days_era by simp
    have "march_days (Suc (yoe + era * 400)) = march_days (Suc yoe) + era * 146097"
      using march_days_era [of "Suc yoe" era] by simp
    then have "march_days yoe + year_days (Suc (yoe + era * 400)) = march_days (Suc yoe)"
      using march_days_era [of yoe era] by (simp add: march_days_Suc)
    then show "doe - march_days yoe < year_days (Suc (yoe + era * 400))" using yoe(3,4) by simp
    show "days_to_ymd n = (let mp = (5 * (doe - march_days yoe) + 2) div 153; m = (if mp < 10 then mp + 3 else mp - 9) in
       (if m \<le> 2 then yoe + era * 400 + 1 else yoe + era * 400, m, doe - march_days yoe - month_start mp + 1))"
      unfolding days_to_ymd_def z_def [symmetric] Let_def era_def [symmetric] doe year_quotient_def [symmetric] yoe(2)
        start month_start_def [symmetric] ..
  qed
qed

section \<open>The date is the calendar's\<close>

definition valid_date :: "nat \<Rightarrow> nat \<Rightarrow> nat \<Rightarrow> bool" where
  "valid_date y m d \<longleftrightarrow> 1970 \<le> y \<and> 1 \<le> m \<and> m \<le> 12 \<and> 1 \<le> d \<and> d \<le> month_days y m"

definition day_number :: "nat \<Rightarrow> nat \<Rightarrow> nat \<Rightarrow> nat" where
  "day_number y m d = days_before_year y + days_before_month y m + (d - 1)"

lemma march_days_1969: "march_days 1969 + 306 = 719468"
  by (simp add: march_days_def)

lemma year_days_bounds: "365 \<le> year_days y" "year_days y \<le> 366"
  by (simp_all add: year_days_def)

text \<open>Dates from March to December.\<close>

lemma late_date:
  assumes n: "n + 719468 = march_days y + doy" and mp: "mp = (5 * doy + 2) div 153" "mp < 10"
  shows "valid_date y (mp + 3) (doy - month_start mp + 1) \<and> day_number y (mp + 3) (doy - month_start mp + 1) = n"
proof -
  note bounds = month_bounds [of doy, folded mp(1)]
  have "doy < 306" using bounds(2) mp(2) unfolding march_months by (auto simp: month_start_def)
  have y: "1970 \<le> y"
  proof (rule ccontr)
    assume "\<not> 1970 \<le> y"
    then have "march_days y \<le> march_days 1969" by (intro march_days_mono) simp
    then show False using n \<open>doy < 306\<close> march_days_1969 by linarith
  qed
  have "month_start (mp + 1) - month_start mp \<le> month_days y (mp + 3)" using month_length [of mp y] mp(2) by simp
  then have "doy - month_start mp + 1 \<le> month_days y (mp + 3)" using bounds by linarith
  moreover have "day_number y (mp + 3) (doy - month_start mp + 1) = n"
    using n march_days_from_1970 [OF y] days_before_month_march [OF mp(2), of y] bounds(1) unfolding day_number_def by linarith
  ultimately show ?thesis using y mp(2) by (simp add: valid_date_def)
qed

text \<open>Dates in January and February, which end a year that begins in March.\<close>

lemma early_date:
  assumes n: "n + 719468 = march_days y + doy" and doy: "doy < year_days (Suc y)"
    and mp: "mp = (5 * doy + 2) div 153" "mp = 10 \<or> mp = 11"
  shows "valid_date (y + 1) (mp - 9) (doy - month_start mp + 1) \<and> day_number (y + 1) (mp - 9) (doy - month_start mp + 1) = n"
proof -
  note bounds = month_bounds [of doy, folded mp(1)]
  have y: "1970 \<le> Suc y"
  proof (rule ccontr)
    assume "\<not> 1970 \<le> Suc y"
    then have "march_days (Suc y) \<le> march_days 1969" by (intro march_days_mono) simp
    then show False using n doy march_days_1969 march_days_Suc [of y] by linarith
  qed
  have "doy - month_start mp + 1 \<le> month_days (y + 1) (mp - 9)"
    using mp(2)
  proof
    assume 10: "mp = 10"
    then show ?thesis using month_length [of mp "y + 1"] bounds by simp
  next
    assume "mp = 11"
    then show ?thesis using doy by (simp add: month_evaluation split: if_splits)
  qed
  moreover have "day_number (y + 1) (mp - 9) (doy - month_start mp + 1) = n"
    using n march_days_from_1970 [OF y] march_days_Suc [of y] days_before_month_january [OF mp(2), of "y + 1"] bounds(1)
    unfolding day_number_def by simp
  ultimately show ?thesis using y mp(2) by (auto simp: valid_date_def)
qed

lemma days_to_ymd_correct:
  assumes "days_to_ymd n = (y, m, d)"
  shows "valid_date y m d \<and> day_number y m d = n"
proof -
  obtain Y doy where parts: "n + 719468 = march_days Y + doy" "doy < year_days (Suc Y)"
    "days_to_ymd n = (let mp = (5 * doy + 2) div 153; m = (if mp < 10 then mp + 3 else mp - 9) in
       (if m \<le> 2 then Y + 1 else Y, m, doy - month_start mp + 1))"
    using days_to_ymd_parts by blast
  define mp where "mp = (5 * doy + 2) div 153"
  have "5 * doy + 2 < 12 * 153" using parts(2) year_days_bounds(2) [of "Suc Y"] by linarith
  then have "mp < 12" unfolding mp_def by (rule less_mult_imp_div_less)
  note found = parts(3) [unfolded Let_def, folded mp_def]
  from \<open>mp < 12\<close> consider "mp < 10" | "mp = 10 \<or> mp = 11" by linarith
  then show ?thesis
  proof cases
    case 1
    then have "y = Y" "m = mp + 3" "d = doy - month_start mp + 1"
      using found assms by simp_all
    then show ?thesis using late_date [OF parts(1) mp_def 1] by simp
  next
    case 2
    then have "y = Y + 1" "m = mp - 9" "d = doy - month_start mp + 1"
      using found assms by auto
    then show ?thesis using early_date [OF parts(1,2) mp_def 2] by simp
  qed
qed

section \<open>Seconds\<close>

lemma days_before_year_mono:
  assumes "1970 \<le> a" "a \<le> b"
  shows "days_before_year a \<le> days_before_year b"
  using assms(2)
proof (induction b rule: dec_induct)
  case (step k)
  then show ?case using days_before_year_Suc [of k] assms(1) by simp
qed simp

lemma year_9999:
  assumes "day_number y m d < 2932897"
  shows "y \<le> 9999"
proof (rule ccontr)
  assume "\<not> y \<le> 9999"
  then have "days_before_year 10000 \<le> days_before_year y" by (intro days_before_year_mono) simp_all
  moreover have "days_before_year 10000 = 2932897"
    using march_days_from_1970 [of 10000] by (simp add: march_days_def year_days_def leap_def)
  ultimately show False using assms by (simp add: day_number_def)
qed

lemma time_of_day: "t div 3600 * 3600 + t mod 3600 div 60 * 60 + t mod 60 = t" for t :: nat
proof -
  have "t mod 3600 div 60 * 60 + t mod 3600 mod 60 = t mod 3600" by (rule div_mult_mod_eq)
  moreover have "t mod 3600 mod 60 = t mod 60" by (rule mod_mod_cancel) simp
  ultimately show ?thesis using div_mult_mod_eq [of t 3600] by linarith
qed

lemma month_days_le: "1 \<le> m \<Longrightarrow> m \<le> 12 \<Longrightarrow> month_days y m \<le> 31"
proof -
  assume "1 \<le> m" "m \<le> 12"
  then have "m \<in> {1, 2, 3, 4, 5, 6, 7, 8, 9, 10, 11, 12}" by (auto simp: numeral_eq_Suc le_Suc_eq)
  then show ?thesis by (elim insertE emptyE; simp add: month_days_def mdays_def)
qed

lemma epoch_datetime_inverse:
  assumes "datetime_new_law new" and "unat secs < 253402300800"
  shows "\<exists>dt. epoch_to_datetime new secs = Inr dt \<and> datetime_to_epoch dt = unat secs \<and> dt_year dt \<le> 9999"
proof -
  obtain y m d where ymd: "days_to_ymd (unat secs div 86400) = (y, m, d)" by (metis prod_cases3)
  note date = days_to_ymd_correct [OF ymd]
  have "unat secs div 86400 < 2932897" using assms(2) by (intro less_mult_imp_div_less) simp
  then have y: "y \<le> 9999" using date year_9999 [of y m d] by metis
  define t where "t = unat secs mod 86400"
  have t: "t < 24 * 3600" "t mod 3600 < 60 * 60" by (simp_all add: t_def)
  have small: "m < 256" "d < 256" "y < 65536" using date y month_days_le [of m y] by (auto simp: valid_date_def)
  have "epoch_to_datetime new secs = new y m d (t div 3600) (t mod 3600 div 60) (t mod 60)"
    unfolding epoch_to_datetime_def Let_def ymd t_def [symmetric] using small by simp
  also have "\<dots> = Inr \<lparr>dt_year = y, dt_month = m, dt_day = d, dt_hour = t div 3600, dt_minutes = t mod 3600 div 60, dt_seconds = t mod 60\<rparr>"
    using assms(1) date y less_mult_imp_div_less [OF t(1)] less_mult_imp_div_less [OF t(2)]
    unfolding datetime_new_law_def valid_date_def by simp
  finally have "epoch_to_datetime new secs = Inr \<lparr>dt_year = y, dt_month = m, dt_day = d, dt_hour = t div 3600,
      dt_minutes = t mod 3600 div 60, dt_seconds = t mod 60\<rparr>" .
  moreover have "unat secs div 86400 * 86400 + t = unat secs" by (simp add: t_def)
  then have "datetime_to_epoch \<lparr>dt_year = y, dt_month = m, dt_day = d, dt_hour = t div 3600, dt_minutes = t mod 3600 div 60,
      dt_seconds = t mod 60\<rparr> = unat secs"
    using date time_of_day [of t] unfolding datetime_to_epoch_def day_number_def by (simp add: add.assoc)
  ultimately show ?thesis using y by simp
qed

end
