(* ===== verification/Sign_Source.thy ===== *)
theory Sign_Source
  imports Sign_Calendar Core_Request
begin

text \<open>
  What the signer crate shares: its errors (\<^verbatim>\<open>crates/hoike-sign/src/error.rs\<close>), revocation snapshots
  (\<^verbatim>\<open>source.rs\<close>), and the OCSP structures of the \<^verbatim>\<open>x509_ocsp\<close> crate as the code sees them. Encoding,
  decoding and signing them is third-party code: parameters, with the laws stated here.
\<close>

section \<open>Errors\<close>

datatype SignError =
    SignDer string
  | OcspBuilder string
  | Signing string
  | CrlParse string
  | SignBundle ahu_error
  | Pkcs11 string
  | KeyLoad string
  | SealError string
  | VerifyError string
  | NoCert
  | Ldap string
  | SignConfig string
  | SignIo io_error

section \<open>Revocation snapshots\<close>

type_synonym CrlReason = nat

datatype CertificateStatus = CertGood | CertRevoked (revocation_time: u64) (reason: "CrlReason option")

text \<open>The maps are listed in the order of their serials.\<close>

record StatusSnapshot =
  ss_entries :: "(bytes \<times> CertificateStatus) list"
  ss_this_update :: u64
  ss_next_update :: "u64 option"
  ss_not_after :: "(bytes \<times> u64) list"

record StatusChange =
  sg_serial :: bytes
  sg_status :: CertificateStatus
  sg_timestamp :: u64

text \<open>Every source reports its whole snapshot as changed.\<close>

definition snapshot_changes :: "StatusSnapshot \<Rightarrow> StatusChange list" where
  "snapshot_changes s =
     map (\<lambda>(serial, status). \<lparr>sg_serial = serial, sg_status = status, sg_timestamp = ss_this_update s\<rparr>) (ss_entries s)"

record CaIdentity =
  cd_label :: string
  cd_issuer_name_der :: bytes
  cd_issuer_key_bytes :: bytes

definition validate_at :: "StatusSnapshot \<Rightarrow> u64 \<Rightarrow> SignError + u64" where
  "validate_at s now =
     bindR (ok_orR (SignConfig ''source has no nextUpdate'') (ss_next_update s)) (\<lambda>end_time.
     if now < ss_this_update s \<or> end_time \<le> now \<or> end_time \<le> ss_this_update s
     then Inl (SignConfig ''source validity is expired, future-dated or inconsistent'')
     else Inr end_time)"

text \<open>The \<open>n\<close>-th reading of the clock, \<^const>\<open>None\<close> before 1970.\<close>

definition unix_now :: "(nat \<Rightarrow> u64 option) \<Rightarrow> nat \<Rightarrow> SignError + u64" where
  "unix_now clock n = ok_orR (SignConfig ''clock is before Unix epoch'') (clock n)"

definition saturating_add_u64 :: "u64 \<Rightarrow> u64 \<Rightarrow> u64" where
  "saturating_add_u64 a b = (case checked_add_u64 a b of Some c \<Rightarrow> c | None \<Rightarrow> - 1)"

section \<open>OCSP responses\<close>

datatype CertStatus = StatusGood | StatusRevoked DateTime "CrlReason option" | StatusUnknown

record SingleResponse =
  sr_cert_id :: CertId
  sr_cert_status :: CertStatus
  sr_this_update :: DateTime
  sr_next_update :: "DateTime option"

text \<open>What the response builder signs, and the response with its signature.\<close>

record ResponseData =
  rd_responder_key_hash :: bytes
  rd_responses :: "SingleResponse list"
  rd_nonce :: "bytes option"
  rd_certs :: "Certificate list option"
  rd_produced_at :: DateTime

record SignedResponse =
  so_data :: ResponseData
  so_signature :: bytes

record OcspResponse =
  op_successful :: bool
  op_response_bytes :: "(oid \<times> bytes) option"

text \<open>
  \<open>oe_cert_id\<close> is a CertID from its parts, with null algorithm parameters; \<open>oe_unix_secs\<close> is the
  seconds of a decoded time; \<open>oe_spki_raw_bytes\<close> the public key bits of a certificate; \<open>oe_sign_error_text\<close>
  the text that the derived \<^verbatim>\<open>Display\<close> gives an error.
\<close>

record ocsp_externals =
  oe_datetime_new :: datetime_new
  oe_unix_secs :: "DateTime \<Rightarrow> u64"
  oe_sha1 :: "bytes \<Rightarrow> bytes"
  oe_octet_string :: "bytes \<Rightarrow> string + bytes"
  oe_serial_number :: "bytes \<Rightarrow> string + bytes"
  oe_cert_id :: "oid \<Rightarrow> bytes \<Rightarrow> bytes \<Rightarrow> bytes \<Rightarrow> CertId"
  oe_cert_id_from_der :: "bytes \<Rightarrow> string + CertId"
  oe_nonce :: "bytes \<Rightarrow> string + bytes"
  oe_extension_error :: "bytes \<Rightarrow> string option"
  oe_response_to_der :: "SignedResponse \<Rightarrow> string + bytes"
  oe_response_from_der :: "bytes \<Rightarrow> string + OcspResponse"
  oe_basic_from_der :: "bytes \<Rightarrow> string + SingleResponse list"
  oe_spki_raw_bytes :: "Certificate \<Rightarrow> bytes"
  oe_sign_error_text :: "SignError \<Rightarrow> string"

text \<open>A signer: the signature, or an error, of its \<open>n\<close>-th call.\<close>

type_synonym signer = "nat \<Rightarrow> ResponseData \<Rightarrow> string + bytes"

definition ID_PKIX_OCSP_BASIC :: oid where
  "ID_PKIX_OCSP_BASIC = ''1.3.6.1.5.5.7.48.1.1''"

text \<open>Decoding a response inverts encoding it, and decoding a CertID inverts encoding it.\<close>

definition response_codec :: "ocsp_externals \<Rightarrow> bool" where
  "response_codec K \<longleftrightarrow>
     (\<forall>r der. oe_response_to_der K r = Inr der \<longrightarrow>
        (\<exists>basic. oe_response_from_der K der = Inr \<lparr>op_successful = True, op_response_bytes = Some (ID_PKIX_OCSP_BASIC, basic)\<rparr> \<and>
           oe_basic_from_der K basic = Inr (rd_responses (so_data r))))"

definition cert_id_codec :: "ocsp_externals \<Rightarrow> bool" where
  "cert_id_codec K \<longleftrightarrow>
     (\<forall>oid name key serial der. ci_to_der (oe_cert_id K oid name key serial) = Inr der \<longrightarrow>
        oe_cert_id_from_der K der = Inr (oe_cert_id K oid name key serial))"

text \<open>The seconds of a decoded time are those of the calendar.\<close>

definition unix_secs_law :: "ocsp_externals \<Rightarrow> bool" where
  "unix_secs_law K \<longleftrightarrow> (\<forall>dt. datetime_to_epoch dt < 2 ^ 64 \<longrightarrow> unat (oe_unix_secs K dt) = datetime_to_epoch dt)"

definition ocsp_time :: "ocsp_externals \<Rightarrow> u64 \<Rightarrow> SignError + DateTime" where
  "ocsp_time K epoch_secs = map_errR SignDer (epoch_to_datetime (oe_datetime_new K) epoch_secs)"

section \<open>Snapshots and times\<close>

lemma validate_at_Inr:
  "validate_at s now = Inr e \<longleftrightarrow>
     ss_next_update s = Some e \<and> ss_this_update s \<le> now \<and> now < e"
  by (cases "ss_next_update s") (auto simp: validate_at_def bindR_def ok_orR_def split: if_splits)

lemma saturating_add_le: "a \<le> saturating_add_u64 a b"
  by (simp add: saturating_add_u64_def checked_add_u64_def word_n1_ge) (simp add: word_le_nat_alt unat_word_ariths)

lemma ocsp_time_secs:
  assumes "datetime_new_law (oe_datetime_new K)" and "unix_secs_law K" and "unat t < 253402300800"
  shows "\<exists>dt. ocsp_time K t = Inr dt \<and> oe_unix_secs K dt = t"
proof -
  obtain dt where dt: "epoch_to_datetime (oe_datetime_new K) t = Inr dt" "datetime_to_epoch dt = unat t"
    using epoch_datetime_inverse [OF assms(1,3)] by blast
  have "unat (oe_unix_secs K dt) = unat t" using assms(2,3) dt(2) unfolding unix_secs_law_def by simp
  then show ?thesis using dt(1) by (auto simp: ocsp_time_def map_errR_def word_unat_eq_iff)
qed

end
