(* ===== verification/Sign_Generate.thy ===== *)
theory Sign_Generate
  imports Sign_Source Ahu_Bundle
begin

text \<open>
  Bundle production (\<^verbatim>\<open>crates/hoike-sign/src/generate.rs\<close>): one OCSP response for each certificate of
  a snapshot, or for each bucket of certificates, signed and added to a bundle under the digests of
  its CertIDs, with the manifest that describes the scopes and the validity window.
\<close>

section \<open>Configuration\<close>

datatype CertIdCompat = Sha256Only | Sha1Only | Dual

record GenerationConfig =
  gn_producer_id :: string
  gn_epoch :: u64
  gn_validity_secs :: u64
  gn_jitter_secs :: u64
  gn_certid_compat :: CertIdCompat
  gn_completeness :: Completeness
  gn_archive_cutoff_secs :: u64
  gn_bucket_size :: nat

definition certid_compat_parse :: "string \<Rightarrow> string + CertIdCompat" where
  "certid_compat_parse s =
     (if s = ''dual'' then Inr Dual
      else if s = ''sha256'' then Inr Sha256Only
      else if s = ''sha1'' then Inr Sha1Only
      else Inl (''unknown certid_compat '' @ s @ '' (expected: dual, sha256, sha1)''))"

definition default_generation_config :: GenerationConfig where
  "default_generation_config =
     \<lparr>gn_producer_id = ''hoike-signer'', gn_epoch = 1, gn_validity_secs = 86400, gn_jitter_secs = 7200,
      gn_certid_compat = Dual, gn_completeness = Partial, gn_archive_cutoff_secs = 0, gn_bucket_size = 1\<rparr>"

section \<open>Preparing the single responses\<close>

definition SHA256_OID :: oid where "SHA256_OID = ''2.16.840.1.101.3.4.2.1''"
definition SHA1_OID :: oid where "SHA1_OID = ''1.3.14.3.2.26''"

text \<open>The bytes of the two object identifiers, without tag and length.\<close>

definition SHA256_OID_BYTES :: bytes where
  "SHA256_OID_BYTES = [0x60, 0x86, 0x48, 0x01, 0x65, 0x03, 0x04, 0x02, 0x01]"

definition SHA1_OID_BYTES :: bytes where
  "SHA1_OID_BYTES = [0x2B, 0x0E, 0x03, 0x02, 0x1A]"

record issuer_hashes =
  ih_name_sha256 :: bytes
  ih_key_sha256 :: bytes
  ih_name_sha1 :: bytes
  ih_key_sha1 :: bytes

definition hash_issuer :: "externals \<Rightarrow> ocsp_externals \<Rightarrow> CaIdentity \<Rightarrow> issuer_hashes" where
  "hash_issuer E K ca =
     \<lparr>ih_name_sha256 = sha256 E (cd_issuer_name_der ca), ih_key_sha256 = sha256 E (cd_issuer_key_bytes ca),
      ih_name_sha1 = oe_sha1 K (cd_issuer_name_der ca), ih_key_sha1 = oe_sha1 K (cd_issuer_key_bytes ca)\<rparr>"

record PreparedEntry =
  pe_entry_keys :: "bytes list"
  pe_single_responses :: "SingleResponse list"

definition build_certid :: "ocsp_externals \<Rightarrow> oid \<Rightarrow> bytes \<Rightarrow> bytes \<Rightarrow> bytes \<Rightarrow> SignError + CertId" where
  "build_certid K hash_oid name_hash key_hash serial =
     bindR (map_errR SignDer (oe_octet_string K name_hash)) (\<lambda>name.
     bindR (map_errR SignDer (oe_octet_string K key_hash)) (\<lambda>key.
     Inr (oe_cert_id K hash_oid name key serial)))"

definition cert_status :: "ocsp_externals \<Rightarrow> CertificateStatus \<Rightarrow> SignError + CertStatus" where
  "cert_status K status =
     (case status of
        CertGood \<Rightarrow> Inr StatusGood
      | CertRevoked t r \<Rightarrow> bindR (ocsp_time K t) (\<lambda>dt. Inr (StatusRevoked dt r)))"

text \<open>A share of the jitter that depends on the serial: the product is computed in 128 bits.\<close>

definition entry_jitter :: "externals \<Rightarrow> GenerationConfig \<Rightarrow> bytes \<Rightarrow> u64" where
  "entry_jitter E config serial =
     of_nat (nat_of_be (take 4 (sha256 E serial)) * unat (gn_jitter_secs config) div (2 ^ 32 - 1))"

definition certid_key :: "externals \<Rightarrow> CertId \<Rightarrow> SignError + bytes" where
  "certid_key E cert_id = bindR (map_errR SignDer (ci_to_der cert_id)) (\<lambda>certid_der. Inr (sha256 E certid_der))"

definition single_response :: "CertId \<Rightarrow> CertStatus \<Rightarrow> DateTime \<Rightarrow> DateTime \<Rightarrow> SingleResponse" where
  "single_response cert_id status this_update next_update =
     \<lparr>sr_cert_id = cert_id, sr_cert_status = status, sr_this_update = this_update, sr_next_update = Some next_update\<rparr>"

definition pruned :: "GenerationConfig \<Rightarrow> StatusSnapshot \<Rightarrow> bytes \<Rightarrow> bool" where
  "pruned config snapshot serial \<longleftrightarrow>
     0 < gn_archive_cutoff_secs config \<and>
     (case map_of (ss_not_after snapshot) serial of
        None \<Rightarrow> False
      | Some not_after \<Rightarrow> saturating_add_u64 not_after (gn_archive_cutoff_secs config) < ss_this_update snapshot)"

definition prepare_entry ::
    "externals \<Rightarrow> ocsp_externals \<Rightarrow> StatusSnapshot \<Rightarrow> GenerationConfig \<Rightarrow> issuer_hashes \<Rightarrow> DateTime \<Rightarrow> u64
      \<Rightarrow> bytes \<times> CertificateStatus \<Rightarrow> SignError + PreparedEntry option" where
  "prepare_entry E K snapshot config ih this_update next_update_base e =
     (let (serial, status) = e in
      if pruned config snapshot serial then Inr None
      else
      bindR (cert_status K status) (\<lambda>cs.
      bindR (map_errR SignDer (oe_serial_number K serial)) (\<lambda>serial_number.
      bindR (ok_orR (SignConfig ''missing source expiry'') (ss_next_update snapshot)) (\<lambda>source_end.
      bindR (ocsp_time K (min (saturating_add_u64 next_update_base (entry_jitter E config serial)) source_end)) (\<lambda>next_update.
      let certid_sha256 = build_certid K SHA256_OID (ih_name_sha256 ih) (ih_key_sha256 ih) serial_number;
          certid_sha1 = build_certid K SHA1_OID (ih_name_sha1 ih) (ih_key_sha1 ih) serial_number;
          single = (\<lambda>cert_id. single_response cert_id cs this_update next_update) in
      case gn_certid_compat config of
        Sha256Only \<Rightarrow>
          bindR certid_sha256 (\<lambda>cert_id.
          bindR (certid_key E cert_id) (\<lambda>entry_key.
          Inr (Some \<lparr>pe_entry_keys = [entry_key], pe_single_responses = [single cert_id]\<rparr>)))
      | Sha1Only \<Rightarrow>
          bindR certid_sha1 (\<lambda>cert_id.
          bindR (certid_key E cert_id) (\<lambda>entry_key.
          Inr (Some \<lparr>pe_entry_keys = [entry_key], pe_single_responses = [single cert_id]\<rparr>)))
      | Dual \<Rightarrow>
          bindR certid_sha256 (\<lambda>cert_id_sha256.
          bindR certid_sha1 (\<lambda>cert_id_sha1.
          bindR (certid_key E cert_id_sha256) (\<lambda>ek256.
          bindR (certid_key E cert_id_sha1) (\<lambda>ek1.
          Inr (Some \<lparr>pe_entry_keys = [ek256, ek1],
                     pe_single_responses = [single cert_id_sha256, single cert_id_sha1]\<rparr>))))))))))"

definition prepare_entries ::
    "externals \<Rightarrow> ocsp_externals \<Rightarrow> StatusSnapshot \<Rightarrow> GenerationConfig \<Rightarrow> issuer_hashes \<Rightarrow> DateTime \<Rightarrow> u64
      \<Rightarrow> SignError + PreparedEntry list" where
  "prepare_entries E K snapshot config ih this_update next_update_base =
     bindR (mapR (prepare_entry E K snapshot config ih this_update next_update_base) (ss_entries snapshot)) (\<lambda>prepared.
     Inr (List.map_filter id prepared))"

section \<open>Signing the buckets\<close>

fun add_pairs :: "bytes list \<Rightarrow> bytes \<Rightarrow> u16 \<Rightarrow> BundleBuilder \<Rightarrow> BundleBuilder" where
  "add_pairs [] response_der discriminator b = b"
| "add_pairs [k] response_der discriminator b = add_entry_with_discriminator k discriminator response_der b"
| "add_pairs (k1 # k2 # ks) response_der discriminator b =
     add_pairs ks response_der discriminator (add_dual_entry_with_discriminator k1 k2 response_der discriminator b)"

definition add_shared_entries :: "bytes list \<Rightarrow> bytes \<Rightarrow> u16 \<Rightarrow> BundleBuilder \<Rightarrow> BundleBuilder" where
  "add_shared_entries keys response_der discriminator b =
     (case keys of
        [] \<Rightarrow> b
      | [k] \<Rightarrow> add_entry_with_discriminator k discriminator response_der b
      | [k1, k2] \<Rightarrow> add_dual_entry_with_discriminator k1 k2 response_der discriminator b
      | _ \<Rightarrow> add_pairs keys response_der discriminator b)"

function chunks :: "nat \<Rightarrow> 'a list \<Rightarrow> 'a list list" where
  "chunks n xs = (if xs = [] then [] else take (Suc n) xs # chunks n (drop (Suc n) xs))"
  by pat_completeness auto
termination
  by (relation "measure (\<lambda>(n, xs). length xs)") auto

declare chunks.simps [simp del]

definition sign_bucket ::
    "ocsp_externals \<Rightarrow> signer \<Rightarrow> bytes \<Rightarrow> Certificate option \<Rightarrow> DateTime \<Rightarrow> u16
      \<Rightarrow> BundleBuilder \<Rightarrow> nat \<times> PreparedEntry list \<Rightarrow> SignError + BundleBuilder" where
  "sign_bucket K signer responder_id parsed_cert produced_at discriminator b nb =
     (let (n, bucket) = nb;
          data = \<lparr>rd_responder_key_hash = responder_id, rd_responses = concat (map pe_single_responses bucket),
                  rd_nonce = None, rd_certs = map_option (\<lambda>c. [c]) parsed_cert, rd_produced_at = produced_at\<rparr>;
          all_keys = concat (map pe_entry_keys bucket) in
      bindR (map_errR OcspBuilder (signer n data)) (\<lambda>signature.
      bindR (map_errR SignDer (oe_response_to_der K \<lparr>so_data = data, so_signature = signature\<rparr>)) (\<lambda>response_der.
      Inr (add_shared_entries all_keys response_der discriminator b))))"

definition parse_responder_cert :: "cms_externals \<Rightarrow> bytes option \<Rightarrow> SignError + Certificate option" where
  "parse_responder_cert X responder_cert_der =
     (case responder_cert_der of
        None \<Rightarrow> Inr None
      | Some c \<Rightarrow> bindR (map_errR SignDer (certificate_from_der X c)) (\<lambda>cert. Inr (Some cert)))"

definition sign_and_add_entries ::
    "ocsp_externals \<Rightarrow> cms_externals \<Rightarrow> BundleBuilder \<Rightarrow> PreparedEntry list \<Rightarrow> nat \<Rightarrow> signer \<Rightarrow> bytes
      \<Rightarrow> bytes option \<Rightarrow> DateTime \<Rightarrow> u16 \<Rightarrow> SignError + BundleBuilder" where
  "sign_and_add_entries K X builder prepared bucket_size signer responder_id responder_cert_der produced_at discriminator =
     bindR (parse_responder_cert X responder_cert_der) (\<lambda>parsed_cert.
     foldR (sign_bucket K signer responder_id parsed_cert produced_at discriminator) builder
       (enumerate 0 (chunks (max bucket_size 1 - 1) prepared)))"

definition extract_spki_key_hash :: "ocsp_externals \<Rightarrow> cms_externals \<Rightarrow> bytes \<Rightarrow> SignError + bytes" where
  "extract_spki_key_hash K X cert_der =
     bindR (map_errR (\<lambda>e. KeyLoad (''parse responder cert for SPKI: '' @ e)) (certificate_from_der X cert_der)) (\<lambda>cert.
     Inr (oe_sha1 K (oe_spki_raw_bytes K cert)))"

section \<open>The bundle\<close>

definition responder_key_hash :: "ocsp_externals \<Rightarrow> cms_externals \<Rightarrow> CaIdentity \<Rightarrow> bytes option \<Rightarrow> SignError + bytes" where
  "responder_key_hash K X ca responder_cert_der =
     (case responder_cert_der of
        Some cert_der \<Rightarrow> extract_spki_key_hash K X cert_der
      | None \<Rightarrow> Inr (oe_sha1 K (cd_issuer_key_bytes ca)))"

definition produced_scope :: "GenerationConfig \<Rightarrow> bytes \<Rightarrow> bytes \<Rightarrow> bytes \<Rightarrow> bytes \<Rightarrow> bytes option \<Rightarrow> CaScope" where
  "produced_scope config hash_oid name_hash key_hash key responder_cert_der =
     \<lparr>cs_hash_algorithm = hash_oid, cs_issuer_name_hash = name_hash, cs_issuer_key_hash = key_hash,
      cs_epoch = gn_epoch config, cs_responder_id = \<lparr>rid_id_type = ByKey, rid_value = key\<rparr>,
      cs_responder_chain = map_option (\<lambda>cert. [cert]) responder_cert_der, cs_signature_algorithm = [],
      cs_completeness = gn_completeness config\<rparr>"

definition produced_manifest :: "GenerationConfig \<Rightarrow> CaScope list \<Rightarrow> u64 \<Rightarrow> Window \<Rightarrow> Manifest" where
  "produced_manifest config scopes created_at window =
     \<lparr>mf_format_version = 1, mf_bundle_id = replicate 16 0, mf_producer_id = gn_producer_id config,
      mf_created_at = created_at, mf_bundle_type = FullBundle, mf_ca_scopes = scopes, mf_window = window,
      mf_integrity = \<lparr>in_index_digest = replicate 32 0, in_data_digest = replicate 32 0\<rparr>, mf_entry_count = 0,
      mf_continuity = \<lparr>co_prev_manifest_digest = None, co_base_manifest_digest = None, co_chain_length = 0\<rparr>,
      mf_shard = None, mf_compression = None, mf_extensions = None\<rparr>"

definition source_window ::
    "(nat \<Rightarrow> u64 option) \<Rightarrow> StatusSnapshot \<Rightarrow> GenerationConfig \<Rightarrow> SignError + u64 \<times> u64" where
  "source_window clock snapshot config =
     bindR (unix_now clock 0) (\<lambda>now.
     bindR (validate_at snapshot now) (\<lambda>source_end.
     bindR (ok_orR (SignConfig ''validity overflows'') (checked_add_u64 (ss_this_update snapshot) (gn_validity_secs config))) (\<lambda>t.
     let next_update_base = min t source_end in
     bindR (unix_now clock 1) (\<lambda>now'.
     if next_update_base \<le> now' then Inl (SignConfig ''generated response would already be expired'')
     else Inr (source_end, next_update_base)))))"

definition produced_window :: "StatusSnapshot \<Rightarrow> GenerationConfig \<Rightarrow> u64 \<Rightarrow> u64 \<Rightarrow> u64 \<Rightarrow> Window" where
  "produced_window snapshot config produced_at source_end next_update_base =
     \<lparr>w_produced_at = produced_at, w_this_update_min = ss_this_update snapshot, w_next_update_min = next_update_base,
      w_next_update_max = min (saturating_add_u64 next_update_base (gn_jitter_secs config)) source_end\<rparr>"

definition finish_bundle ::
    "externals \<Rightarrow> ocsp_externals \<Rightarrow> (bytes \<Rightarrow> SignError + bytes) \<Rightarrow> BundleBuilder \<Rightarrow> SignError + bytes" where
  "finish_bundle E K seal_fn builder =
     map_errR SignBundle
       (build E (\<lambda>manifest_bytes. map_errR (\<lambda>e. Write (oe_sign_error_text K e)) (seal_fn manifest_bytes)) builder)"

definition produce_builder ::
    "externals \<Rightarrow> ocsp_externals \<Rightarrow> cms_externals \<Rightarrow> (nat \<Rightarrow> u64 option) \<Rightarrow> CaIdentity \<Rightarrow> StatusSnapshot
      \<Rightarrow> GenerationConfig \<Rightarrow> signer \<Rightarrow> bytes option \<Rightarrow> SignError + BundleBuilder" where
  "produce_builder E K X clock ca snapshot config signer responder_cert_der =
     bindR (source_window clock snapshot config) (\<lambda>(source_end, next_update_base).
     bindR (unix_now clock 2) (\<lambda>t2.
     bindR (ocsp_time K t2) (\<lambda>produced_at.
     let ih = hash_issuer E K ca in
     bindR (responder_key_hash K X ca responder_cert_der) (\<lambda>key.
     bindR (map_errR SignDer (oe_octet_string K key)) (\<lambda>responder_id.
     let ca_scopes =
           produced_scope config SHA256_OID_BYTES (ih_name_sha256 ih) (ih_key_sha256 ih) key responder_cert_der
           # (if gn_certid_compat config = Dual \<or> gn_certid_compat config = Sha1Only
              then [produced_scope config SHA1_OID_BYTES (ih_name_sha1 ih) (ih_key_sha1 ih) key responder_cert_der]
              else []) in
     bindR (unix_now clock 3) (\<lambda>created_at.
     bindR (unix_now clock 4) (\<lambda>window_produced_at.
     let builder = builder_new (produced_manifest config ca_scopes created_at
           (produced_window snapshot config window_produced_at source_end next_update_base)) in
     bindR (ocsp_time K (ss_this_update snapshot)) (\<lambda>this_update.
     bindR (prepare_entries E K snapshot config ih this_update next_update_base) (\<lambda>prepared.
     sign_and_add_entries K X builder prepared (gn_bucket_size config) signer responder_id
       responder_cert_der produced_at 0)))))))))"

definition produce_bundle ::
    "externals \<Rightarrow> ocsp_externals \<Rightarrow> cms_externals \<Rightarrow> (nat \<Rightarrow> u64 option) \<Rightarrow> CaIdentity \<Rightarrow> StatusSnapshot
      \<Rightarrow> GenerationConfig \<Rightarrow> signer \<Rightarrow> (bytes \<Rightarrow> SignError + bytes) \<Rightarrow> bytes option \<Rightarrow> SignError + bytes" where
  "produce_bundle E K X clock ca snapshot config signer seal_fn responder_cert_der =
     bindR (produce_builder E K X clock ca snapshot config signer responder_cert_der) (finish_bundle E K seal_fn)"

definition produce_dual_bundle ::
    "externals \<Rightarrow> ocsp_externals \<Rightarrow> cms_externals \<Rightarrow> (nat \<Rightarrow> u64 option) \<Rightarrow> CaIdentity \<Rightarrow> StatusSnapshot
      \<Rightarrow> GenerationConfig \<Rightarrow> signer \<Rightarrow> signer \<Rightarrow> u16 \<Rightarrow> (bytes \<Rightarrow> SignError + bytes) \<Rightarrow> bytes option \<Rightarrow> bytes option
      \<Rightarrow> SignError + bytes" where
  "produce_dual_bundle E K X clock ca snapshot config signer_classical signer_pq disc_pq seal_fn cert_classical cert_pq =
     bindR (source_window clock snapshot config) (\<lambda>(source_end, next_update_base).
     bindR (unix_now clock 2) (\<lambda>t2.
     bindR (ocsp_time K t2) (\<lambda>produced_at.
     let ih = hash_issuer E K ca in
     bindR (responder_key_hash K X ca cert_classical) (\<lambda>key_classical.
     bindR (responder_key_hash K X ca cert_pq) (\<lambda>key_pq.
     let ca_scopes =
           [produced_scope config SHA256_OID_BYTES (ih_name_sha256 ih) (ih_key_sha256 ih) key_classical cert_classical,
            produced_scope config SHA256_OID_BYTES (ih_name_sha256 ih) (ih_key_sha256 ih) key_pq cert_pq]
           @ (if gn_certid_compat config = Dual \<or> gn_certid_compat config = Sha1Only
              then [produced_scope config SHA1_OID_BYTES (ih_name_sha1 ih) (ih_key_sha1 ih) key_classical cert_classical,
                    produced_scope config SHA1_OID_BYTES (ih_name_sha1 ih) (ih_key_sha1 ih) key_pq cert_pq]
              else []) in
     bindR (unix_now clock 3) (\<lambda>created_at.
     bindR (unix_now clock 4) (\<lambda>window_produced_at.
     let builder = builder_new (produced_manifest config ca_scopes created_at
           (produced_window snapshot config window_produced_at source_end next_update_base)) in
     bindR (ocsp_time K (ss_this_update snapshot)) (\<lambda>this_update.
     bindR (prepare_entries E K snapshot config ih this_update next_update_base) (\<lambda>prepared.
     bindR (map_errR SignDer (oe_octet_string K key_classical)) (\<lambda>id_classical.
     bindR (map_errR SignDer (oe_octet_string K key_pq)) (\<lambda>id_pq.
     bindR (sign_and_add_entries K X builder prepared (gn_bucket_size config) signer_classical id_classical
              cert_classical produced_at 0) (\<lambda>builder.
     bindR (sign_and_add_entries K X builder prepared (gn_bucket_size config) signer_pq id_pq
              cert_pq produced_at disc_pq) (\<lambda>builder.
     finish_bundle E K seal_fn builder)))))))))))))"

section \<open>What the buckets add\<close>

text \<open>Entries that answer all keys of a bucket with one response.\<close>

definition entries_for :: "bytes list \<Rightarrow> bytes \<Rightarrow> u16 \<Rightarrow> (IndexRecord \<times> bytes) list \<Rightarrow> bool" where
  "entries_for keys der disc es \<longleftrightarrow>
     map (\<lambda>e. record_key (fst e)) es = map (\<lambda>k. (k, disc)) keys \<and> (\<forall>e \<in> set es. snd e = der \<and> \<not> is_tombstone (fst e))"

lemma entries_for_append:
  "entries_for ks der disc es \<Longrightarrow> entries_for ks' der disc es' \<Longrightarrow> entries_for (ks @ ks') der disc (es @ es')"
  by (auto simp: entries_for_def)

lemma add_entry_entries:
  "\<exists>es. bb_entries (add_entry_with_discriminator k disc der b) = bb_entries b @ es \<and> entries_for [k] der disc es"
  by (simp add: add_entry_with_discriminator_def push_entry_def entries_for_def record_key_def is_tombstone_def
      flags_contain_def TOMBSTONE_def)

lemma add_dual_entries:
  "\<exists>es. bb_entries (add_dual_entry_with_discriminator k1 k2 der disc b) = bb_entries b @ es \<and> entries_for [k1, k2] der disc es"
  by (simp add: add_dual_entry_with_discriminator_def push_entry_def entries_for_def record_key_def is_tombstone_def
      flags_contain_def TOMBSTONE_def ALIAS_def MULTI_def Let_def)

lemma add_manifest [simp]:
  "bb_manifest (add_entry_with_discriminator k disc der b) = bb_manifest b"
  "bb_manifest (add_dual_entry_with_discriminator k1 k2 der disc b) = bb_manifest b"
  by (simp_all add: add_entry_with_discriminator_def add_dual_entry_with_discriminator_def push_entry_def Let_def)

lemma add_pairs_entries:
  "bb_manifest (add_pairs keys der disc b) = bb_manifest b \<and>
   (\<exists>es. bb_entries (add_pairs keys der disc b) = bb_entries b @ es \<and> entries_for keys der disc es)"
proof (induction keys der disc b rule: add_pairs.induct)
  case (3 k1 k2 ks der disc b)
  obtain es where es: "bb_entries (add_dual_entry_with_discriminator k1 k2 der disc b) = bb_entries b @ es"
    "entries_for [k1, k2] der disc es"
    using add_dual_entries by blast
  then show ?case using 3 entries_for_append [OF es(2)] by fastforce
qed (use add_entry_entries in \<open>auto simp: entries_for_def\<close>)

lemma add_shared_entries_pairs: "add_shared_entries keys der disc b = add_pairs keys der disc b"
  by (auto simp: add_shared_entries_def split: list.split)

definition bucket_signed :: "ocsp_externals \<Rightarrow> u16 \<Rightarrow> PreparedEntry list \<Rightarrow> (IndexRecord \<times> bytes) list \<Rightarrow> bool" where
  "bucket_signed K disc bucket es \<longleftrightarrow>
     (\<exists>r der. oe_response_to_der K r = Inr der \<and> rd_responses (so_data r) = concat (map pe_single_responses bucket) \<and>
        entries_for (concat (map pe_entry_keys bucket)) der disc es)"

lemma sign_bucket_Inr:
  assumes "sign_bucket K signer rid cert pa disc b (n, bucket) = Inr b'"
  shows "bb_manifest b' = bb_manifest b \<and> (\<exists>es. bb_entries b' = bb_entries b @ es \<and> bucket_signed K disc bucket es)"
proof -
  obtain r der where r: "oe_response_to_der K r = Inr der" "rd_responses (so_data r) = concat (map pe_single_responses bucket)"
    and b': "b' = add_pairs (concat (map pe_entry_keys bucket)) der disc b"
    using assms by (auto simp: sign_bucket_def add_shared_entries_pairs result_inverts Let_def)
  then show ?thesis
    using add_pairs_entries [of "concat (map pe_entry_keys bucket)" der disc b] unfolding bucket_signed_def by blast
qed

lemma sign_buckets_Inr:
  assumes "foldR (sign_bucket K signer rid cert pa disc) b (enumerate n buckets) = Inr b'"
  shows "bb_manifest b' = bb_manifest b \<and>
    (\<exists>ess. bb_entries b' = bb_entries b @ concat ess \<and> list_all2 (bucket_signed K disc) buckets ess)"
  using assms
proof (induction buckets arbitrary: n b)
  case (Cons bucket buckets)
  then obtain b1 where b1: "sign_bucket K signer rid cert pa disc b (n, bucket) = Inr b1"
    "foldR (sign_bucket K signer rid cert pa disc) b1 (enumerate (Suc n) buckets) = Inr b'"
    by (auto simp: result_inverts)
  obtain es where es: "bb_entries b1 = bb_entries b @ es" "bucket_signed K disc bucket es" "bb_manifest b1 = bb_manifest b"
    using sign_bucket_Inr [OF b1(1)] by blast
  obtain ess where "bb_entries b' = bb_entries b1 @ concat ess" "list_all2 (bucket_signed K disc) buckets ess"
    "bb_manifest b' = bb_manifest b1"
    using Cons.IH [OF b1(2)] by blast
  then have "bb_entries b' = bb_entries b @ concat (es # ess) \<and> list_all2 (bucket_signed K disc) (bucket # buckets) (es # ess)"
    "bb_manifest b' = bb_manifest b"
    using es by simp_all
  then show ?case by blast
qed auto

lemma concat_chunks: "concat (chunks n xs) = xs"
proof (induction n xs rule: chunks.induct)
  case (1 n xs)
  then show ?case by (subst chunks.simps) auto
qed

end
