(* ===== verification/Sign_Live.thy ===== *)
theory Sign_Live
  imports Sign_Source
begin

text \<open>
  Responses signed on demand (\<^verbatim>\<open>crates/hoike-sign/src/live.rs\<close>): the status of a certificate is taken
  from a pre-signed response, and a fresh response is signed that carries the request's nonce and
  whose validity stays inside the source's.
\<close>

section \<open>Operations\<close>

datatype LiveCertStatus = LiveGood | LiveUnknown | LiveRevoked u64 "CrlReason option"

record LiveResponseSource =
  ls_status :: LiveCertStatus
  ls_this_update :: u64
  ls_next_update :: u64

definition live_status :: "ocsp_externals \<Rightarrow> LiveCertStatus \<Rightarrow> SignError + CertStatus" where
  "live_status K status =
     (case status of
        LiveGood \<Rightarrow> Inr StatusGood
      | LiveUnknown \<Rightarrow> Inr StatusUnknown
      | LiveRevoked t r \<Rightarrow> bindR (ocsp_time K t) (\<lambda>dt. Inr (StatusRevoked dt r)))"

definition clip_to_certificate :: "cms_externals \<Rightarrow> u64 \<Rightarrow> u64 \<Rightarrow> bytes option \<Rightarrow> SignError + u64" where
  "clip_to_certificate X now next_update_epoch responder_cert_der =
     (case responder_cert_der of
        None \<Rightarrow> Inr next_update_epoch
      | Some bs \<Rightarrow>
          bindR (map_errR SignDer (certificate_from_der X bs)) (\<lambda>cert.
          if now < ct_not_before cert \<or> ct_not_after cert \<le> now
          then Inl (SignConfig ''responder certificate is not currently valid'')
          else Inr (min next_update_epoch (ct_not_after cert))))"

definition sign_live_response_with_window ::
    "ocsp_externals \<Rightarrow> cms_externals \<Rightarrow> bytes \<Rightarrow> LiveCertStatus \<Rightarrow> bytes \<Rightarrow> bytes \<Rightarrow> signer \<Rightarrow> u64 \<Rightarrow> u64 \<Rightarrow> u64
      \<Rightarrow> bytes option \<Rightarrow> SignError + bytes" where
  "sign_live_response_with_window K X cert_id_der status nonce_bytes responder_key_bytes signer now
       source_this_update source_next_update responder_cert_der =
     (if now < source_this_update \<or> source_next_update \<le> now \<or> source_next_update \<le> source_this_update
      then Inl (SignConfig ''live source is not currently valid'')
      else
      bindR (clip_to_certificate X now source_next_update responder_cert_der) (\<lambda>next_update_epoch.
      bindR (map_errR SignDer (oe_cert_id_from_der K cert_id_der)) (\<lambda>cert_id.
      bindR (live_status K status) (\<lambda>cert_status.
      bindR (ocsp_time K source_this_update) (\<lambda>this_update.
      bindR (ocsp_time K next_update_epoch) (\<lambda>next_update.
      bindR (ocsp_time K now) (\<lambda>produced_at.
      bindR (map_errR SignDer (oe_octet_string K (oe_sha1 K responder_key_bytes))) (\<lambda>responder_id.
      bindR (map_errR SignDer (oe_nonce K nonce_bytes)) (\<lambda>nonce.
      bindR (case oe_extension_error K nonce of Some e \<Rightarrow> Inl (OcspBuilder e) | None \<Rightarrow> Inr ()) (\<lambda>_.
      bindR (case responder_cert_der of
               None \<Rightarrow> Inr None
             | Some c \<Rightarrow> bindR (map_errR SignDer (certificate_from_der X c)) (\<lambda>cert. Inr (Some [cert]))) (\<lambda>certs.
      let data = \<lparr>rd_responder_key_hash = responder_id,
                  rd_responses = [\<lparr>sr_cert_id = cert_id, sr_cert_status = cert_status, sr_this_update = this_update,
                                   sr_next_update = Some next_update\<rparr>],
                  rd_nonce = Some nonce, rd_certs = certs, rd_produced_at = produced_at\<rparr> in
      bindR (map_errR OcspBuilder (signer 0 data)) (\<lambda>signature.
      map_errR SignDer (oe_response_to_der K \<lparr>so_data = data, so_signature = signature\<rparr>)))))))))))))"

definition sign_live_response ::
    "ocsp_externals \<Rightarrow> cms_externals \<Rightarrow> bytes \<Rightarrow> LiveCertStatus \<Rightarrow> bytes \<Rightarrow> bytes \<Rightarrow> signer \<Rightarrow> u64 \<Rightarrow> u64
      \<Rightarrow> bytes option \<Rightarrow> SignError + bytes" where
  "sign_live_response K X cert_id_der status nonce_bytes responder_key_bytes signer now validity_secs responder_cert_der =
     bindR (ok_orR (SignConfig ''live validity overflow'') (checked_add_u64 now validity_secs)) (\<lambda>next.
     sign_live_response_with_window K X cert_id_der status nonce_bytes responder_key_bytes signer now now next
       responder_cert_der)"

definition parse_basic :: "ocsp_externals \<Rightarrow> bytes \<Rightarrow> SignError + SingleResponse list" where
  "parse_basic K response_der =
     bindR (map_errR SignDer (oe_response_from_der K response_der)) (\<lambda>response.
     if \<not> op_successful response then Inl (OcspBuilder ''source OCSP response was not successful'')
     else
     bindR (ok_orR (OcspBuilder ''missing responseBytes'') (op_response_bytes response)) (\<lambda>(response_type, bytes).
     if response_type \<noteq> ID_PKIX_OCSP_BASIC then Inl (OcspBuilder ''unsupported response type'')
     else map_errR SignDer (oe_basic_from_der K bytes)))"

definition status_from_single :: "ocsp_externals \<Rightarrow> SingleResponse \<Rightarrow> LiveCertStatus" where
  "status_from_single K single =
     (case sr_cert_status single of
        StatusGood \<Rightarrow> LiveGood
      | StatusUnknown \<Rightarrow> LiveUnknown
      | StatusRevoked dt r \<Rightarrow> LiveRevoked (oe_unix_secs K dt) r)"

definition extract_status_for_cert :: "ocsp_externals \<Rightarrow> bytes \<Rightarrow> bytes \<Rightarrow> SignError + LiveResponseSource" where
  "extract_status_for_cert K response_der cert_id_der =
     bindR (map_errR SignDer (oe_cert_id_from_der K cert_id_der)) (\<lambda>requested.
     bindR (parse_basic K response_der) (\<lambda>responses.
     case filter (\<lambda>r. sr_cert_id r = requested) responses of
       [] \<Rightarrow> Inl (OcspBuilder ''requested CertID absent from response'')
     | single # rest \<Rightarrow>
         if rest \<noteq> [] then Inl (OcspBuilder ''ambiguous duplicate CertID in response'')
         else
         bindR (ok_orR (OcspBuilder ''live source requires nextUpdate'') (sr_next_update single)) (\<lambda>next.
         Inr \<lparr>ls_status = status_from_single K single, ls_this_update = oe_unix_secs K (sr_this_update single),
              ls_next_update = oe_unix_secs K next\<rparr>)))"

definition extract_status_from_response :: "ocsp_externals \<Rightarrow> bytes \<Rightarrow> SignError + LiveCertStatus" where
  "extract_status_from_response K response_der =
     bindR (parse_basic K response_der) (\<lambda>responses.
     case responses of
       [single] \<Rightarrow> Inr (status_from_single K single)
     | _ \<Rightarrow> Inl (OcspBuilder ''CertID required for a batched response''))"

section \<open>What is signed\<close>

text \<open>
  A live response is about one certificate, with the nonce, produced now and valid now, from the
  time the source established the status until no later than the source or the certificate allows.
\<close>

definition live_data_ok ::
    "ocsp_externals \<Rightarrow> cms_externals \<Rightarrow> bytes \<Rightarrow> LiveCertStatus \<Rightarrow> bytes \<Rightarrow> u64 \<Rightarrow> u64 \<Rightarrow> u64 \<Rightarrow> bytes option
      \<Rightarrow> ResponseData \<Rightarrow> bool" where
  "live_data_ok K X cert_id_der status nonce_bytes now this_update next_update cert_der data \<longleftrightarrow>
     (\<exists>single next_epoch next.
        rd_responses data = [single] \<and> oe_cert_id_from_der K cert_id_der = Inr (sr_cert_id single) \<and>
        live_status K status = Inr (sr_cert_status single) \<and>
        ocsp_time K this_update = Inr (sr_this_update single) \<and> sr_next_update single = Some next \<and>
        ocsp_time K next_epoch = Inr next \<and> ocsp_time K now = Inr (rd_produced_at data) \<and>
        this_update \<le> now \<and> now < next_epoch \<and> next_epoch \<le> next_update \<and>
        (\<exists>nonce. oe_nonce K nonce_bytes = Inr nonce \<and> rd_nonce data = Some nonce) \<and>
        (\<forall>der. cert_der = Some der \<longrightarrow>
           (\<exists>cert. certificate_from_der X der = Inr cert \<and> rd_certs data = Some [cert] \<and>
              ct_not_before cert \<le> now \<and> next_epoch \<le> ct_not_after cert)))"

lemma clip_to_certificate_Inr:
  "clip_to_certificate X now t cert_der = Inr t' \<longleftrightarrow>
     (case cert_der of
        None \<Rightarrow> t' = t
      | Some der \<Rightarrow> (\<exists>cert. certificate_from_der X der = Inr cert \<and> ct_not_before cert \<le> now \<and> now < ct_not_after cert \<and>
          t' = min t (ct_not_after cert)))"
  by (auto simp: clip_to_certificate_def result_inverts not_less not_le split: option.splits if_splits)

lemma sign_live_response_with_window_Inr:
  assumes "sign_live_response_with_window K X cid status nonce rkb signer now this next cert_der = Inr der"
  shows "\<exists>data sig. signer 0 data = Inr sig \<and> oe_response_to_der K \<lparr>so_data = data, so_signature = sig\<rparr> = Inr der \<and>
    live_data_ok K X cid status nonce now this next cert_der data"
proof -
  have window: "\<not> (now < this \<or> next \<le> now \<or> next \<le> this)"
    using assms by (auto simp: sign_live_response_with_window_def split: if_splits)
  obtain next_epoch cert_id cs tu nu pa rid n certs sig where
    parts: "clip_to_certificate X now next cert_der = Inr next_epoch" "oe_cert_id_from_der K cid = Inr cert_id"
      "live_status K status = Inr cs" "ocsp_time K this = Inr tu" "ocsp_time K next_epoch = Inr nu" "ocsp_time K now = Inr pa"
      "oe_nonce K nonce = Inr n" and
    certs: "(case cert_der of None \<Rightarrow> Inr None
      | Some c \<Rightarrow> bindR (map_errR SignDer (certificate_from_der X c)) (\<lambda>cert. Inr (Some [cert]))) = Inr certs" and
    signed: "signer 0 \<lparr>rd_responder_key_hash = rid, rd_responses = [\<lparr>sr_cert_id = cert_id, sr_cert_status = cs, sr_this_update = tu,
          sr_next_update = Some nu\<rparr>], rd_nonce = Some n, rd_certs = certs, rd_produced_at = pa\<rparr> = Inr sig"
      "oe_response_to_der K \<lparr>so_data = \<lparr>rd_responder_key_hash = rid, rd_responses = [\<lparr>sr_cert_id = cert_id, sr_cert_status = cs,
          sr_this_update = tu, sr_next_update = Some nu\<rparr>], rd_nonce = Some n, rd_certs = certs, rd_produced_at = pa\<rparr>,
          so_signature = sig\<rparr> = Inr der"
    using assms window unfolding sign_live_response_with_window_def Let_def
    by (simp only: if_False bindR_eq_Inr map_errR_eq_Inr) blast
  have "this \<le> now \<and> now < next_epoch \<and> next_epoch \<le> next"
    using parts(1) window by (auto simp: clip_to_certificate_Inr not_less not_le split: option.splits)
  moreover have "\<forall>d. cert_der = Some d \<longrightarrow> (\<exists>cert. certificate_from_der X d = Inr cert \<and> certs = Some [cert] \<and>
      ct_not_before cert \<le> now \<and> next_epoch \<le> ct_not_after cert)"
    using parts(1) certs by (auto simp: clip_to_certificate_Inr result_inverts)
  ultimately show ?thesis
    using parts signed by (intro exI conjI) (assumption | auto simp: live_data_ok_def)+
qed

end
