(* ===== verification/Sign_Pipeline.thy ===== *)
theory Sign_Pipeline
  imports Sign_Generate Sign_Live
begin

text \<open>
  From a revocation snapshot to an answer: each certificate of the snapshot that is not pruned has,
  for each CertID the configuration produces, an entry in the bundle whose response names that
  CertID once, with the status and the times of the snapshot.
\<close>

section \<open>Prepared entries\<close>

text \<open>The CertIDs by which a certificate can be asked for.\<close>

definition request_ids :: "ocsp_externals \<Rightarrow> GenerationConfig \<Rightarrow> issuer_hashes \<Rightarrow> bytes \<Rightarrow> SignError + CertId list" where
  "request_ids K config ih serial_number =
     (let sha256 = build_certid K SHA256_OID (ih_name_sha256 ih) (ih_key_sha256 ih) serial_number;
          sha1 = build_certid K SHA1_OID (ih_name_sha1 ih) (ih_key_sha1 ih) serial_number in
      case gn_certid_compat config of
        Sha256Only \<Rightarrow> mapR (\<lambda>x. x) [sha256]
      | Sha1Only \<Rightarrow> mapR (\<lambda>x. x) [sha1]
      | Dual \<Rightarrow> mapR (\<lambda>x. x) [sha256, sha1])"

definition prepared_from ::
    "externals \<Rightarrow> ocsp_externals \<Rightarrow> StatusSnapshot \<Rightarrow> GenerationConfig \<Rightarrow> issuer_hashes \<Rightarrow> DateTime \<Rightarrow> u64
      \<Rightarrow> bytes \<Rightarrow> CertificateStatus \<Rightarrow> PreparedEntry \<Rightarrow> bool" where
  "prepared_from E K snapshot config ih this_update base serial status pe \<longleftrightarrow>
     (\<exists>cs sn source_end next_update cids.
        cert_status K status = Inr cs \<and> oe_serial_number K serial = Inr sn \<and> ss_next_update snapshot = Some source_end \<and>
        ocsp_time K (min (saturating_add_u64 base (entry_jitter E config serial)) source_end) = Inr next_update \<and>
        request_ids K config ih sn = Inr cids \<and> mapR (certid_key E) cids = Inr (pe_entry_keys pe) \<and>
        pe_single_responses pe = map (\<lambda>c. single_response c cs this_update next_update) cids)"

lemma prepare_entry_Inr:
  assumes "prepare_entry E K snapshot config ih tu base (serial, status) = Inr r"
  shows "(case r of None \<Rightarrow> pruned config snapshot serial
    | Some pe \<Rightarrow> \<not> pruned config snapshot serial \<and> prepared_from E K snapshot config ih tu base serial status pe)"
proof (cases "pruned config snapshot serial")
  case True
  then show ?thesis using assms by (auto simp: prepare_entry_def)
next
  case False
  show ?thesis
  proof (cases "gn_certid_compat config")
    case Sha256Only
    then show ?thesis using assms False
      by (simp add: prepare_entry_def Let_def result_inverts) (auto simp: prepared_from_def request_ids_def result_inverts)
  next
    case Sha1Only
    then show ?thesis using assms False
      by (simp add: prepare_entry_def Let_def result_inverts) (auto simp: prepared_from_def request_ids_def result_inverts)
  next
    case Dual
    then show ?thesis using assms False
      by (simp add: prepare_entry_def Let_def result_inverts) (auto simp: prepared_from_def request_ids_def result_inverts)
  qed
qed

lemma list_all2_member: "list_all2 P xs ys \<Longrightarrow> x \<in> set xs \<Longrightarrow> \<exists>y \<in> set ys. P x y"
  by (induction rule: list_all2_induct) auto

lemma list_all2_member2: "list_all2 P xs ys \<Longrightarrow> y \<in> set ys \<Longrightarrow> \<exists>x \<in> set xs. P x y"
  by (induction rule: list_all2_induct) auto

lemma prepare_entries_Inr:
  assumes "prepare_entries E K snapshot config ih tu base = Inr prepared"
  shows "(serial, status) \<in> set (ss_entries snapshot) \<Longrightarrow> \<not> pruned config snapshot serial \<Longrightarrow>
      \<exists>pe \<in> set prepared. prepared_from E K snapshot config ih tu base serial status pe"
    and "pe \<in> set prepared \<Longrightarrow> \<exists>serial status. prepared_from E K snapshot config ih tu base serial status pe"
proof -
  obtain rs where rs: "list_all2 (\<lambda>e r. prepare_entry E K snapshot config ih tu base e = Inr r) (ss_entries snapshot) rs"
    and prepared: "prepared = List.map_filter id rs"
    using assms by (auto simp: prepare_entries_def result_inverts mapR_eq_Inr)
  have members: "pe \<in> set prepared \<longleftrightarrow> Some pe \<in> set rs" for pe
    unfolding prepared by (auto simp: map_filter_def image_iff)
  {
    assume *: "(serial, status) \<in> set (ss_entries snapshot)" "\<not> pruned config snapshot serial"
    then obtain r where r: "r \<in> set rs" "prepare_entry E K snapshot config ih tu base (serial, status) = Inr r"
      using list_all2_member [OF rs] by blast
    obtain pe where "r = Some pe" "prepared_from E K snapshot config ih tu base serial status pe"
      using prepare_entry_Inr [OF r(2)] *(2) by (auto split: option.splits)
    then show "\<exists>pe \<in> set prepared. prepared_from E K snapshot config ih tu base serial status pe"
      using r(1) members by blast
  next
    assume "pe \<in> set prepared"
    then obtain e where "prepare_entry E K snapshot config ih tu base e = Inr (Some pe)"
      using list_all2_member2 [OF rs] members by blast
    then show "\<exists>serial status. prepared_from E K snapshot config ih tu base serial status pe"
      using prepare_entry_Inr [of E K snapshot config ih tu base "fst e" "snd e" "Some pe"] by auto
  }
qed

text \<open>Keys and single responses go together.\<close>

definition keyed :: "externals \<Rightarrow> PreparedEntry \<Rightarrow> bool" where
  "keyed E pe \<longleftrightarrow> mapR (certid_key E) (map sr_cert_id (pe_single_responses pe)) = Inr (pe_entry_keys pe)"

lemma prepared_keyed: "prepared_from E K snapshot config ih tu base serial status pe \<Longrightarrow> keyed E pe"
  by (auto simp: prepared_from_def keyed_def single_response_def comp_def)

lemma mapR_projr: "mapR f xs = Inr ys \<Longrightarrow> ys = map (\<lambda>x. projr (f x)) xs"
  by (induction xs arbitrary: ys) (auto simp: result_inverts)

lemma keyed_distinct:
  assumes "\<forall>pe \<in> set bucket. keyed E pe" and "distinct (concat (map pe_entry_keys bucket))"
  shows "distinct (map sr_cert_id (concat (map pe_single_responses bucket)))"
proof -
  have "pe_entry_keys pe = map (\<lambda>s. projr (certid_key E (sr_cert_id s))) (pe_single_responses pe)" if "pe \<in> set bucket" for pe
    using assms(1) that mapR_projr unfolding keyed_def by fastforce
  then have "concat (map pe_entry_keys bucket)
      = map (\<lambda>c. projr (certid_key E c)) (map sr_cert_id (concat (map pe_single_responses bucket)))"
    by (induction bucket) simp_all
  then show ?thesis using assms(2) distinct_map by metis
qed

section \<open>Looking a certificate up\<close>

lemma entry_map_member:
  assumes "distinct (map (\<lambda>e. record_key (fst e)) es)" and "(r, p) \<in> set es" and "\<not> is_tombstone r"
  shows "entry_map es (record_key r) = Some (Some p)"
proof -
  let ?f = "\<lambda>(r, p). (record_key r, if is_tombstone r then None else Some p)"
  have "map fst (map ?f es) = map (\<lambda>e. record_key (fst e)) es" by (induction es) auto
  then have "distinct (map fst (map ?f es))" by (simp only: assms(1))
  moreover have "(record_key r, Some p) \<in> set (map ?f es)" using assms(2,3) by force
  ultimately show ?thesis unfolding entry_map_def by (rule map_of_is_SomeI)
qed

lemma filter_unique: "distinct (map f xs) \<Longrightarrow> x \<in> set xs \<Longrightarrow> filter (\<lambda>y. f y = f x) xs = [x]"
  by (induction xs) (auto simp: filter_empty_conv image_iff)

lemma extract_signed:
  assumes "response_codec K" and "oe_response_to_der K r = Inr der"
    and "single \<in> set (rd_responses (so_data r))" and "distinct (map sr_cert_id (rd_responses (so_data r)))"
    and "oe_cert_id_from_der K cid_der = Inr (sr_cert_id single)" and "sr_next_update single = Some next"
  shows "extract_status_for_cert K der cid_der =
    Inr \<lparr>ls_status = status_from_single K single, ls_this_update = oe_unix_secs K (sr_this_update single),
         ls_next_update = oe_unix_secs K next\<rparr>"
proof -
  obtain basic where basic: "oe_response_from_der K der = Inr \<lparr>op_successful = True, op_response_bytes = Some (ID_PKIX_OCSP_BASIC, basic)\<rparr>"
    "oe_basic_from_der K basic = Inr (rd_responses (so_data r))"
    using assms(1,2) unfolding response_codec_def by blast
  then show ?thesis
    using filter_unique [OF assms(4,3)] assms(5,6)
    by (simp add: extract_status_for_cert_def parse_basic_def bindR_def map_errR_def ok_orR_def)
qed

lemma request_ids_decode:
  assumes "cert_id_codec K" and "request_ids K config ih sn = Inr cids" and "cid \<in> set cids" and "ci_to_der cid = Inr der"
  shows "oe_cert_id_from_der K der = Inr cid"
proof -
  obtain oid name key where "cid = oe_cert_id K oid name key sn"
    using assms(2,3)
    by (auto simp: request_ids_def build_certid_def Let_def result_inverts split: CertIdCompat.splits)
  then show ?thesis using assms(1,4) unfolding cert_id_codec_def by blast
qed

text \<open>The status a snapshot gives, as it is read back from a response.\<close>

definition live_of :: "CertificateStatus \<Rightarrow> LiveCertStatus" where
  "live_of status = (case status of CertGood \<Rightarrow> LiveGood | CertRevoked t r \<Rightarrow> LiveRevoked t r)"

definition status_in_range :: "CertificateStatus \<Rightarrow> bool" where
  "status_in_range status \<longleftrightarrow> (case status of CertGood \<Rightarrow> True | CertRevoked t _ \<Rightarrow> unat t < 253402300800)"

lemma ocsp_time_back:
  assumes "datetime_new_law (oe_datetime_new K)" and "unix_secs_law K" and "unat t < 253402300800" and "ocsp_time K t = Inr dt"
  shows "oe_unix_secs K dt = t"
  using ocsp_time_secs [OF assms(1-3)] assms(4) by auto

lemma cert_status_back:
  assumes "datetime_new_law (oe_datetime_new K)" and "unix_secs_law K" and "status_in_range status"
    and "cert_status K status = Inr (sr_cert_status single)"
  shows "status_from_single K single = live_of status"
proof (cases status)
  case CertGood
  then have "sr_cert_status single = StatusGood" using assms(4) by (simp add: cert_status_def)
  then show ?thesis using CertGood by (simp add: status_from_single_def live_of_def)
next
  case (CertRevoked t r)
  then obtain dt where "ocsp_time K t = Inr dt" "sr_cert_status single = StatusRevoked dt r"
    using assms(4) by (auto simp: cert_status_def result_inverts dest: sym)
  moreover from this have "oe_unix_secs K dt = t"
    using ocsp_time_back [OF assms(1,2)] assms(3) CertRevoked by (simp add: status_in_range_def)
  ultimately show ?thesis using CertRevoked by (simp add: status_from_single_def live_of_def)
qed

lemma distinct_concat_member: "distinct (concat xss) \<Longrightarrow> xs \<in> set xss \<Longrightarrow> distinct xs"
  by (induction xss) auto

lemma sign_and_add_entries_Inr:
  assumes "sign_and_add_entries K X b prepared bucket_size signer rid cert pa disc = Inr b'"
  shows "bb_manifest b' = bb_manifest b \<and>
    (\<exists>buckets ess. bb_entries b' = bb_entries b @ concat ess \<and> list_all2 (bucket_signed K disc) buckets ess \<and> concat buckets = prepared)"
proof -
  obtain c where "foldR (sign_bucket K signer rid c pa disc) b (enumerate 0 (chunks (max bucket_size 1 - 1) prepared)) = Inr b'"
    using assms unfolding sign_and_add_entries_def bindR_eq_Inr by blast
  from sign_buckets_Inr [OF this] show ?thesis using concat_chunks by blast
qed

text \<open>A prepared entry among buckets that were signed: its keys are answered by its bucket's response.\<close>

lemma bucket_answers:
  assumes signed: "list_all2 (bucket_signed K disc) buckets ess" and keyed: "\<forall>pe \<in> set (concat buckets). keyed E pe"
    and dist: "distinct (map (\<lambda>e. record_key (fst e)) (concat ess))" and pe: "pe \<in> set (concat buckets)"
    and single: "single \<in> set (pe_single_responses pe)" and key: "certid_key E (sr_cert_id single) = Inr k"
  shows "\<exists>r der. oe_response_to_der K r = Inr der \<and> single \<in> set (rd_responses (so_data r)) \<and>
    distinct (map sr_cert_id (rd_responses (so_data r))) \<and> entry_map (concat ess) (k, disc) = Some (Some der)"
proof -
  obtain bucket where "bucket \<in> set buckets" "pe \<in> set bucket" using pe by auto
  then obtain i where i: "i < length buckets" "pe \<in> set (buckets ! i)" by (metis in_set_conv_nth)
  have "bucket_signed K disc (buckets ! i) (ess ! i)" "i < length ess"
    using signed i(1) by (auto simp: list_all2_conv_all_nth)
  then obtain r der where r: "oe_response_to_der K r = Inr der" "rd_responses (so_data r) = concat (map pe_single_responses (buckets ! i))"
    "entries_for (concat (map pe_entry_keys (buckets ! i))) der disc (ess ! i)"
    unfolding bucket_signed_def by blast
  have "k \<in> set (pe_entry_keys pe)"
  proof -
    have "keyed E pe" using keyed pe by blast
    then have "list_all2 (\<lambda>c k. certid_key E c = Inr k) (map sr_cert_id (pe_single_responses pe)) (pe_entry_keys pe)"
      by (simp add: keyed_def mapR_eq_Inr)
    then show ?thesis using list_all2_member [of _ _ _ "sr_cert_id single"] single key by fastforce
  qed
  then have "k \<in> set (concat (map pe_entry_keys (buckets ! i)))" using i(2) by auto
  then have "(k, disc) \<in> set (map (\<lambda>e. record_key (fst e)) (ess ! i))" using r(3) by (auto simp: entries_for_def)
  then obtain e where e: "e \<in> set (ess ! i)" "record_key (fst e) = (k, disc)" by auto
  then have "snd e = der" "\<not> is_tombstone (fst e)" using r(3) by (auto simp: entries_for_def)
  moreover have "e \<in> set (concat ess)" using e(1) nth_mem [OF \<open>i < length ess\<close>] by (simp only: set_concat) blast
  ultimately have "entry_map (concat ess) (k, disc) = Some (Some der)"
    using entry_map_member [OF dist, of "fst e" der] e(2) by (metis prod.collapse)
  moreover have "distinct (map (\<lambda>e. record_key (fst e)) (ess ! i))"
    using distinct_concat_member [OF dist [unfolded map_concat]] \<open>i < length ess\<close> by simp
  then have "distinct (concat (map pe_entry_keys (buckets ! i)))"
    using r(3) unfolding entries_for_def by (metis distinct_map)
  then have "distinct (map sr_cert_id (rd_responses (so_data r)))"
    unfolding r(2) using keyed nth_mem [OF i(1)] by (intro keyed_distinct [where E = E]) (simp_all only: set_concat, blast)
  moreover have "single \<in> set (rd_responses (so_data r))" unfolding r(2) set_concat set_map using single i(2) by blast
  ultimately show ?thesis using r(1) by blast
qed

lemma prepared_answer:
  assumes signed: "list_all2 (bucket_signed K disc) buckets ess" and keyed: "\<forall>pe \<in> set (concat buckets). keyed E pe"
    and dist: "distinct (map (\<lambda>e. record_key (fst e)) (concat ess))" and pe: "pe \<in> set (concat buckets)"
    and single: "single_response cid cs tu nu \<in> set (pe_single_responses pe)" and key: "certid_key E cid = Inr k"
    and codec: "response_codec K" and decode: "\<And>d. ci_to_der cid = Inr d \<Longrightarrow> oe_cert_id_from_der K d = Inr cid"
  shows "\<exists>cid_der der. ci_to_der cid = Inr cid_der \<and> entry_map (concat ess) (sha256 E cid_der, disc) = Some (Some der) \<and>
    extract_status_for_cert K der cid_der = Inr \<lparr>ls_status = status_from_single K (single_response cid cs tu nu),
      ls_this_update = oe_unix_secs K tu, ls_next_update = oe_unix_secs K nu\<rparr>"
proof -
  let ?single = "single_response cid cs tu nu"
  have id: "sr_cert_id ?single = cid" "sr_this_update ?single = tu" "sr_next_update ?single = Some nu"
    by (simp_all add: single_response_def)
  obtain cid_der where cid_der: "ci_to_der cid = Inr cid_der" "k = sha256 E cid_der"
    using key by (auto simp: certid_key_def result_inverts)
  have "certid_key E (sr_cert_id ?single) = Inr k" using key id(1) by simp
  then obtain r der where r: "oe_response_to_der K r = Inr der" "?single \<in> set (rd_responses (so_data r))"
      "distinct (map sr_cert_id (rd_responses (so_data r)))" "entry_map (concat ess) (k, disc) = Some (Some der)"
    using bucket_answers [OF signed keyed dist pe single] by blast
  have "extract_status_for_cert K der cid_der = Inr \<lparr>ls_status = status_from_single K ?single,
      ls_this_update = oe_unix_secs K tu, ls_next_update = oe_unix_secs K nu\<rparr>"
    using extract_signed [OF codec r(1-3)] decode [OF cid_der(1)] id by simp
  then show ?thesis using cid_der r(4) by blast
qed

section \<open>Producing a bundle\<close>

lemma source_window_Inr:
  assumes "source_window clock snapshot config = Inr (source_end, base)"
  shows "ss_next_update snapshot = Some source_end \<and> base \<le> source_end \<and> ss_this_update snapshot < source_end \<and>
    (\<exists>t. checked_add_u64 (ss_this_update snapshot) (gn_validity_secs config) = Some t \<and> base = min t source_end) \<and>
    (\<exists>now. clock 1 = Some now \<and> now < base)"
  using assms
  by (auto simp: source_window_def Let_def result_inverts validate_at_Inr unix_now_def not_le split: if_splits)

lemma produce_builder_Inr:
  assumes "produce_builder E K X clock ca snapshot config signer cert = Inr b"
  obtains source_end base tu prepared buckets ess wp where
    "source_window clock snapshot config = Inr (source_end, base)" "ocsp_time K (ss_this_update snapshot) = Inr tu"
    "prepare_entries E K snapshot config (hash_issuer E K ca) tu base = Inr prepared"
    "bb_entries b = concat ess" "list_all2 (bucket_signed K 0) buckets ess" "concat buckets = prepared"
    "mf_window (bb_manifest b) = produced_window snapshot config wp source_end base"
proof -
  obtain source_end base tu prepared scopes created rid pa wp where
    parts: "source_window clock snapshot config = Inr (source_end, base)" "ocsp_time K (ss_this_update snapshot) = Inr tu"
      "prepare_entries E K snapshot config (hash_issuer E K ca) tu base = Inr prepared" and
    signed: "sign_and_add_entries K X (builder_new (produced_manifest config scopes created
        (produced_window snapshot config wp source_end base))) prepared (gn_bucket_size config) signer rid cert pa 0 = Inr b"
    using assms unfolding produce_builder_def Let_def
    by (simp only: bindR_eq_Inr map_errR_eq_Inr split_paired_Ex prod.case) blast
  obtain buckets ess where "bb_entries b = concat ess" "list_all2 (bucket_signed K 0) buckets ess" "concat buckets = prepared"
    "mf_window (bb_manifest b) = produced_window snapshot config wp source_end base"
    using sign_and_add_entries_Inr [OF signed] by (auto simp: builder_new_def produced_manifest_def)
  then show thesis using parts that by blast
qed

lemma produced_answers:
  assumes built: "produce_builder E K X clock ca snapshot config signer cert = Inr b" and wf: "wf_builder E b"
    and codecs: "response_codec K" "cert_id_codec K" and times: "datetime_new_law (oe_datetime_new K)" "unix_secs_law K"
    and entry: "(serial, status) \<in> set (ss_entries snapshot)" "\<not> pruned config snapshot serial" "status_in_range status"
    and limit: "\<forall>e. ss_next_update snapshot = Some e \<longrightarrow> unat e < 253402300800"
  shows "\<exists>sn cids. oe_serial_number K serial = Inr sn \<and> request_ids K config (hash_issuer E K ca) sn = Inr cids \<and>
    (\<forall>cid \<in> set cids. \<exists>cid_der der src. ci_to_der cid = Inr cid_der \<and>
       entry_map (bb_entries b) (sha256 E cid_der, 0) = Some (Some der) \<and>
       extract_status_for_cert K der cid_der = Inr src \<and> ls_status src = live_of status \<and>
       ls_this_update src = ss_this_update snapshot \<and> w_next_update_min (mf_window (bb_manifest b)) \<le> ls_next_update src \<and>
       ss_next_update snapshot \<noteq> None \<and> ls_next_update src \<le> the (ss_next_update snapshot))"
proof -
  obtain source_end base tu prepared buckets ess wp where
    parts: "source_window clock snapshot config = Inr (source_end, base)" "ocsp_time K (ss_this_update snapshot) = Inr tu"
      "prepare_entries E K snapshot config (hash_issuer E K ca) tu base = Inr prepared"
      "bb_entries b = concat ess" "list_all2 (bucket_signed K 0) buckets ess" "concat buckets = prepared"
      "mf_window (bb_manifest b) = produced_window snapshot config wp source_end base"
    using built by (rule produce_builder_Inr)
  note window = source_window_Inr [OF parts(1)]
  obtain pe where pe: "pe \<in> set prepared" "prepared_from E K snapshot config (hash_issuer E K ca) tu base serial status pe"
    using prepare_entries_Inr(1) [OF parts(3) entry(1,2)] by blast
  let ?t = "min (saturating_add_u64 base (entry_jitter E config serial)) source_end"
  obtain cs sn next_update cids where p: "cert_status K status = Inr cs" "oe_serial_number K serial = Inr sn"
      "ocsp_time K ?t = Inr next_update" "request_ids K config (hash_issuer E K ca) sn = Inr cids"
      "mapR (certid_key E) cids = Inr (pe_entry_keys pe)"
      "pe_single_responses pe = map (\<lambda>c. single_response c cs tu next_update) cids"
  proof -
    obtain cs sn se next_update cids where "cert_status K status = Inr cs" "oe_serial_number K serial = Inr sn"
      "ss_next_update snapshot = Some se" "ocsp_time K (min (saturating_add_u64 base (entry_jitter E config serial)) se) = Inr next_update"
      "request_ids K config (hash_issuer E K ca) sn = Inr cids" "mapR (certid_key E) cids = Inr (pe_entry_keys pe)"
      "pe_single_responses pe = map (\<lambda>c. single_response c cs tu next_update) cids"
      using pe(2) unfolding prepared_from_def by (elim exE conjE) (rule that; assumption)
    moreover from this have "se = source_end" using window by simp
    ultimately show thesis by (intro that) simp_all
  qed
  have t: "base \<le> ?t" "?t \<le> source_end"
    using window saturating_add_le [of base] by (simp_all only: min.bounded_iff min.cobounded2)
  have "unat source_end < 253402300800" using limit window by blast
  moreover have "unat ?t \<le> unat source_end" "unat (ss_this_update snapshot) < unat source_end"
    using t(2) window unfolding word_le_nat_alt word_less_nat_alt by blast+
  ultimately have small: "unat ?t < 253402300800" "unat (ss_this_update snapshot) < 253402300800" by linarith+
  have keyed: "\<forall>pe \<in> set (concat buckets). keyed E pe"
    using prepare_entries_Inr(2) [OF parts(3)] parts(6) prepared_keyed by blast
  have dist: "distinct (map (\<lambda>e. record_key (fst e)) (concat ess))" using wf parts(4) by (simp add: wf_builder_def)
  have "\<exists>cid_der der src. ci_to_der cid = Inr cid_der \<and>
       entry_map (bb_entries b) (sha256 E cid_der, 0) = Some (Some der) \<and>
       extract_status_for_cert K der cid_der = Inr src \<and> ls_status src = live_of status \<and>
       ls_this_update src = ss_this_update snapshot \<and> w_next_update_min (mf_window (bb_manifest b)) \<le> ls_next_update src \<and>
       ss_next_update snapshot \<noteq> None \<and> ls_next_update src \<le> the (ss_next_update snapshot)" if cid: "cid \<in> set cids" for cid
  proof -
    let ?single = "single_response cid cs tu next_update"
    obtain k where k: "certid_key E cid = Inr k" using list_all2_member [OF p(5) [unfolded mapR_eq_Inr] cid] by blast
    have single: "?single \<in> set (pe_single_responses pe)" using p(6) cid by simp
    obtain cid_der der where der: "ci_to_der cid = Inr cid_der" "entry_map (concat ess) (sha256 E cid_der, 0) = Some (Some der)"
      "extract_status_for_cert K der cid_der = Inr \<lparr>ls_status = status_from_single K ?single,
        ls_this_update = oe_unix_secs K tu, ls_next_update = oe_unix_secs K next_update\<rparr>"
      using prepared_answer [OF parts(5) keyed dist pe(1) [folded parts(6)] single k codecs(1)]
        request_ids_decode [OF codecs(2) p(4) cid] by blast
    have "status_from_single K ?single = live_of status"
      using cert_status_back [OF times entry(3)] p(1) by (simp add: single_response_def)
    moreover have "oe_unix_secs K tu = ss_this_update snapshot" "oe_unix_secs K next_update = ?t"
      using ocsp_time_back [OF times small(2) parts(2)] ocsp_time_back [OF times small(1) p(3)] by simp_all
    moreover have "w_next_update_min (mf_window (bb_manifest b)) \<le> ?t" "ss_next_update snapshot \<noteq> None"
      "?t \<le> the (ss_next_update snapshot)"
      using parts(7) t window by (simp_all add: produced_window_def)
    ultimately show ?thesis
      using der unfolding parts(4) by (intro exI conjI) (assumption | simp)+
  qed
  then show ?thesis using p(2,4) by blast
qed

lemma build_lookup:
  assumes "wf_builder E b" and "sha256_length E" and "uuid_16 E"
    and "cbor_roundtrip E (manifest_to_val (built_manifest E b))" and "length (to_cbor E (built_manifest E b)) < 2 ^ 32"
    and "\<forall>seal. seal_fn (to_cbor E (built_manifest E b)) = Inr seal \<longrightarrow> length seal < 2 ^ 32"
    and "build E seal_fn b = Inr out" and "vec_fits out"
  shows "\<exists>bundle. from_bytes E out = Inr bundle \<and> mf_window (b_manifest bundle) = mf_window (bb_manifest b) \<and>
    (\<forall>k d. entry_map (bb_entries b) (k, 0) = Some (Some d) \<longrightarrow> lookup_preferred bundle k [] = Some d)"
proof -
  obtain seal where seal: "seal_fn (to_cbor E (built_manifest E b)) = Inr seal"
    using assms(7) by (auto simp: build_def built_manifest_def built_layout_def Let_def result_inverts)
  then have len: "length seal < 2 ^ 32" using assms(6) by blast
  let ?B = "built_bundle E b seal"
  note fits = build_layout_fits [OF assms(1,7,8)]
  have "sorted_index (b_index ?B)"
    using built_index_sorted [OF assms(1) fits] by (simp add: built_bundle_def Let_def)
  then have "lookup_preferred ?B k [] = opt_join (preferred_record (entry_map (bb_entries b)) k [])" for k
    by (simp add: lookup_preferred_bundle_map built_bundle_map [OF assms(1) fits])
  then have "entry_map (bb_entries b) (k, 0) = Some (Some d) \<Longrightarrow> lookup_preferred ?B k [] = Some d" for k d
    by (simp add: preferred_record_def opt_join_def ALG_DISC_DEFAULT_def)
  moreover have "mf_window (b_manifest ?B) = mf_window (bb_manifest b)"
    by (simp add: built_bundle_def built_manifest_def finish_manifest_def Let_def)
  ultimately show ?thesis using from_bytes_build [OF assms(1-5) seal len assms(7,8)] by blast
qed

end
