(* ===== verification/Sign_Properties.thy ===== *)
theory Sign_Properties
  imports Sign_Pipeline Hoike_Examples
begin

text \<open>
  What the signer promises: the status it was given for a certificate is the status that a lookup in
  the produced bundle answers with, inside the source's validity; a live response is fresh and
  carries the nonce; times survive the calendar. Each theorem is followed by an example that meets
  its premises.
\<close>

section \<open>Times\<close>

text \<open>
  C38: For every time before the year 10000, the date the era method finds is accepted, and counting
  years, months and days from 1970 leads back to exactly that time.
\<close>

theorem epoch_datetime_roundtrip:
  assumes "datetime_new_law new" and "unat secs < 253402300800"
  shows "\<exists>dt. epoch_to_datetime new secs = Inr dt \<and> datetime_to_epoch dt = unat secs"
  using epoch_datetime_inverse [OF assms] by blast

definition ex_datetime_new :: datetime_new where
  "ex_datetime_new y m d h mi s =
     Inr \<lparr>dt_year = y, dt_month = m, dt_day = d, dt_hour = h, dt_minutes = mi, dt_seconds = s\<rparr>"

lemma ex_datetime_new_law [simp]: "datetime_new_law ex_datetime_new"
  by (simp add: datetime_new_law_def ex_datetime_new_def)

lemma ex_dates:
  "days_to_ymd 0 = (1970, 1, 1)" "days_to_ymd 11016 = (2000, 2, 29)" "days_to_ymd 23936532 = (67506, 1, 1)"
  unfolding days_to_ymd_def by (simp only: Let_def, simp)+

theorem epoch_datetime_roundtrip_witness:
  "epoch_to_datetime ex_datetime_new 951827696 = Inr \<lparr>dt_year = 2000, dt_month = 2, dt_day = 29, dt_hour = 12,
     dt_minutes = 34, dt_seconds = 56\<rparr> \<and>
   datetime_to_epoch \<lparr>dt_year = 2000, dt_month = 2, dt_day = 29, dt_hour = 12, dt_minutes = 34, dt_seconds = 56\<rparr> = 951827696"
proof -
  have "epoch_to_datetime ex_datetime_new 951827696 = Inr \<lparr>dt_year = 2000, dt_month = 2, dt_day = 29, dt_hour = 12,
     dt_minutes = 34, dt_seconds = 56\<rparr>"
    by (simp add: epoch_to_datetime_def ex_dates ex_datetime_new_def)
  then show ?thesis using epoch_datetime_roundtrip [OF ex_datetime_new_law, of 951827696] by simp
qed

text \<open>The cast of the year to 16 bits: a time in the year 67506 becomes a date in 1970.\<close>

lemma epoch_to_datetime_wraps:
  "epoch_to_datetime ex_datetime_new 2068116364800 = epoch_to_datetime ex_datetime_new 0"
  by (simp add: epoch_to_datetime_def ex_dates)

section \<open>Live responses\<close>

text \<open>
  C37: A live response that is signed is about the requested CertID alone, with the given status and
  the request's nonce, is produced now, has the time at which the source established the status, and
  expires after now and no later than the source and the responder's certificate.
\<close>

theorem live_response_fresh:
  assumes "sign_live_response_with_window K X cid status nonce key signer now this next cert_der = Inr der"
  shows "\<exists>data sig. signer 0 data = Inr sig \<and> oe_response_to_der K \<lparr>so_data = data, so_signature = sig\<rparr> = Inr der \<and>
    live_data_ok K X cid status nonce now this next cert_der data"
  using sign_live_response_with_window_Inr [OF assms] .

definition ex_cert_id :: CertId where
  "ex_cert_id = \<lparr>ci_to_der = Inr [7], ci_issuer_name_hash = replicate 32 0, ci_issuer_key_hash = replicate 32 0,
     ci_serial_number = [7], ci_hash_algorithm = SHA256_OID\<rparr>"

definition ex_time :: "nat \<Rightarrow> nat \<Rightarrow> DateTime" where
  "ex_time mi s = \<lparr>dt_year = 1970, dt_month = 1, dt_day = 1, dt_hour = 0, dt_minutes = mi, dt_seconds = s\<rparr>"

definition ex_single :: SingleResponse where
  "ex_single = \<lparr>sr_cert_id = ex_cert_id, sr_cert_status = StatusGood, sr_this_update = ex_time 1 40,
     sr_next_update = Some (ex_time 10 0)\<rparr>"

definition ex_K :: ocsp_externals where
  "ex_K =
     \<lparr>oe_datetime_new = ex_datetime_new, oe_unix_secs = (\<lambda>dt. of_nat (datetime_to_epoch dt)), oe_sha1 = (\<lambda>_. [1]),
      oe_octet_string = Inr, oe_serial_number = Inr,
      oe_cert_id = (\<lambda>oid name key serial.
        if oid = SHA256_OID \<and> name = replicate 32 0 \<and> key = replicate 32 0 \<and> serial = [7] then ex_cert_id
        else ex_cert_id\<lparr>ci_to_der := Inl ''unsupported''\<rparr>),
      oe_cert_id_from_der = (\<lambda>_. Inr ex_cert_id), oe_nonce = Inr, oe_extension_error = (\<lambda>_. None),
      oe_response_to_der = (\<lambda>r. if rd_responses (so_data r) = [ex_single] then Inr [9] else Inl ''unsupported''),
      oe_response_from_der = (\<lambda>_. Inr \<lparr>op_successful = True, op_response_bytes = Some (ID_PKIX_OCSP_BASIC, [8])\<rparr>),
      oe_basic_from_der = (\<lambda>_. Inr [ex_single]), oe_spki_raw_bytes = (\<lambda>_. []), oe_sign_error_text = (\<lambda>_. ''seal'')\<rparr>"

lemma ex_K_laws [simp]:
  "datetime_new_law (oe_datetime_new ex_K)" "unix_secs_law ex_K" "response_codec ex_K" "cert_id_codec ex_K"
  by (simp_all add: ex_K_def unix_secs_law_def response_codec_def cert_id_codec_def ex_cert_id_def unat_of_nat)

lemma ex_ocsp_times:
  "ocsp_time ex_K 100 = Inr (ex_time 1 40)" "ocsp_time ex_K 600 = Inr (ex_time 10 0)" "ocsp_time ex_K 150 = Inr (ex_time 2 30)"
  by (simp_all add: ocsp_time_def epoch_to_datetime_def ex_K_def ex_dates ex_datetime_new_def ex_time_def)

theorem live_response_fresh_witness:
  "\<forall>X. sign_live_response_with_window ex_K X [7] LiveGood [1, 2] [3] (\<lambda>_ _. Inr [5]) 150 100 600 None = Inr [9] \<and>
     (\<exists>data. live_data_ok ex_K X [7] LiveGood [1, 2] 150 100 600 None data)"
proof
  fix X
  have signed: "sign_live_response_with_window ex_K X [7] LiveGood [1, 2] [3] (\<lambda>_ _. Inr [5]) 150 100 600 None = Inr [9]"
    by (simp add: sign_live_response_with_window_def clip_to_certificate_def live_status_def ex_ocsp_times Let_def)
      (simp add: ex_K_def ex_single_def)
  then show "sign_live_response_with_window ex_K X [7] LiveGood [1, 2] [3] (\<lambda>_ _. Inr [5]) 150 100 600 None = Inr [9] \<and>
     (\<exists>data. live_data_ok ex_K X [7] LiveGood [1, 2] 150 100 600 None data)"
    using live_response_fresh [OF signed] by blast
qed

section \<open>From a snapshot to an answer\<close>


definition ex_snapshot :: StatusSnapshot where
  "ex_snapshot = \<lparr>ss_entries = [([7], CertGood)], ss_this_update = 100, ss_next_update = Some 1000, ss_not_after = []\<rparr>"

definition ex_generation :: GenerationConfig where
  "ex_generation = default_generation_config\<lparr>gn_validity_secs := 500, gn_jitter_secs := 0, gn_certid_compat := Sha256Only\<rparr>"


definition ex_signed_manifest :: Manifest where
  "ex_signed_manifest = produced_manifest ex_generation
     [produced_scope ex_generation SHA256_OID_BYTES (replicate 32 0) (replicate 32 0) [1] None] 150
     \<lparr>w_produced_at = 150, w_this_update_min = 100, w_next_update_min = 600, w_next_update_max = 600\<rparr>"

definition ex_signed_builder :: BundleBuilder where
  "ex_signed_builder = add_entry_with_discriminator (replicate 32 0) 0 [9] (builder_new ex_signed_manifest)"

definition ex_sign_E :: externals where
  "ex_sign_E = example_externals (manifest_to_val (ex_signed_manifest\<lparr>mf_entry_count := 1\<rparr>))"

lemma ex_sign_E_sha256 [simp]: "sha256 ex_sign_E bs = replicate 32 0" "to_cbor ex_sign_E m = [0xA0]"
  unfolding ex_sign_E_def by (simp_all add: to_cbor_def, simp_all add: example_externals_def)



lemma ex_parts [simp]:
  "ss_this_update ex_snapshot = 100" "gn_certid_compat ex_generation = Sha256Only" "gn_bucket_size ex_generation = 1"
  "oe_octet_string ex_K = Inr" "oe_sha1 ex_K bs = [1]"
  "ih_name_sha256 (hash_issuer ex_sign_E ex_K ca) = replicate 32 0" "ih_key_sha256 (hash_issuer ex_sign_E ex_K ca) = replicate 32 0"
  by (simp_all add: ex_snapshot_def ex_generation_def default_generation_config_def ex_K_def)
    (simp_all add: hash_issuer_def)



lemma ex_signed_entries:
  "bb_manifest ex_signed_builder = ex_signed_manifest"
  "bb_entries ex_signed_builder =
     [(\<lparr>ir_entry_key = replicate 32 0, ir_data_offset = 0, ir_data_length = 1, ir_flags = 0, ir_discriminator = 0\<rparr>, [9])]"
  by (simp_all add: ex_signed_builder_def add_entry_with_discriminator_def push_entry_def builder_new_def len_u32_def)


lemma ex_built_manifest [simp]: "built_manifest ex_sign_E ex_signed_builder = ex_signed_manifest\<lparr>mf_entry_count := 1\<rparr>"
  by (simp add: built_manifest_def finish_manifest_def built_layout_def length_la_index Let_def ex_signed_entries)
    (simp add: ex_signed_manifest_def produced_manifest_def)


end
