(* ===== verification/Hoike_Text.thy ===== *)
theory Hoike_Text
  imports Hoike_Prelude
begin

text \<open>
  The string functions of Rust's standard library that several components use. A string is the list
  of the bytes of its UTF-8 encoding, so that its length is the one the code compares.
\<close>

section \<open>Case and white space\<close>

definition ascii_lower :: "char \<Rightarrow> char" where
  "ascii_lower c = (let n = of_char c :: nat in if 65 \<le> n \<and> n \<le> 90 then char_of (n + 32) else c)"

definition eq_ignore_ascii_case :: "string \<Rightarrow> string \<Rightarrow> bool" where
  "eq_ignore_ascii_case s t \<longleftrightarrow> map ascii_lower s = map ascii_lower t"

text \<open>The encodings of the characters with the Unicode property \<^verbatim>\<open>White_Space\<close>.\<close>

definition white_space :: "nat list list" where
  "white_space =
     map (\<lambda>n. [n]) [9, 10, 11, 12, 13, 32] @ [[0xC2, 0x85], [0xC2, 0xA0], [0xE1, 0x9A, 0x80]]
       @ map (\<lambda>n. [0xE2, 0x80, n]) ([0x80..<0x8B] @ [0xA8, 0xA9, 0xAF]) @ [[0xE2, 0x81, 0x9F], [0xE3, 0x80, 0x80]]"

fun strip_leading :: "string list \<Rightarrow> string \<Rightarrow> string" where
  "strip_leading seps [] = []"
| "strip_leading seps (c # cs) =
     (case find (\<lambda>w. w \<noteq> [] \<and> take (length w) (c # cs) = w) seps of
        None \<Rightarrow> c # cs
      | Some w \<Rightarrow> strip_leading seps (drop (length w - 1) cs))"

definition trim :: "string \<Rightarrow> string" where
  "trim s =
     (let seps = map (map char_of) white_space in
      rev (strip_leading (map rev seps) (rev (strip_leading seps s))))"

section \<open>Numbers\<close>

definition is_ascii_digit :: "char \<Rightarrow> bool" where
  "is_ascii_digit c \<longleftrightarrow> (let n = of_char c :: nat in 48 \<le> n \<and> n \<le> 57)"

definition decimal_value :: "string \<Rightarrow> nat" where
  "decimal_value s = foldl (\<lambda>n c. 10 * n + (of_char c - 48)) 0 s"

text \<open>\<^verbatim>\<open>str::parse\<close> for an unsigned type with values below the bound: one leading plus is allowed.\<close>

definition parse_unsigned :: "nat \<Rightarrow> string \<Rightarrow> nat option" where
  "parse_unsigned bound s =
     (let digits = (case s of c # cs \<Rightarrow> if c = CHR ''+'' then cs else s | [] \<Rightarrow> s) in
      if digits = [] \<or> \<not> list_all is_ascii_digit digits \<or> bound \<le> decimal_value digits then None
      else Some (decimal_value digits))"

lemma strip_leading_id:
  "(\<And>w. w \<in> set seps \<Longrightarrow> w \<noteq> [] \<Longrightarrow> s \<noteq> [] \<Longrightarrow> hd w \<noteq> hd s) \<Longrightarrow> strip_leading seps s = s"
proof (cases s)
  case (Cons c cs)
  assume *: "\<And>w. w \<in> set seps \<Longrightarrow> w \<noteq> [] \<Longrightarrow> s \<noteq> [] \<Longrightarrow> hd w \<noteq> hd s"
  have "find (\<lambda>w. w \<noteq> [] \<and> take (length w) (c # cs) = w) seps = None"
    unfolding find_None_iff
  proof (intro notI, elim exE conjE)
    fix w assume w: "w \<in> set seps" "w \<noteq> []" "take (length w) (c # cs) = w"
    then have "hd w = c" by (metis hd_take length_greater_0_conv list.sel(1))
    then show False using * [OF w(1,2)] Cons by simp
  qed
  then show ?thesis using Cons by simp
qed simp

text \<open>A string that starts and ends with an ASCII character other than a space is left as it is.\<close>

definition is_ascii_graphic :: "char \<Rightarrow> bool" where
  "is_ascii_graphic c \<longleftrightarrow> (let n = of_char c :: nat in 33 \<le> n \<and> n \<le> 126)"

lemma white_space_ends:
  assumes "w \<in> set (map (map char_of) white_space)"
  shows "\<not> is_ascii_graphic (hd w)" and "\<not> is_ascii_graphic (last w)"
proof -
  have "\<forall>w \<in> set (map (map char_of) white_space). \<not> is_ascii_graphic (hd w) \<and> \<not> is_ascii_graphic (last w)"
    unfolding white_space_def is_ascii_graphic_def by code_simp
  then show "\<not> is_ascii_graphic (hd w)" "\<not> is_ascii_graphic (last w)" using assms by blast+
qed

lemma trim_graphic:
  assumes "s \<noteq> []" and "is_ascii_graphic (hd s)" and "is_ascii_graphic (last s)"
  shows "trim s = s"
proof -
  let ?seps = "map (map char_of) white_space :: string list"
  have "strip_leading ?seps s = s"
    using white_space_ends(1) assms(2) by (intro strip_leading_id) metis
  moreover have "strip_leading (map rev ?seps) (rev s) = rev s"
  proof (rule strip_leading_id)
    fix w assume "w \<in> set (map rev ?seps)" "w \<noteq> []" "rev s \<noteq> []"
    then obtain v where "v \<in> set ?seps" "w = rev v" by auto
    then show "hd w \<noteq> hd (rev s)" using white_space_ends(2) [of v] assms(3) \<open>w \<noteq> []\<close> \<open>rev s \<noteq> []\<close> by (auto simp: hd_rev)
  qed
  ultimately show ?thesis by (simp add: trim_def Let_def)
qed

end
