(* ===== verification/Sign_Dogtag.thy ===== *)
theory Sign_Dogtag
  imports Sign_Source Core_Storage Btree_Map Hoike_Text "HOL-Library.Char_ord" "HOL-Library.Signed_Division"
begin

text \<open>
  The revocation source that follows a directory server (\<^verbatim>\<open>crates/hoike-sign/src/dogtag_sync.rs\<close>):
  certificate records are read from LDAP entries, folded into a checkpoint by the content
  synchronisation protocol of RFC 4533 or by a full poll, saved together with the cookie, and turned
  into a revocation snapshot. The LDAP client, JSON, big integers and TLS roots are third-party: the
  connection is a record of what the server answers. A panic of the client library's decoders ends
  the thread that synchronises and is the value \<^const>\<open>None\<close>.
\<close>

section \<open>Certificate records\<close>

record StoredRecord =
  sd_serial :: bytes
  sd_revoked :: "(u64 \<times> u32 option) option"
  sd_excluded :: bool
  sd_not_after :: "u64 option"

record SearchEntry =
  sn_attrs :: "(string \<times> string list) list"

text \<open>\<open>dx_parse_decimal\<close> and \<open>dx_to_bytes_be\<close> are those of \<^verbatim>\<open>num_bigint\<close>.\<close>

record number_externals =
  dx_parse_decimal :: "string \<Rightarrow> nat option"
  dx_to_bytes_be :: "nat \<Rightarrow> bytes"

definition crl_reason_from_u32 :: "u32 \<Rightarrow> CrlReason option" where
  "crl_reason_from_u32 code =
     (if code \<in> {0, 1, 2, 3, 4, 5, 6, 8, 9, 10} then Some (unat code) else None)"

definition stored_status :: "StoredRecord \<Rightarrow> CertificateStatus" where
  "stored_status r =
     (case sd_revoked r of
        None \<Rightarrow> CertGood
      | Some (t, code) \<Rightarrow> CertRevoked t (Option.bind code crl_reason_from_u32))"

definition strip_prefix :: "string \<Rightarrow> string \<Rightarrow> string option" where
  "strip_prefix p s = (if starts_with s p then Some (drop (length p) s) else None)"

text \<open>\<^verbatim>\<open>hex::decode\<close> gives at least one byte here, so that the last index is not below zero.\<close>

definition parse_hex_serial :: "externals \<Rightarrow> string \<Rightarrow> bytes option" where
  "parse_hex_serial E hex0 =
     (let hex1 = (case strip_prefix ''0x'' hex0 of
                    Some h \<Rightarrow> h
                  | None \<Rightarrow> (case strip_prefix ''0X'' hex0 of Some h \<Rightarrow> h | None \<Rightarrow> hex0));
          hex2 = (if length hex1 mod 2 \<noteq> 0 then CHR ''0'' # hex1 else hex1) in
      if 40 < length hex2 \<or> hex2 = [] then None
      else case hex_decode E hex2 of
             Inl _ \<Rightarrow> None
           | Inr bs \<Rightarrow>
               let first = (if \<forall>b \<in> set bs. b = 0 then length bs - 1 else length (takeWhile (\<lambda>b. b = 0) bs)) in
               Some (drop first bs))"

definition parse_decimal_serial :: "number_externals \<Rightarrow> string \<Rightarrow> bytes option" where
  "parse_decimal_serial D dec =
     (if dec = [] \<or> 49 < length dec \<or> \<not> list_all is_ascii_digit dec then None
      else Option.bind (dx_parse_decimal D dec) (\<lambda>n.
           let bs = dx_to_bytes_be D n in
           if 20 < length bs then None else if bs = [] then Some [0] else Some bs))"

text \<open>
  The civil date to days, on signed integers far from overflow; all but the first division have a
  non-negative dividend.
\<close>

definition civil_days :: "int \<Rightarrow> int \<Rightarrow> int \<Rightarrow> int" where
  "civil_days year month day =
     (let y = (if month \<le> 2 then year - 1 else year);
          era = (if 0 \<le> y then y else y - 399) sdiv 400;
          yoe = y - era * 400;
          doy = (153 * (if 2 < month then month - 3 else month + 9) + 2) div 5 + day - 1;
          doe = yoe * 365 + yoe div 4 - yoe div 100 + doy in
      era * 146097 + doe - 719468)"

definition parse_generalized_time :: "string \<Rightarrow> u64 option" where
  "parse_generalized_time s0 =
     (let s = trim s0 in
      if 13 \<le> length s \<and> length s \<noteq> 14 \<and> list_all is_ascii_digit s
      then map_option (\<lambda>ms. of_nat (ms div 1000)) (parse_unsigned (2 ^ 64) s)
      else
      let digits = (if s \<noteq> [] \<and> last s = CHR ''Z'' then butlast s else s) in
      if length digits \<noteq> 14 \<or> \<not> list_all is_ascii_digit digits then None
      else
      let num = (\<lambda>a b. int (decimal_value (take (b - a) (drop a digits))));
          year = num 0 4; month = num 4 6; day = num 6 8; hour = num 8 10; minute = num 10 12; sec = num 12 14 in
      if \<not> (1 \<le> month \<and> month \<le> 12) \<or> \<not> (1 \<le> day \<and> day \<le> 31) \<or> 23 < hour \<or> 59 < minute \<or> 60 < sec then None
      else
      let secs = civil_days year month day * 86400 + hour * 3600 + minute * 60 + sec in
      if 0 \<le> secs then Some (of_int secs) else None)"

definition entry_attr :: "SearchEntry \<Rightarrow> string \<Rightarrow> string option" where
  "entry_attr entry name =
     (case find (\<lambda>(k, _). eq_ignore_ascii_case k name) (sn_attrs entry) of
        Some (_, [v]) \<Rightarrow> Some v
      | _ \<Rightarrow> None)"

definition revoked_on :: "string \<Rightarrow> u64 option" where
  "revoked_on s =
     (case map_option of_nat (parse_unsigned (2 ^ 64) s) of
        Some t \<Rightarrow> Some t
      | None \<Rightarrow> parse_generalized_time s)"

definition entry_serial :: "externals \<Rightarrow> number_externals \<Rightarrow> SearchEntry \<Rightarrow> bytes option" where
  "entry_serial E D entry =
     (case Option.bind (entry_attr entry ''cn'') (parse_decimal_serial D) of
        Some serial \<Rightarrow> Some serial
      | None \<Rightarrow>
          Option.bind (entry_attr entry ''serialno'') (\<lambda>s.
            if starts_with s ''0x'' \<or> starts_with s ''0X'' then parse_hex_serial E s else parse_decimal_serial D s))"

definition entry_reason :: "SearchEntry \<Rightarrow> SignError + u32 option" where
  "entry_reason entry =
     (case entry_attr entry ''revReason'' of
        None \<Rightarrow> Inr None
      | Some s \<Rightarrow>
          (case map_option of_nat (parse_unsigned (2 ^ 32) s) of
             Some v \<Rightarrow> if crl_reason_from_u32 v \<noteq> None then Inr (Some v) else Inl (SignConfig ''invalid revocation reason'')
           | None \<Rightarrow> Inl (SignConfig ''invalid revocation reason'')))"

definition parse_cert_entry :: "externals \<Rightarrow> number_externals \<Rightarrow> SearchEntry \<Rightarrow> SignError + StoredRecord option" where
  "parse_cert_entry E D entry =
     bindR (ok_orR (SignConfig ''missing or invalid certificate serial'') (entry_serial E D entry)) (\<lambda>serial.
     bindR (ok_orR (SignConfig ''missing certificate status'') (entry_attr entry ''certStatus'')) (\<lambda>status.
     let not_after = Option.bind (entry_attr entry ''notAfter'') parse_generalized_time in
     if status = ''VALID''
     then Inr (Some \<lparr>sd_serial = serial, sd_revoked = None, sd_excluded = False, sd_not_after = not_after\<rparr>)
     else if status = ''INVALID'' \<or> status = ''EXPIRED''
     then Inr (Some \<lparr>sd_serial = serial, sd_revoked = None, sd_excluded = True, sd_not_after = not_after\<rparr>)
     else if status = ''REVOKED'' \<or> status = ''REVOKED_EXPIRED''
     then
       bindR (ok_orR (SignConfig ''missing or invalid revocation time'')
                (Option.bind (entry_attr entry ''revokedOn'') revoked_on)) (\<lambda>t.
       bindR (entry_reason entry) (\<lambda>code.
       Inr (Some \<lparr>sd_serial = serial, sd_revoked = Some (t div 1000, code), sd_excluded = False,
                  sd_not_after = not_after\<rparr>)))
     else Inl (SignConfig ''unknown certificate status'')))"

section \<open>Checkpoints\<close>

record Checkpoint =
  ck_version :: u32
  ck_binding :: string
  ck_cookie :: "bytes option"
  ck_records :: "(string, StoredRecord) btree"
  ck_complete :: bool

definition checkpoint_default :: Checkpoint where
  "checkpoint_default = \<lparr>ck_version = 0, ck_binding = '''', ck_cookie = None, ck_records = [], ck_complete = False\<rparr>"

datatype EntryState = EntryPresent | EntryAdd | EntryModify | EntryDelete

record SyncState =
  sy_state :: EntryState
  sy_entry_uuid :: bytes
  sy_cookie :: "bytes option"

datatype SyncInfo =
    NewCookie bytes
  | RefreshDelete "bytes option"
  | RefreshPresent "bytes option"
  | SyncIdSet "bytes option" bool "bytes list"

record SyncDone =
  dn_cookie :: "bytes option"
  dn_refresh_deletes :: bool

text \<open>A checkpoint being refreshed, and the identifiers known to be present.\<close>

type_synonym staged = "Checkpoint \<times> string set"

definition set_cookie :: "bytes option \<Rightarrow> Checkpoint \<Rightarrow> Checkpoint" where
  "set_cookie c ck = (if c \<noteq> None then ck\<lparr>ck_cookie := c\<rparr> else ck)"

definition apply_entry :: "externals \<Rightarrow> SyncState \<Rightarrow> StoredRecord option \<Rightarrow> staged \<Rightarrow> SignError + staged" where
  "apply_entry E state record_opt = (\<lambda>(ck, present).
     if length (sy_entry_uuid state) \<noteq> 16 then Inl (SignConfig ''invalid sync UUID'')
     else
     let id = hex_encode E (sy_entry_uuid state);
         ck1 = set_cookie (sy_cookie state) ck in
     case sy_state state of
       EntryDelete \<Rightarrow> Inr (ck1\<lparr>ck_records := bt_remove id (ck_records ck1)\<rparr>, present)
     | EntryPresent \<Rightarrow>
         if bt_get (ck_records ck1) id = None then Inl (SignConfig ''present UUID absent from checkpoint'')
         else Inr (ck1, insert id present)
     | _ \<Rightarrow>
         bindR (ok_orR (SignConfig ''sync update has no parsed record'') record_opt) (\<lambda>r.
         Inr (ck1\<lparr>ck_records := bt_insert id r (ck_records ck1)\<rparr>, insert id present)))"

definition finish :: "staged \<Rightarrow> bool \<Rightarrow> SignError + Checkpoint" where
  "finish = (\<lambda>(ck, present) refresh_deletes.
     let records = (if refresh_deletes then ck_records ck else filter (\<lambda>(id, _). id \<in> present) (ck_records ck)) in
     if \<not> distinct (map (sd_serial \<circ> snd) records)
     then Inl (SignConfig ''duplicate certificate serial in source'')
     else Inr (ck\<lparr>ck_records := records, ck_complete := True\<rparr>))"

section \<open>The protocol\<close>

text \<open>
  What arrives on a search: an intermediate message, or an entry with its controls. \<^const>\<open>None\<close> is a
  message that the client library cannot decode.
\<close>

datatype ldap_message =
    Intermediate "SyncInfo option"
  | LdapEntry "(oid \<times> SyncState option) list" "SearchEntry option"

record LdapResult =
  sq_rc :: nat
  sq_ctrls :: "(oid \<times> SyncDone option) list"

record LdapConn =
  lc_bind :: "string \<Rightarrow> string \<Rightarrow> string option"
  lc_sync :: "bytes \<Rightarrow> string \<Rightarrow> string \<Rightarrow> string + (string + ldap_message) list \<times> LdapResult"
  lc_search :: "string \<Rightarrow> string \<Rightarrow> string + SearchEntry option list"

record SyncConfig =
  dc_ldap_url :: string
  dc_base_dn :: string
  dc_bind_dn :: string
  dc_bind_password :: string
  dc_cookie_path :: path
  dc_filter :: string
  dc_tls :: string
  dc_ca_cert :: "path option"

definition sync_attrs :: "string list" where
  "sync_attrs = [''cn'', ''serialno'', ''certStatus'', ''revokedOn'', ''revReason'', ''notAfter'']"

text \<open>
  Third-party code: \<open>lx_connect n\<close> is the \<open>n\<close>-th connection attempt, with or without StartTLS and with
  the given roots or the platform's; \<open>lx_uuid\<close> the name part of the temporary file.
\<close>

record ldap_externals =
  lx_connect :: "nat \<Rightarrow> bool \<Rightarrow> bytes list option \<Rightarrow> string \<Rightarrow> string + LdapConn"
  lx_sync_request :: "bytes option \<Rightarrow> bytes"
  lx_pem_certs :: "bytes \<Rightarrow> (string + bytes) list"
  lx_add_root :: "bytes \<Rightarrow> string option"
  lx_protocol_error :: "string option"
  lx_numbers :: number_externals
  lx_checkpoint_to_json :: "Checkpoint \<Rightarrow> string + bytes"
  lx_checkpoint_from_json :: "bytes \<Rightarrow> string + Checkpoint"
  lx_binding_json :: "string \<times> string \<times> string \<times> string \<times> string \<times> path option \<times> string list \<times> bytes \<times> bytes \<Rightarrow> bytes"
  lx_uuid :: string

definition SYNC_STATE_OID :: oid where "SYNC_STATE_OID = ''1.3.6.1.4.1.4203.1.9.1.2''"
definition SYNC_DONE_OID :: oid where "SYNC_DONE_OID = ''1.3.6.1.4.1.4203.1.9.1.3''"

fun add_roots :: "ldap_externals \<Rightarrow> path \<Rightarrow> (string + bytes) list \<Rightarrow> SignError + bytes list" where
  "add_roots L ca_path [] = Inr []"
| "add_roots L ca_path (Inl e # cs) = Inl (SignConfig (''parsing LDAP CA '' @ show_path ca_path @ '': '' @ e))"
| "add_roots L ca_path (Inr c # cs) =
     (case lx_add_root L c of
        Some e \<Rightarrow> Inl (SignConfig (''adding LDAP CA anchor: '' @ e))
      | None \<Rightarrow> bindR (add_roots L ca_path cs) (\<lambda>roots. Inr (c # roots)))"

definition client_config_with_ca :: "ldap_externals \<Rightarrow> fs \<Rightarrow> path \<Rightarrow> SignError + bytes list" where
  "client_config_with_ca L s ca_path =
     bindR (ok_orR (SignConfig (''opening LDAP CA '' @ show_path ca_path)) (fs_files s ca_path)) (\<lambda>pem.
     bindR (add_roots L ca_path (lx_pem_certs L pem)) (\<lambda>roots.
     if roots = [] then Inl (SignConfig (''no certificates found in LDAP CA '' @ show_path ca_path))
     else case lx_protocol_error L of
            Some e \<Rightarrow> Inl (SignConfig (''LDAP TLS protocol setup: '' @ e))
          | None \<Rightarrow> Inr roots))"

definition ldap_connect :: "ldap_externals \<Rightarrow> fs \<Rightarrow> nat \<Rightarrow> SyncConfig \<Rightarrow> SignError + LdapConn" where
  "ldap_connect L s n cfg =
     bindR (if dc_tls cfg = ''starttls'' then Inr True
            else if dc_tls cfg = ''ldaps''
            then if starts_with (dc_ldap_url cfg) ''ldaps://'' then Inr False
                 else Inl (SignConfig (''dogtag-sync tls=ldaps requires an ldaps:// URL, got '' @ dc_ldap_url cfg))
            else if dc_tls cfg = ''none'' then Inr False
            else Inl (SignConfig (''dogtag-sync: invalid tls mode '' @ dc_tls cfg @ '' (expected ldaps|starttls|none)''))) (\<lambda>starttls.
     bindR (case dc_ca_cert cfg of
              None \<Rightarrow> Inr None
            | Some ca_path \<Rightarrow> bindR (client_config_with_ca L s ca_path) (\<lambda>roots. Inr (Some roots))) (\<lambda>roots.
     map_errR (\<lambda>e. SignConfig (''LDAP connect '' @ dc_ldap_url cfg @ '': '' @ e))
       (lx_connect L n starttls roots (dc_ldap_url cfg))))"

definition simple_bind :: "SyncConfig \<Rightarrow> LdapConn \<Rightarrow> SignError + unit" where
  "simple_bind cfg conn =
     (case lc_bind conn (dc_bind_dn cfg) (dc_bind_password cfg) of
        Some e \<Rightarrow> Inl (SignConfig (''LDAP bind: '' @ e))
      | None \<Rightarrow> Inr ())"

definition apply_id_set :: "externals \<Rightarrow> bool \<Rightarrow> bytes list \<Rightarrow> staged \<Rightarrow> SignError + staged" where
  "apply_id_set E refresh_deletes uuids st =
     foldR (\<lambda>(ck, present) uuid.
       if length uuid \<noteq> 16 then Inl (SignConfig ''invalid sync UUID'')
       else
       let id = hex_encode E uuid in
       if refresh_deletes then Inr (ck\<lparr>ck_records := bt_remove id (ck_records ck)\<rparr>, present)
       else Inr (ck, insert id present)) st uuids"

definition apply_info :: "externals \<Rightarrow> SyncInfo \<Rightarrow> staged \<Rightarrow> SignError + staged" where
  "apply_info E info = (\<lambda>(ck, present).
     case info of
       NewCookie c \<Rightarrow> Inr (ck\<lparr>ck_cookie := Some c\<rparr>, present)
     | RefreshDelete c \<Rightarrow> Inr (set_cookie c ck, present)
     | RefreshPresent c \<Rightarrow> Inr (set_cookie c ck, present)
     | SyncIdSet c refresh_deletes uuids \<Rightarrow> apply_id_set E refresh_deletes uuids (set_cookie c ck, present))"

text \<open>One message of the search.\<close>

definition apply_message ::
    "externals \<Rightarrow> number_externals \<Rightarrow> ldap_message \<Rightarrow> staged \<Rightarrow> (SignError + staged) option" where
  "apply_message E D msg st =
     (case msg of
        Intermediate None \<Rightarrow> None
      | Intermediate (Some info) \<Rightarrow> Some (apply_info E info st)
      | LdapEntry ctrls entry \<Rightarrow>
          (case filter (\<lambda>(oid, _). oid = SYNC_STATE_OID) ctrls of
             [(_, None)] \<Rightarrow> None
           | [(_, Some state)] \<Rightarrow>
               if sy_state state = EntryAdd \<or> sy_state state = EntryModify
               then case entry of
                      None \<Rightarrow> None
                    | Some e \<Rightarrow> Some (bindR (parse_cert_entry E D e) (\<lambda>r. apply_entry E state r st))
               else Some (apply_entry E state None st)
           | _ \<Rightarrow> Some (Inl (SignConfig ''missing or duplicate Sync State control''))))"

fun sync_loop ::
    "externals \<Rightarrow> number_externals \<Rightarrow> (string + ldap_message) list \<Rightarrow> staged \<Rightarrow> (SignError + staged) option" where
  "sync_loop E D [] st = Some (Inr st)"
| "sync_loop E D (Inl e # msgs) st = Some (Inl (SignConfig (''LDAP stream: '' @ e)))"
| "sync_loop E D (Inr m # msgs) st =
     (case apply_message E D m st of
        None \<Rightarrow> None
      | Some (Inl e) \<Rightarrow> Some (Inl e)
      | Some (Inr st') \<Rightarrow> sync_loop E D msgs st')"

fun poll_loop ::
    "externals \<Rightarrow> number_externals \<Rightarrow> SearchEntry option list \<Rightarrow> staged \<Rightarrow> (SignError + staged) option" where
  "poll_loop E D [] st = Some (Inr st)"
| "poll_loop E D (None # es) st = None"
| "poll_loop E D (Some e # es) (ck, present) =
     (case parse_cert_entry E D e of
        Inl err \<Rightarrow> Some (Inl err)
      | Inr None \<Rightarrow> poll_loop E D es (ck, present)
      | Inr (Some r) \<Rightarrow>
          let id = hex_encode E (sd_serial r) in
          poll_loop E D es (ck\<lparr>ck_records := bt_insert id r (ck_records ck)\<rparr>, insert id present))"

definition opened :: "ldap_externals \<Rightarrow> fs \<Rightarrow> nat \<Rightarrow> SyncConfig \<Rightarrow> SignError + LdapConn" where
  "opened L s n cfg = bindR (ldap_connect L s n cfg) (\<lambda>conn. bindR (simple_bind cfg conn) (\<lambda>_. Inr conn))"

definition do_full_poll ::
    "externals \<Rightarrow> ldap_externals \<Rightarrow> fs \<Rightarrow> nat \<Rightarrow> SyncConfig \<Rightarrow> string \<Rightarrow> (SignError + Checkpoint) option" where
  "do_full_poll E L s n cfg binding =
     (case opened L s n cfg of
        Inl e \<Rightarrow> Some (Inl e)
      | Inr conn \<Rightarrow>
          (case lc_search conn (dc_base_dn cfg) (dc_filter cfg) of
             Inl e \<Rightarrow> Some (Inl (SignConfig (''LDAP search: '' @ e)))
           | Inr entries \<Rightarrow>
               let fresh = checkpoint_default\<lparr>ck_version := 1, ck_binding := binding\<rparr> in
               (case poll_loop E (lx_numbers L) entries (fresh, {}) of
                  None \<Rightarrow> None
                | Some (Inl e) \<Rightarrow> Some (Inl e)
                | Some (Inr st) \<Rightarrow> Some (finish st False))))"

definition start_refresh :: "Checkpoint \<Rightarrow> Checkpoint" where
  "start_refresh ck = (if ck_cookie ck = None then ck\<lparr>ck_records := [], ck_complete := False\<rparr> else ck)"

definition sync_done :: "LdapResult \<Rightarrow> staged \<Rightarrow> (SignError + Checkpoint) option" where
  "sync_done result = (\<lambda>(ck, present).
     case filter (\<lambda>(oid, _). oid = SYNC_DONE_OID) (sq_ctrls result) of
       [(_, None)] \<Rightarrow> None
     | [(_, Some d)] \<Rightarrow> Some (finish (set_cookie (dn_cookie d) ck, present) (dn_refresh_deletes d))
     | _ \<Rightarrow> Some (Inl (SignConfig ''missing or duplicate Sync Done control'')))"

text \<open>Result code 4096 asks for a full refresh; 12 says that the directory does not know the control.\<close>

definition do_sync ::
    "externals \<Rightarrow> ldap_externals \<Rightarrow> fs \<Rightarrow> nat \<Rightarrow> SyncConfig \<Rightarrow> Checkpoint \<Rightarrow> (SignError + Checkpoint) option" where
  "do_sync E L s n cfg staged0 =
     (case opened L s n cfg of
        Inl e \<Rightarrow> Some (Inl e)
      | Inr conn \<Rightarrow>
          let staged1 = start_refresh staged0 in
          (case lc_sync conn (lx_sync_request L (ck_cookie staged1)) (dc_base_dn cfg) (dc_filter cfg) of
             Inl e \<Rightarrow> Some (Inl (SignConfig (''LDAP search: '' @ e)))
           | Inr (msgs, result) \<Rightarrow>
               (case sync_loop E (lx_numbers L) msgs (staged1, {}) of
                  None \<Rightarrow> None
                | Some (Inl e) \<Rightarrow> Some (Inl e)
                | Some (Inr st) \<Rightarrow>
                    if sq_rc result = 4096 then Some (Inl (SignConfig ''syncRefreshRequired''))
                    else if sq_rc result = 12 then do_full_poll E L s (Suc n) cfg (ck_binding (fst st))
                    else if sq_rc result \<noteq> 0 then Some (Inl (SignConfig ''LDAP search completion''))
                    else sync_done result st)))"

section \<open>Refreshing and reading the source\<close>

record DogtagSyncSource =
  ds_config :: SyncConfig
  ds_state :: Checkpoint
  ds_poisoned :: bool

definition dogtag_new :: "SyncConfig \<Rightarrow> DogtagSyncSource" where
  "dogtag_new cfg = \<lparr>ds_config = cfg, ds_state = checkpoint_default, ds_poisoned = False\<rparr>"

definition source_binding :: "externals \<Rightarrow> ldap_externals \<Rightarrow> SyncConfig \<Rightarrow> CaIdentity \<Rightarrow> string" where
  "source_binding E L cfg ca =
     hex_encode E (sha256 E (lx_binding_json L (dc_ldap_url cfg, dc_base_dn cfg, dc_filter cfg, dc_bind_dn cfg, dc_tls cfg,
       dc_ca_cert cfg, sync_attrs, cd_issuer_name_der ca, cd_issuer_key_bytes ca)))"

definition checkpoint_path :: "SyncConfig \<Rightarrow> string \<Rightarrow> path" where
  "checkpoint_path cfg binding =
     (let suffix = ''.'' @ binding @ ''.json'' in
      if dc_cookie_path cfg = [] then [suffix]
      else butlast (dc_cookie_path cfg) @ [last (dc_cookie_path cfg) @ suffix])"

definition load_checkpoint :: "ldap_externals \<Rightarrow> fs \<Rightarrow> path \<Rightarrow> string \<Rightarrow> Checkpoint option" where
  "load_checkpoint L s p binding =
     Option.bind (fs_files s p) (\<lambda>bs.
     case lx_checkpoint_from_json L bs of
       Inl _ \<Rightarrow> None
     | Inr ck \<Rightarrow> if ck_version ck = 1 \<and> ck_binding ck = binding \<and> ck_complete ck then Some ck else None)"

definition save_steps ::
    "WriteOutcome \<Rightarrow> path \<Rightarrow> path \<Rightarrow> string + bytes \<Rightarrow> fs \<Rightarrow> (SignError + unit) \<times> fs" where
  "save_steps w temp p json s =
     (case wo_open w of Some e \<Rightarrow> (Inl (SignConfig ''checkpoint create''), s) | None \<Rightarrow>
      if fs_files s temp \<noteq> None then (Inl (SignConfig ''checkpoint create''), s) else
      let s1 = set_file temp (Some []) s in
      case json of Inl e \<Rightarrow> (Inl (SignConfig (''checkpoint encode: '' @ e)), s1) | Inr bs \<Rightarrow>
      case wo_write w of Some (e, n) \<Rightarrow> (Inl (SignConfig ''checkpoint encode''), set_file temp (Some (take n bs)) s1) | None \<Rightarrow>
      let s2 = set_file temp (Some bs) s1 in
      case wo_sync w of Some e \<Rightarrow> (Inl (SignConfig ''checkpoint sync''), s2) | None \<Rightarrow>
      case wo_rename w of Some e \<Rightarrow> (Inl (SignConfig ''checkpoint replace''), s2) | None \<Rightarrow>
      if fs_dirs s2 p then (Inl (SignConfig ''checkpoint replace''), s2) else
      let s3 = rename_file temp p s2 in
      case wo_dir_sync w of
        Some e \<Rightarrow> (Inl (SignConfig ''checkpoint directory sync''), s3)
      | None \<Rightarrow> (Inr (), sync_entry p s3))"

definition save_checkpoint ::
    "ldap_externals \<Rightarrow> WriteOutcome \<Rightarrow> path \<Rightarrow> Checkpoint \<Rightarrow> fs \<Rightarrow> (SignError + unit) \<times> fs" where
  "save_checkpoint L w p ck s =
     (let parent = (case path_parent p of Some d \<Rightarrow> d | None \<Rightarrow> [''.'']) in
      case wo_create_dir w of
        Some e \<Rightarrow> (Inl (SignConfig ''checkpoint directory''), s)
      | None \<Rightarrow>
          let temp = path_join parent (''.hoike-sync-'' @ lx_uuid L @ ''.tmp'');
              (result, s') = save_steps w temp p (lx_checkpoint_to_json L ck) (add_dirs parent s) in
          case result of
            Inr _ \<Rightarrow> (result, s')
          | Inl _ \<Rightarrow> (result, if wo_remove_fails w then s' else set_file temp None s'))"

definition malformed_response :: SignError where
  "malformed_response = SignConfig ''malformed LDAP synchronization response''"

text \<open>The current checkpoint of the source, after switching to the binding of the CA.\<close>

definition bound_state :: "ldap_externals \<Rightarrow> fs \<Rightarrow> path \<Rightarrow> string \<Rightarrow> Checkpoint \<Rightarrow> Checkpoint" where
  "bound_state L s p binding current =
     (if ck_binding current = binding then current
      else case load_checkpoint L s p binding of
             Some ck \<Rightarrow> ck
           | None \<Rightarrow> checkpoint_default\<lparr>ck_version := 1, ck_binding := binding\<rparr>)"

definition synchronise ::
    "externals \<Rightarrow> ldap_externals \<Rightarrow> fs \<Rightarrow> SyncConfig \<Rightarrow> string \<Rightarrow> Checkpoint \<Rightarrow> SignError + Checkpoint" where
  "synchronise E L s cfg binding current =
     (case do_sync E L s 0 cfg current of
        None \<Rightarrow> Inl malformed_response
      | Some (Inr ck) \<Rightarrow> Inr ck
      | Some (Inl e) \<Rightarrow>
          if e = SignConfig ''syncRefreshRequired''
          then case do_sync E L s 2 cfg (checkpoint_default\<lparr>ck_version := 1, ck_binding := binding\<rparr>) of
                 None \<Rightarrow> Inl malformed_response
               | Some r \<Rightarrow> r
          else Inl e)"

definition refresh ::
    "externals \<Rightarrow> ldap_externals \<Rightarrow> WriteOutcome \<Rightarrow> CaIdentity \<Rightarrow> DogtagSyncSource \<Rightarrow> fs
      \<Rightarrow> (SignError + Checkpoint) \<times> DogtagSyncSource \<times> fs" where
  "refresh E L w ca src s =
     (let cfg = ds_config src;
          binding = source_binding E L cfg ca;
          p = checkpoint_path cfg binding in
      if ds_poisoned src then (Inl (SignConfig ''source state lock poisoned''), src, s)
      else
      let current = bound_state L s p binding (ds_state src);
          src1 = src\<lparr>ds_state := current\<rparr> in
      case synchronise E L s cfg binding current of
        Inl e \<Rightarrow> (Inl e, src1, s)
      | Inr ck \<Rightarrow>
          (case save_checkpoint L w p ck s of
             (Inl e, s') \<Rightarrow> (Inl e, src1, s')
           | (Inr _, s') \<Rightarrow> (Inr ck, src1\<lparr>ds_state := ck\<rparr>, s')))"

definition checkpoint_snapshot :: "Checkpoint \<Rightarrow> u64 \<Rightarrow> SignError + StatusSnapshot" where
  "checkpoint_snapshot ck now =
     (let included = filter (\<lambda>r. \<not> sd_excluded r) (map snd (ck_records ck));
          not_after = fold (\<lambda>r m. case sd_not_after r of None \<Rightarrow> m | Some t \<Rightarrow> bt_insert (sd_serial r) t m) included [] in
      bindR (ok_orR (SignConfig ''source clock overflow'') (checked_add_u64 now 86400)) (\<lambda>next_update.
      Inr \<lparr>ss_entries = fold (\<lambda>r. bt_insert (sd_serial r) (stored_status r)) included [],
           ss_this_update = now, ss_next_update = Some next_update, ss_not_after = not_after\<rparr>))"

definition dogtag_snapshot ::
    "externals \<Rightarrow> ldap_externals \<Rightarrow> WriteOutcome \<Rightarrow> (nat \<Rightarrow> u64 option) \<Rightarrow> CaIdentity \<Rightarrow> DogtagSyncSource \<Rightarrow> fs
      \<Rightarrow> (SignError + StatusSnapshot) \<times> DogtagSyncSource \<times> fs" where
  "dogtag_snapshot E L w clock ca src s =
     (case refresh E L w ca src s of
        (Inl e, src', s') \<Rightarrow> (Inl e, src', s')
      | (Inr ck, src', s') \<Rightarrow> (bindR (unix_now clock 0) (checkpoint_snapshot ck), src', s'))"

definition dogtag_changes_since ::
    "externals \<Rightarrow> ldap_externals \<Rightarrow> WriteOutcome \<Rightarrow> (nat \<Rightarrow> u64 option) \<Rightarrow> CaIdentity \<Rightarrow> u64 \<Rightarrow> DogtagSyncSource \<Rightarrow> fs
      \<Rightarrow> (SignError + StatusChange list) \<times> DogtagSyncSource \<times> fs" where
  "dogtag_changes_since E L w clock ca since src s =
     (case dogtag_snapshot E L w clock ca src s of
        (r, src', s') \<Rightarrow> (bindR r (\<lambda>snapshot. Inr (snapshot_changes snapshot)), src', s'))"

definition dogtag_is_authoritative_complete :: "DogtagSyncSource \<Rightarrow> bool" where
  "dogtag_is_authoritative_complete src \<longleftrightarrow> \<not> ds_poisoned src \<and> ck_complete (ds_state src)"

section \<open>What a refresh does to the records\<close>

text \<open>The messages of a search as updates of the record map.\<close>

datatype effect = Put string StoredRecord | Drop string | Keep string

definition entry_effects :: "externals \<Rightarrow> number_externals \<Rightarrow> SyncState \<Rightarrow> SearchEntry option \<Rightarrow> effect list" where
  "entry_effects E D state entry =
     (let id = hex_encode E (sy_entry_uuid state) in
      case sy_state state of
        EntryDelete \<Rightarrow> [Drop id]
      | EntryPresent \<Rightarrow> [Keep id]
      | _ \<Rightarrow> (case entry of
               None \<Rightarrow> []
             | Some e \<Rightarrow> (case parse_cert_entry E D e of Inr (Some r) \<Rightarrow> [Put id r] | _ \<Rightarrow> [])))"

definition message_effects :: "externals \<Rightarrow> number_externals \<Rightarrow> ldap_message \<Rightarrow> effect list" where
  "message_effects E D msg =
     (case msg of
        Intermediate (Some (SyncIdSet _ refresh_deletes uuids)) \<Rightarrow>
          map ((if refresh_deletes then Drop else Keep) \<circ> hex_encode E) uuids
      | Intermediate _ \<Rightarrow> []
      | LdapEntry ctrls entry \<Rightarrow>
          (case filter (\<lambda>(oid, _). oid = SYNC_STATE_OID) ctrls of
             [(_, Some state)] \<Rightarrow> entry_effects E D state entry
           | _ \<Rightarrow> []))"

definition stream_effects :: "externals \<Rightarrow> number_externals \<Rightarrow> (string + ldap_message) list \<Rightarrow> effect list" where
  "stream_effects E D msgs = concat (map (\<lambda>m. case m of Inl _ \<Rightarrow> [] | Inr msg \<Rightarrow> message_effects E D msg) msgs)"

fun run_effect :: "effect \<Rightarrow> (string \<Rightarrow> StoredRecord option) \<Rightarrow> string \<Rightarrow> StoredRecord option" where
  "run_effect (Put k r) m = m(k \<mapsto> r)"
| "run_effect (Drop k) m = m(k := None)"
| "run_effect (Keep k) m = m"

fun announced :: "effect \<Rightarrow> string set" where
  "announced (Put k r) = {k}"
| "announced (Drop k) = {}"
| "announced (Keep k) = {k}"

definition staged_ok :: "staged \<Rightarrow> effect list \<Rightarrow> staged \<Rightarrow> bool" where
  "staged_ok st effs st' \<longleftrightarrow>
     bt_inv (ck_records (fst st')) \<and>
     bt_get (ck_records (fst st')) = fold run_effect effs (bt_get (ck_records (fst st))) \<and>
     snd st' = snd st \<union> \<Union> (announced ` set effs)"

lemma staged_ok_refl: "bt_inv (ck_records (fst st)) \<Longrightarrow> staged_ok st [] st"
  by (simp add: staged_ok_def)

lemma staged_ok_append: "staged_ok st effs st1 \<Longrightarrow> staged_ok st1 effs' st2 \<Longrightarrow> staged_ok st (effs @ effs') st2"
  by (auto simp: staged_ok_def)

lemma ck_records_set_cookie [simp]: "ck_records (set_cookie c ck) = ck_records ck" "ck_complete (set_cookie c ck) = ck_complete ck"
  by (simp_all add: set_cookie_def)

lemma apply_entry_ok:
  assumes "apply_entry E state record_opt st = Inr st'" and "bt_inv (ck_records (fst st))"
    and "sy_state state \<in> {EntryAdd, EntryModify} \<Longrightarrow> \<exists>e. entry = Some e \<and> parse_cert_entry E D e = Inr record_opt"
  shows "staged_ok st (entry_effects E D state entry) st'"
proof (cases st)
  case (Pair ck present)
  show ?thesis
    using assms Pair
    by (cases "sy_state state")
      (auto simp: apply_entry_def entry_effects_def staged_ok_def Let_def result_inverts bt_inv_insert bt_inv_remove
        bt_get_insert bt_get_remove split: if_splits)
qed

lemma apply_id_set_ok:
  assumes "apply_id_set E d uuids st = Inr st'" and "bt_inv (ck_records (fst st))"
  shows "staged_ok st (map ((if d then Drop else Keep) \<circ> hex_encode E) uuids) st'"
  using assms
proof (induction uuids arbitrary: st)
  case Nil
  then show ?case by (simp add: apply_id_set_def staged_ok_refl)
next
  case (Cons u uuids)
  obtain ck present where st: "st = (ck, present)" by force
  let ?st1 = "if d then (ck\<lparr>ck_records := bt_remove (hex_encode E u) (ck_records ck)\<rparr>, present) else (ck, insert (hex_encode E u) present)"
  have run: "apply_id_set E d uuids ?st1 = Inr st'"
    using Cons.prems(1) by (auto simp: apply_id_set_def st Let_def split: if_splits)
  have step: "staged_ok st [(if d then Drop else Keep) (hex_encode E u)] ?st1"
    using Cons.prems(2) by (auto simp: staged_ok_def st bt_inv_remove bt_get_remove)
  then have "bt_inv (ck_records (fst ?st1))" by (simp add: staged_ok_def)
  from staged_ok_append [OF step Cons.IH [OF run this]] show ?case by (cases d) simp_all
qed

lemma apply_info_ok:
  assumes "apply_info E info st = Inr st'" and "bt_inv (ck_records (fst st))"
  shows "staged_ok st (message_effects E D (Intermediate (Some info))) st'"
proof (cases st)
  case (Pair ck present)
  show ?thesis
  proof (cases info)
    case (SyncIdSet c d uuids)
    then have "apply_id_set E d uuids (set_cookie c ck, present) = Inr st'"
      using assms(1) Pair by (simp add: apply_info_def)
    from apply_id_set_ok [OF this] show ?thesis
      using assms(2) Pair SyncIdSet by (simp add: message_effects_def staged_ok_def)
  qed (use assms Pair in \<open>auto simp: apply_info_def message_effects_def staged_ok_def\<close>)
qed

lemma apply_message_ok:
  assumes "apply_message E D msg st = Some (Inr st')" and "bt_inv (ck_records (fst st))"
  shows "staged_ok st (message_effects E D msg) st'"
proof (cases msg)
  case (Intermediate info)
  then show ?thesis using assms apply_info_ok [of E _ st st' D] by (cases info) (auto simp: apply_message_def)
next
  case (LdapEntry ctrls entry)
  obtain oid state where ctrl: "filter (\<lambda>(oid, _). oid = SYNC_STATE_OID) ctrls = [(oid, Some state)]"
    using assms(1) LdapEntry by (auto simp: apply_message_def split: list.splits option.splits)
  show ?thesis
  proof (cases "sy_state state = EntryAdd \<or> sy_state state = EntryModify")
    case True
    then obtain e r where "entry = Some e" "parse_cert_entry E D e = Inr r" "apply_entry E state r st = Inr st'"
      using assms(1) LdapEntry ctrl by (auto simp: apply_message_def result_inverts split: option.splits)
    then show ?thesis using apply_entry_ok [of E state r st st' entry D] assms(2) LdapEntry ctrl by (simp add: message_effects_def)
  next
    case False
    then have "apply_entry E state None st = Inr st'" using assms(1) LdapEntry ctrl by (simp add: apply_message_def)
    then show ?thesis using apply_entry_ok [of E state None st st' entry D] assms(2) LdapEntry ctrl False by (simp add: message_effects_def)
  qed
qed

lemma sync_loop_ok:
  assumes "sync_loop E D msgs st = Some (Inr st')" and "bt_inv (ck_records (fst st))"
  shows "staged_ok st (stream_effects E D msgs) st'"
  using assms
proof (induction E D msgs st rule: sync_loop.induct)
  case (3 E D m msgs st)
  obtain st1 where step: "apply_message E D m st = Some (Inr st1)" "sync_loop E D msgs st1 = Some (Inr st')"
    using "3.prems"(1) by (auto split: option.splits sum.splits)
  note one = apply_message_ok [OF step(1) "3.prems"(2)]
  have "bt_inv (ck_records (fst st1))" using one by (simp add: staged_ok_def)
  from staged_ok_append [OF one "3.IH" [OF step(1) _ step(2) this]] show ?case by (simp add: stream_effects_def)
qed (auto simp: stream_effects_def staged_ok_refl)

section \<open>Convergence to the directory\<close>

text \<open>
  RFC 4533 for one refresh of a client that holds \<open>old\<close> from a directory that holds \<open>dir\<close>: updates
  carry the directory's records, deletions name absent entries, an entry is confirmed as present only
  if it is unchanged. With deletions announced, every difference is; without, every entry is.
\<close>

definition conforming ::
    "(string \<Rightarrow> StoredRecord option) \<Rightarrow> (string \<Rightarrow> StoredRecord option) \<Rightarrow> effect list \<Rightarrow> bool \<Rightarrow> bool" where
  "conforming old dir effs refresh_deletes \<longleftrightarrow>
     (\<forall>k r. Put k r \<in> set effs \<longrightarrow> dir k = Some r) \<and>
     (\<forall>k. Drop k \<in> set effs \<longrightarrow> dir k = None) \<and>
     (\<forall>k. Keep k \<in> set effs \<longrightarrow> old k = dir k \<and> dir k \<noteq> None) \<and>
     (if refresh_deletes then \<forall>k. old k \<noteq> dir k \<longrightarrow> (\<exists>r. Put k r \<in> set effs) \<or> Drop k \<in> set effs
      else dom dir \<subseteq> \<Union> (announced ` set effs))"

lemma fold_run_effect:
  assumes "\<forall>k r. Put k r \<in> set effs \<longrightarrow> dir k = Some r" and "\<forall>k. Drop k \<in> set effs \<longrightarrow> dir k = None"
  shows "fold run_effect effs m k = (if (\<exists>r. Put k r \<in> set effs) \<or> Drop k \<in> set effs then dir k else m k)"
  using assms
proof (induction effs arbitrary: m)
  case (Cons e effs)
  then have "fold run_effect effs (run_effect e m) k =
      (if (\<exists>r. Put k r \<in> set effs) \<or> Drop k \<in> set effs then dir k else run_effect e m k)" by simp
  then show ?case using Cons.prems by (cases e) auto
qed simp

lemma bt_get_filter: "bt_get (filter (\<lambda>(k, _). P k) m) k = (if P k then bt_get m k else None)"
  unfolding bt_get_def by (induction m) auto

lemma bt_inv_filter: "bt_inv m \<Longrightarrow> bt_inv (filter P m)"
  unfolding bt_inv_def sorted_wrt_map by (rule sorted_wrt_filter)

lemma finish_Inr:
  assumes "finish (ck, present) d = Inr ck'" and "bt_inv (ck_records ck)"
  shows "bt_inv (ck_records ck')" and "ck_complete ck'" and "distinct (map (sd_serial \<circ> snd) (ck_records ck'))"
    and "bt_get (ck_records ck') k = (if d \<or> k \<in> present then bt_get (ck_records ck) k else None)"
  using assms by (auto simp: finish_def Let_def bt_inv_filter bt_get_filter split: if_splits)

lemma conforming_finish:
  assumes "conforming old dir effs d"
  shows "(if d \<or> k \<in> \<Union> (announced ` set effs) then fold run_effect effs old k else None) = dir k"
proof -
  let ?changed = "(\<exists>r. Put k r \<in> set effs) \<or> Drop k \<in> set effs"
  have run: "fold run_effect effs old k = (if ?changed then dir k else old k)"
    using assms fold_run_effect [of effs dir old k] unfolding conforming_def by blast
  have listed: "\<exists>e \<in> set effs. k \<in> announced e \<Longrightarrow> (\<exists>r. Put k r \<in> set effs) \<or> Keep k \<in> set effs"
  proof (elim bexE)
    fix e assume e: "e \<in> set effs" "k \<in> announced e"
    show "(\<exists>r. Put k r \<in> set effs) \<or> Keep k \<in> set effs" using e(2) e(1) by (cases e) auto
  qed
  show ?thesis
  proof (cases d)
    case True
    then show ?thesis using assms run unfolding conforming_def by auto
  next
    case False
    then have all: "dir k \<noteq> None \<Longrightarrow> k \<in> \<Union> (announced ` set effs)" using assms unfolding conforming_def by auto
    show ?thesis
    proof (cases "k \<in> \<Union> (announced ` set effs)")
      case True
      then consider r where "Put k r \<in> set effs" | "Keep k \<in> set effs" using listed by blast
      then have "fold run_effect effs old k = dir k"
        using run assms unfolding conforming_def by cases auto
      then show ?thesis using True by simp
    next
      case False
      then show ?thesis using all \<open>\<not> d\<close> by (cases "dir k") auto
    qed
  qed
qed

definition served_by_sync :: "externals \<Rightarrow> ldap_externals \<Rightarrow> fs \<Rightarrow> nat \<Rightarrow> SyncConfig \<Rightarrow> Checkpoint \<Rightarrow> StoredRecord set \<Rightarrow> bool" where
  "served_by_sync E L s n cfg ck R \<longleftrightarrow>
     (\<forall>conn msgs result oid d. opened L s n cfg = Inr conn \<and>
        lc_sync conn (lx_sync_request L (ck_cookie (start_refresh ck))) (dc_base_dn cfg) (dc_filter cfg) = Inr (msgs, result) \<and>
        filter (\<lambda>(oid, _). oid = SYNC_DONE_OID) (sq_ctrls result) = [(oid, Some d)] \<longrightarrow>
        (\<exists>dir. ran dir = R \<and>
           conforming (bt_get (ck_records (start_refresh ck))) dir (stream_effects E (lx_numbers L) msgs) (dn_refresh_deletes d)))"

text \<open>A plain search returns each record of the directory once.\<close>

definition polled_records :: "externals \<Rightarrow> number_externals \<Rightarrow> SearchEntry option list \<Rightarrow> StoredRecord list" where
  "polled_records E D es =
     concat (map (\<lambda>e. case e of
        None \<Rightarrow> []
      | Some e \<Rightarrow> (case parse_cert_entry E D e of Inr (Some r) \<Rightarrow> [r] | _ \<Rightarrow> [])) es)"

definition served_by_poll :: "externals \<Rightarrow> ldap_externals \<Rightarrow> fs \<Rightarrow> nat \<Rightarrow> SyncConfig \<Rightarrow> StoredRecord set \<Rightarrow> bool" where
  "served_by_poll E L s n cfg R \<longleftrightarrow>
     (\<forall>conn entries. opened L s n cfg = Inr conn \<and> lc_search conn (dc_base_dn cfg) (dc_filter cfg) = Inr entries \<longrightarrow>
        set (polled_records E (lx_numbers L) entries) = R \<and>
        distinct (map sd_serial (polled_records E (lx_numbers L) entries)))"

definition holds :: "Checkpoint \<Rightarrow> StoredRecord set \<Rightarrow> bool" where
  "holds ck R \<longleftrightarrow>
     bt_inv (ck_records ck) \<and> ck_complete ck \<and> ran (bt_get (ck_records ck)) = R \<and>
     distinct (map (sd_serial \<circ> snd) (ck_records ck))"

lemma bt_inv_start_refresh: "bt_inv (ck_records ck) \<Longrightarrow> bt_inv (ck_records (start_refresh ck))"
  by (simp add: start_refresh_def bt_inv_def)

lemma fold_upd:
  assumes "distinct (map f rs)"
  shows "fold (\<lambda>r m. m(f r \<mapsto> g r)) rs Map.empty k = Some v \<longleftrightarrow> (\<exists>r \<in> set rs. f r = k \<and> g r = v)"
  using assms
proof (induction rs rule: rev_induct)
  case (snoc r rs)
  have "\<forall>x \<in> set rs. f x \<noteq> f r" using snoc.prems by (simp add: image_iff) metis
  then show ?case using snoc by (cases "f r = k") auto
qed simp

lemma fold_bt_insert:
  assumes "bt_inv m"
  shows "bt_inv (fold (\<lambda>r. bt_insert (f r) (g r)) rs m)"
    and "bt_get (fold (\<lambda>r. bt_insert (f r) (g r)) rs m) = fold (\<lambda>r m. m(f r \<mapsto> g r)) rs (bt_get m)"
  using assms by (induction rs arbitrary: m) (simp_all add: bt_inv_insert bt_get_insert)

lemma poll_loop_ok:
  assumes "poll_loop E D es (ck, present) = Some (Inr st)" and "bt_inv (ck_records ck)"
  shows "bt_inv (ck_records (fst st)) \<and>
    bt_get (ck_records (fst st)) = fold (\<lambda>r m. m(hex_encode E (sd_serial r) \<mapsto> r)) (polled_records E D es) (bt_get (ck_records ck)) \<and>
    snd st = present \<union> (hex_encode E \<circ> sd_serial) ` set (polled_records E D es)"
  using assms
proof (induction E D es "(ck, present)" arbitrary: ck present rule: poll_loop.induct)
  case (3 E D e es ck present)
  show ?case
  proof (cases "parse_cert_entry E D e")
    case (Inl err)
    then show ?thesis using "3.prems" by simp
  next
    case (Inr ro)
    show ?thesis
    proof (cases ro)
      case None
      then show ?thesis using "3.prems" "3.hyps"(1) [OF Inr None] Inr None by (simp add: polled_records_def)
    next
      case (Some r)
      let ?id = "hex_encode E (sd_serial r)"
      have "poll_loop E D es (ck\<lparr>ck_records := bt_insert ?id r (ck_records ck)\<rparr>, insert ?id present) = Some (Inr st)"
        using "3.prems"(1) Inr Some by (simp add: Let_def)
      from "3.hyps"(2) [OF Inr Some refl this] show ?thesis
        using "3.prems"(2) Inr Some by (simp add: polled_records_def bt_inv_insert bt_get_insert)
    qed
  qed
qed (auto simp: polled_records_def)

lemma do_full_poll_holds:
  assumes "do_full_poll E L s n cfg binding = Some (Inr ck)" and "served_by_poll E L s n cfg R" and "hex_roundtrip E"
  shows "holds ck R"
proof -
  let ?D = "lx_numbers L" and ?id = "\<lambda>r. hex_encode E (sd_serial r)"
  obtain conn entries st where run: "opened L s n cfg = Inr conn" "lc_search conn (dc_base_dn cfg) (dc_filter cfg) = Inr entries"
    "poll_loop E ?D entries (checkpoint_default\<lparr>ck_version := 1, ck_binding := binding\<rparr>, {}) = Some (Inr st)"
    "finish st False = Inr ck"
    using assms(1) by (auto simp: do_full_poll_def Let_def split: sum.splits option.splits)
  let ?rs = "polled_records E ?D entries"
  have rs: "set ?rs = R" "distinct (map sd_serial ?rs)" using assms(2) run(1,2) by (auto simp: served_by_poll_def)
  have inj: "inj (hex_encode E)" using assms(3) by (metis hex_roundtripD injI sum.inject(2))
  then have ids: "distinct (map ?id ?rs)"
    using rs(2) distinct_map [of "hex_encode E" "map sd_serial ?rs"] inj_on_subset [OF inj subset_UNIV] by (simp add: comp_def)
  have inv0: "bt_inv (ck_records (checkpoint_default\<lparr>ck_version := 1, ck_binding := binding\<rparr>))"
    by (simp add: checkpoint_default_def bt_inv_def)
  have st: "bt_inv (ck_records (fst st))" "snd st = ?id ` set ?rs"
    "bt_get (ck_records (fst st)) = fold (\<lambda>r m. m(?id r \<mapsto> r)) ?rs Map.empty"
    using poll_loop_ok [OF run(3) inv0] by (simp_all add: checkpoint_default_def bt_get_def comp_def)
  have "finish (fst st, snd st) False = Inr ck" using run(4) by simp
  note fin = finish_Inr [OF this st(1)]
  have "bt_get (ck_records ck) k = Some r \<longleftrightarrow> r \<in> set ?rs \<and> ?id r = k" for k r
    using fin(4) [of k] fold_upd [OF ids, of "\<lambda>r. r" k r] unfolding st(2,3) by auto
  then have "ran (bt_get (ck_records ck)) = set ?rs" by (auto simp: ran_def)
  then show ?thesis using fin(1-3) rs(1) by (simp add: holds_def)
qed

lemma do_sync_holds:
  assumes "do_sync E L s n cfg ck0 = Some (Inr ck)" and "bt_inv (ck_records ck0)" and "hex_roundtrip E"
    and "served_by_sync E L s n cfg ck0 R" and "served_by_poll E L s (Suc n) cfg R"
  shows "holds ck R"
proof -
  obtain conn msgs result st where run: "opened L s n cfg = Inr conn"
    "lc_sync conn (lx_sync_request L (ck_cookie (start_refresh ck0))) (dc_base_dn cfg) (dc_filter cfg) = Inr (msgs, result)"
    "sync_loop E (lx_numbers L) msgs (start_refresh ck0, {}) = Some (Inr st)"
    and last: "(if sq_rc result = 12 then do_full_poll E L s (Suc n) cfg (ck_binding (fst st)) else sync_done result st) = Some (Inr ck)"
    using assms(1) by (auto simp: do_sync_def Let_def split: sum.splits option.splits if_splits)
  show ?thesis
  proof (cases "sq_rc result = 12")
    case True
    then show ?thesis using last do_full_poll_holds [OF _ assms(5,3)] by simp
  next
    case False
    then obtain oid d where done_ctrl: "filter (\<lambda>(oid, _). oid = SYNC_DONE_OID) (sq_ctrls result) = [(oid, Some d)]"
      and fin: "finish (set_cookie (dn_cookie d) (fst st), snd st) (dn_refresh_deletes d) = Inr ck"
      using last by (cases st) (auto simp: sync_done_def split: list.splits option.splits)
    let ?effs = "stream_effects E (lx_numbers L) msgs" and ?old = "bt_get (ck_records (start_refresh ck0))"
    obtain dir where dir: "ran dir = R" "conforming ?old dir ?effs (dn_refresh_deletes d)"
      using assms(4) run(1,2) done_ctrl unfolding served_by_sync_def by blast
    have st: "staged_ok (start_refresh ck0, {}) ?effs st"
      using sync_loop_ok [OF run(3)] bt_inv_start_refresh [OF assms(2)] by simp
    then have inv: "bt_inv (ck_records (set_cookie (dn_cookie d) (fst st)))" by (simp add: staged_ok_def)
    note f = finish_Inr [OF fin inv]
    have "bt_get (ck_records ck) k = dir k" for k
      using f(4) [of k] st conforming_finish [OF dir(2), of k] by (auto simp: staged_ok_def split: if_splits)
    then have "bt_get (ck_records ck) = dir" by blast
    then show ?thesis using f(1-3) dir(1) by (simp add: holds_def)
  qed
qed

text \<open>The server answers truthfully on every attempt that a refresh may make.\<close>

definition serves :: "externals \<Rightarrow> ldap_externals \<Rightarrow> fs \<Rightarrow> SyncConfig \<Rightarrow> string \<Rightarrow> Checkpoint \<Rightarrow> StoredRecord set \<Rightarrow> bool" where
  "serves E L s cfg binding current R \<longleftrightarrow>
     served_by_sync E L s 0 cfg current R \<and> served_by_poll E L s 1 cfg R \<and>
     served_by_sync E L s 2 cfg (checkpoint_default\<lparr>ck_version := 1, ck_binding := binding\<rparr>) R \<and>
     served_by_poll E L s 3 cfg R"

lemma synchronise_holds:
  assumes "synchronise E L s cfg binding current = Inr ck" and "bt_inv (ck_records current)" and "hex_roundtrip E"
    and "serves E L s cfg binding current R"
  shows "holds ck R"
proof -
  let ?fresh = "checkpoint_default\<lparr>ck_version := 1, ck_binding := binding\<rparr>"
  have fresh: "bt_inv (ck_records ?fresh)" by (simp add: checkpoint_default_def bt_inv_def)
  consider "do_sync E L s 0 cfg current = Some (Inr ck)" | "do_sync E L s 2 cfg ?fresh = Some (Inr ck)"
    using assms(1) by (auto simp: synchronise_def split: option.splits sum.splits if_splits)
  then show ?thesis
  proof cases
    case 1
    then show ?thesis using do_sync_holds [OF 1 assms(2,3)] assms(4) by (simp add: serves_def)
  next
    case 2
    then show ?thesis using do_sync_holds [OF 2 fresh assms(3)] assms(4) by (simp add: serves_def numeral_3_eq_3 numeral_2_eq_2)
  qed
qed

text \<open>Deserialising a map gives one in key order.\<close>

definition checkpoints_sorted :: "ldap_externals \<Rightarrow> bool" where
  "checkpoints_sorted L \<longleftrightarrow> (\<forall>bs ck. lx_checkpoint_from_json L bs = Inr ck \<longrightarrow> bt_inv (ck_records ck))"

lemma bound_state_inv:
  assumes "checkpoints_sorted L" and "bt_inv (ck_records current)"
  shows "bt_inv (ck_records (bound_state L s p binding current))"
  using assms
  by (auto simp: bound_state_def load_checkpoint_def checkpoints_sorted_def checkpoint_default_def bt_inv_def
      split: option.splits sum.splits bind_splits if_splits)

lemma checkpoint_snapshot_entries:
  assumes "checkpoint_snapshot ck now = Inr snap" and "holds ck R"
  shows "bt_inv (ss_entries snap)"
    and "map_of (ss_entries snap) serial = Some status \<longleftrightarrow>
      (\<exists>r \<in> R. \<not> sd_excluded r \<and> sd_serial r = serial \<and> stored_status r = status)"
proof -
  let ?rs = "filter (\<lambda>r. \<not> sd_excluded r) (map snd (ck_records ck))"
  have entries: "ss_entries snap = fold (\<lambda>r. bt_insert (sd_serial r) (stored_status r)) ?rs []"
    using assms(1) by (auto simp: checkpoint_snapshot_def Let_def result_inverts)
  have "distinct (map sd_serial (map snd (ck_records ck)))" using assms(2) by (simp add: holds_def comp_def)
  then have dist: "distinct (map sd_serial ?rs)" by (rule distinct_map_filter)
  have "distinct (map fst (ck_records ck))"
    using assms(2) strict_sorted_iff by (auto simp: holds_def bt_inv_def)
  then have R: "R = snd ` set (ck_records ck)"
    using assms(2) by (auto simp: holds_def bt_get_def ran_distinct)
  have inv: "bt_inv ([] :: (bytes, CertificateStatus) btree)" by (simp add: bt_inv_def)
  show "bt_inv (ss_entries snap)" unfolding entries by (rule fold_bt_insert(1) [OF inv])
  have "map_of (ss_entries snap) serial = fold (\<lambda>r m. m(sd_serial r \<mapsto> stored_status r)) ?rs Map.empty serial"
    using fold_bt_insert(2) [OF inv, of sd_serial stored_status ?rs] unfolding entries by (simp add: bt_get_def)
  then show "map_of (ss_entries snap) serial = Some status \<longleftrightarrow>
      (\<exists>r \<in> R. \<not> sd_excluded r \<and> sd_serial r = serial \<and> stored_status r = status)"
    using fold_upd [OF dist, of stored_status serial status] R by auto
qed

end


