(* ===== verification/Source_Properties.thy ===== *)
theory Source_Properties
  imports Sign_Dogtag Hoike_Examples
begin

text \<open>
  What the revocation sources promise: a snapshot of the directory source is the directory's content,
  whichever way it was fetched. Two theorems record where the code departs from what its comments say:
  a revocation time in generalised time is divided by a thousand, and a full poll does not notice two
  records of one serial. Each theorem with premises is followed by an example that meets them.
\<close>

section \<open>The directory source\<close>

text \<open>
  C6: When the directory answers each attempt of a refresh as RFC 4533 requires, or a plain search
  with each record once, a snapshot that succeeds has exactly the directory's certificates that are
  not excluded, each once, with their recorded status, whether it was refreshed from a cookie, in full
  or by polling; and the source then is complete and its checkpoint is again in order.
\<close>

theorem snapshot_follows_directory:
  assumes "hex_roundtrip E" and "checkpoints_sorted L" and "bt_inv (ck_records (ds_state src))"
    and "binding = source_binding E L (ds_config src) ca"
    and "serves E L s (ds_config src) binding
          (bound_state L s (checkpoint_path (ds_config src) binding) binding (ds_state src)) R"
    and "dogtag_snapshot E L w clock ca src s = (Inr snap, src', s')"
  shows "(\<forall>serial status. map_of (ss_entries snap) serial = Some status \<longleftrightarrow>
      (\<exists>r \<in> R. \<not> sd_excluded r \<and> sd_serial r = serial \<and> stored_status r = status)) \<and>
    sorted_wrt (<) (map fst (ss_entries snap)) \<and>
    dogtag_is_authoritative_complete src' \<and> bt_inv (ck_records (ds_state src'))"
proof -
  let ?cfg = "ds_config src"
  let ?current = "bound_state L s (checkpoint_path ?cfg binding) binding (ds_state src)"
  obtain ck now where ck: "refresh E L w ca src s = (Inr ck, src', s')" "checkpoint_snapshot ck now = Inr snap"
    using assms(6) by (auto simp: dogtag_snapshot_def result_inverts split: prod.splits sum.splits)
  have sync: "synchronise E L s ?cfg binding ?current = Inr ck" and src': "ds_state src' = ck" "\<not> ds_poisoned src'"
    using ck(1) assms(4) by (auto simp: refresh_def Let_def split: if_splits sum.splits prod.splits)
  have "holds ck R"
    using synchronise_holds [OF sync bound_state_inv [OF assms(2,3)] assms(1,5)] .
  then show ?thesis
    using checkpoint_snapshot_entries [OF ck(2)] src'
    by (simp add: dogtag_is_authoritative_complete_def holds_def bt_inv_def)
qed

definition ex_numbers :: number_externals where
  "ex_numbers = \<lparr>dx_parse_decimal = (\<lambda>s. Some (decimal_value s)), dx_to_bytes_be = (\<lambda>n. [of_nat n])\<rparr>"

definition ex_entry_with :: "string \<Rightarrow> SearchEntry" where
  "ex_entry_with t = \<lparr>sn_attrs = [(''cn'', [''42'']), (''certStatus'', [''REVOKED'']), (''revokedOn'', [t])]\<rparr>"

definition ex_record :: "u64 \<Rightarrow> StoredRecord" where
  "ex_record t = \<lparr>sd_serial = [42], sd_revoked = Some (t, None), sd_excluded = False, sd_not_after = None\<rparr>"

lemma ex_attrs:
  "entry_attr (ex_entry_with t) ''cn'' = Some ''42''" "entry_attr (ex_entry_with t) ''certStatus'' = Some ''REVOKED''"
  "entry_attr (ex_entry_with t) ''revokedOn'' = Some t" "entry_attr (ex_entry_with t) ''revReason'' = None"
  "entry_attr (ex_entry_with t) ''notAfter'' = None"
  by (simp_all add: entry_attr_def ex_entry_with_def eq_ignore_ascii_case_def ascii_lower_def)

lemma ex_parse_entry:
  assumes "revoked_on t = Some secs"
  shows "parse_cert_entry E ex_numbers (ex_entry_with t) = Inr (Some (ex_record (secs div 1000)))"
proof -
  have "parse_decimal_serial ex_numbers ''42'' = Some [42]"
    by (simp add: parse_decimal_serial_def ex_numbers_def is_ascii_digit_def decimal_value_def)
  then show ?thesis
    using assms ex_attrs by (simp add: parse_cert_entry_def entry_serial_def entry_reason_def ex_record_def)
qed

lemma ex_revoked_ms: "revoked_on ''1719878400000'' = Some 1719878400000"
  by (simp add: revoked_on_def parse_unsigned_def is_ascii_digit_def decimal_value_def)

definition ex_sync_msgs :: "(string + ldap_message) list" where
  "ex_sync_msgs =
     [Inr (LdapEntry [(SYNC_STATE_OID, Some \<lparr>sy_state = EntryAdd, sy_entry_uuid = replicate 16 1, sy_cookie = None\<rparr>)]
        (Some (ex_entry_with ''1719878400000'')))]"

definition ex_sync_result :: LdapResult where
  "ex_sync_result =
     \<lparr>sq_rc = 0, sq_ctrls = [(SYNC_DONE_OID, Some \<lparr>dn_cookie = Some [1], dn_refresh_deletes = False\<rparr>)]\<rparr>"

definition ex_conn :: LdapConn where
  "ex_conn = \<lparr>lc_bind = (\<lambda>_ _. None), lc_sync = (\<lambda>_ _ _. Inr (ex_sync_msgs, ex_sync_result)),
     lc_search = (\<lambda>_ _. Inr [Some (ex_entry_with ''1719878400000'')])\<rparr>"

definition ex_ldap :: ldap_externals where
  "ex_ldap = \<lparr>lx_connect = (\<lambda>_ _ _ _. Inr ex_conn), lx_sync_request = (\<lambda>_. []), lx_pem_certs = (\<lambda>_. []),
     lx_add_root = (\<lambda>_. None), lx_protocol_error = None, lx_numbers = ex_numbers,
     lx_checkpoint_to_json = (\<lambda>_. Inr [1]), lx_checkpoint_from_json = (\<lambda>_. Inl ''json''), lx_binding_json = (\<lambda>_. []),
     lx_uuid = ''0''\<rparr>"

definition ex_source :: DogtagSyncSource where
  "ex_source = dogtag_new \<lparr>dc_ldap_url = ''ldaps://ds'', dc_base_dn = ''ou=ca'', dc_bind_dn = ''cn=dm'', dc_bind_password = '''',
     dc_cookie_path = [''state'', ''sync''], dc_filter = ''(objectClass=certificateRecord)'', dc_tls = ''ldaps'', dc_ca_cert = None\<rparr>"

definition ex_empty_fs :: fs where
  "ex_empty_fs = \<lparr>fs_store = [], fs_directories = [], fs_durable = (\<lambda>_. None), fs_locks = (\<lambda>_. None), fs_tmp_counter = 0,
     fs_calls = 0\<rparr>"

definition ex_dogtag_ca :: CaIdentity where
  "ex_dogtag_ca = \<lparr>cd_label = ''ca1'', cd_issuer_name_der = [1], cd_issuer_key_bytes = [2]\<rparr>"

lemma ex_opened: "opened ex_ldap s n (ds_config ex_source) = Inr ex_conn"
  by (simp add: opened_def ldap_connect_def simple_bind_def ex_source_def dogtag_new_def starts_with_def ex_ldap_def ex_conn_def)

lemma ex_parsed: "parse_cert_entry example_E ex_numbers (ex_entry_with ''1719878400000'') = Inr (Some (ex_record 1719878400))"
  using ex_parse_entry [OF ex_revoked_ms] by simp

lemma ex_effects: "stream_effects example_E ex_numbers ex_sync_msgs = [Put (hex_encode example_E (replicate 16 1)) (ex_record 1719878400)]"
  using ex_parsed by (simp add: stream_effects_def ex_sync_msgs_def message_effects_def entry_effects_def)

lemma ex_serves:
  assumes "ck_records current = []" and "ck_cookie current = None"
  shows "serves example_E ex_ldap s (ds_config ex_source) binding current {ex_record 1719878400}"
proof -
  let ?R = "{ex_record 1719878400}"
  have "served_by_sync example_E ex_ldap s n (ds_config ex_source) ck ?R"
    if "ck_records ck = []" "ck_cookie ck = None" for n ck
    unfolding served_by_sync_def
  proof (intro allI impI, elim conjE)
    fix conn msgs result oid d
    assume run: "opened ex_ldap s n (ds_config ex_source) = Inr conn"
      "lc_sync conn (lx_sync_request ex_ldap (ck_cookie (start_refresh ck))) (dc_base_dn (ds_config ex_source)) (dc_filter (ds_config ex_source))
         = Inr (msgs, result)"
      "filter (\<lambda>(oid, _). oid = SYNC_DONE_OID) (sq_ctrls result) = [(oid, Some d)]"
    have msgs: "msgs = ex_sync_msgs" "result = ex_sync_result" using run(1,2) by (auto simp: ex_opened ex_conn_def)
    have d: "\<not> dn_refresh_deletes d" using run(3) unfolding msgs by (auto simp: ex_sync_result_def)
    let ?dir = "[hex_encode example_E (replicate 16 1) \<mapsto> ex_record 1719878400]"
    have "lx_numbers ex_ldap = ex_numbers" by (simp add: ex_ldap_def)
    then show "\<exists>dir. ran dir = ?R \<and> conforming (bt_get (ck_records (start_refresh ck))) dir
        (stream_effects example_E (lx_numbers ex_ldap) msgs) (dn_refresh_deletes d)"
      using d unfolding msgs by (intro exI [of _ ?dir]) (simp add: ex_effects conforming_def)
  qed
  moreover have "served_by_poll example_E ex_ldap s n (ds_config ex_source) ?R" for n
    by (auto simp: served_by_poll_def ex_opened) (auto simp: ex_conn_def polled_records_def ex_parsed ex_ldap_def)
  ultimately show ?thesis using assms by (simp add: serves_def checkpoint_default_def)
qed

theorem snapshot_follows_directory_witness:
  "\<exists>snap src' s'. dogtag_snapshot example_E ex_ldap write_succeeds (\<lambda>_. Some 150) ex_dogtag_ca ex_source ex_empty_fs = (Inr snap, src', s') \<and>
     map_of (ss_entries snap) [42] = Some (CertRevoked 1719878400 None) \<and> map_of (ss_entries snap) [43] = None"
proof -
  let ?b = "source_binding example_E ex_ldap (ds_config ex_source) ex_dogtag_ca"
  let ?p = "checkpoint_path (ds_config ex_source) ?b"
  let ?current = "bound_state ex_ldap ex_empty_fs ?p ?b (ds_state ex_source)"
  have current: "ck_records ?current = []" "ck_cookie ?current = None"
    by (simp_all add: bound_state_def load_checkpoint_def ex_source_def dogtag_new_def checkpoint_default_def ex_empty_fs_def fs_files_def)
  obtain ck where sync: "synchronise example_E ex_ldap ex_empty_fs (ds_config ex_source) ?b ?current = Inr ck"
  proof -
    have "lx_numbers ex_ldap = ex_numbers" by (simp add: ex_ldap_def)
    then have "\<exists>ck. do_sync example_E ex_ldap ex_empty_fs 0 (ds_config ex_source) ?current = Some (Inr ck)"
      using ex_parsed current
      by (simp add: do_sync_def ex_opened start_refresh_def)
        (simp add: ex_conn_def ex_sync_msgs_def apply_message_def apply_entry_def ex_sync_result_def sync_done_def finish_def
          set_cookie_def Let_def)
    then show thesis using that by (auto simp: synchronise_def)
  qed
  have "\<exists>s'. save_checkpoint ex_ldap write_succeeds ?p ck ex_empty_fs = (Inr (), s')"
    by (simp add: save_checkpoint_def save_steps_def write_succeeds_def Let_def ex_ldap_def ex_empty_fs_def fs_files_def fs_dirs_def
        checkpoint_path_def ex_source_def dogtag_new_def path_parent_def add_dirs_def set_file_def) auto
  then have "\<exists>snap src' s'. dogtag_snapshot example_E ex_ldap write_succeeds (\<lambda>_. Some 150) ex_dogtag_ca ex_source ex_empty_fs = (Inr snap, src', s')"
    using sync by (auto simp: dogtag_snapshot_def refresh_def Let_def unix_now_def checkpoint_snapshot_def checked_add_u64_def
        ex_source_def dogtag_new_def)
  then obtain snap src' s' where run:
    "dogtag_snapshot example_E ex_ldap write_succeeds (\<lambda>_. Some 150) ex_dogtag_ca ex_source ex_empty_fs = (Inr snap, src', s')" by blast
  have "checkpoints_sorted ex_ldap" "bt_inv (ck_records (ds_state ex_source))"
    by (simp_all add: checkpoints_sorted_def ex_ldap_def ex_source_def dogtag_new_def checkpoint_default_def bt_inv_def)
  then have *: "map_of (ss_entries snap) serial = Some status \<longleftrightarrow>
      (\<exists>r \<in> {ex_record 1719878400}. \<not> sd_excluded r \<and> sd_serial r = serial \<and> stored_status r = status)" for serial status
    using snapshot_follows_directory [OF _ _ _ refl ex_serves run] current by simp
  have "map_of (ss_entries snap) [42] = Some (CertRevoked 1719878400 None)"
    unfolding * by (simp add: ex_record_def stored_status_def)
  moreover have "map_of (ss_entries snap) [43] = None"
    using * [of "[43]"] by (cases "map_of (ss_entries snap) [43]") (auto simp: ex_record_def)
  ultimately show ?thesis using run by blast
qed

section \<open>Where the code departs from its comments\<close>




text \<open>
  C40: A full poll always passes the check for duplicate serials, since its records are keyed by the
  serial before they are checked: of several directory entries with one serial the last in the search
  result is kept, whatever the others say.
\<close>

theorem poll_keeps_last_duplicate:
  assumes "hex_roundtrip E"
    and "poll_loop E D es (checkpoint_default\<lparr>ck_version := 1, ck_binding := binding\<rparr>, {}) = Some (Inr st)"
    and "polled_records E D es = rs @ r # rs'" and "sd_serial r \<notin> sd_serial ` set rs'"
  shows "\<exists>ck. finish st False = Inr ck \<and> bt_get (ck_records ck) (hex_encode E (sd_serial r)) = Some r"
proof -
  let ?id = "\<lambda>r. hex_encode E (sd_serial r)" and ?ps = "polled_records E D es"
  obtain ck present where st: "st = (ck, present)" by force
  have inv0: "bt_inv (ck_records (checkpoint_default\<lparr>ck_version := 1, ck_binding := binding\<rparr>))"
    by (simp add: checkpoint_default_def bt_inv_def)
  have ok: "bt_inv (ck_records ck)" "present = ?id ` set ?ps"
    "bt_get (ck_records ck) = fold (\<lambda>r m. m(?id r \<mapsto> r)) ?ps Map.empty"
    using poll_loop_ok [OF assms(2) inv0] by (simp_all add: st checkpoint_default_def bt_get_def comp_def)
  have keyed: "fold (\<lambda>r m. m(?id r \<mapsto> r)) xs m k = Some x \<Longrightarrow> m k = Some x \<or> k = ?id x" for xs m k x
  proof (induction xs arbitrary: m)
    case (Cons a xs)
    then have "(m(?id a \<mapsto> a)) k = Some x \<or> k = ?id x" unfolding fold_simps by blast
    then show ?case by (auto split: if_splits)
  qed simp
  have keys: "k = ?id x" if "(k, x) \<in> set (ck_records ck)" for k x
  proof -
    have "bt_get (ck_records ck) k = Some x"
      using that ok(1) strict_sorted_iff unfolding bt_inv_def bt_get_def by (auto intro!: map_of_is_SomeI)
    then show ?thesis using keyed [of ?ps Map.empty k x] ok(3) by simp
  qed
  have "distinct (map fst (ck_records ck))" using ok(1) strict_sorted_iff unfolding bt_inv_def by blast
  moreover have "map fst (ck_records ck) = map (hex_encode E) (map (sd_serial \<circ> snd) (ck_records ck))"
    using keys by auto
  ultimately have "distinct (map (hex_encode E) (map (sd_serial \<circ> snd) (ck_records ck)))" by simp
  then have "distinct (map (sd_serial \<circ> snd) (ck_records ck))" by (simp only: distinct_map)
  then have dist: "distinct (map (sd_serial \<circ> snd) (filter P (ck_records ck)))" for P by (rule distinct_map_filter)
  obtain ck' where fin: "finish st False = Inr ck'" using dist by (simp add: finish_def st Let_def)
  have later: "?id r \<notin> ?id ` set rs'"
    using assms(1,4) by (auto simp: image_iff) (metis hex_roundtripD sum.inject(2))
  have untouched: "k \<notin> ?id ` set xs \<Longrightarrow> fold (\<lambda>r m. m(?id r \<mapsto> r)) xs m k = m k" for xs m k
    by (induction xs arbitrary: m) auto
  have "bt_get (ck_records ck) (?id r) = Some r"
    unfolding ok(3) assms(3) using untouched [OF later] by simp
  moreover have "?id r \<in> present" unfolding ok(2) assms(3) by simp
  ultimately have "bt_get (ck_records ck') (?id r) = Some r"
    using finish_Inr(4) [OF fin [unfolded st] ok(1), of "?id r"] by simp
  then show ?thesis using fin by blast
qed

definition ex_valid_entry :: SearchEntry where
  "ex_valid_entry = \<lparr>sn_attrs = [(''cn'', [''42'']), (''certStatus'', [''VALID''])]\<rparr>"

definition ex_valid_record :: StoredRecord where
  "ex_valid_record = \<lparr>sd_serial = [42], sd_revoked = None, sd_excluded = False, sd_not_after = None\<rparr>"

lemma ex_valid_parsed: "parse_cert_entry example_E ex_numbers ex_valid_entry = Inr (Some ex_valid_record)"
proof -
  have "entry_attr ex_valid_entry ''cn'' = Some ''42''" "entry_attr ex_valid_entry ''certStatus'' = Some ''VALID''"
    "entry_attr ex_valid_entry ''notAfter'' = None"
    by (simp_all add: entry_attr_def ex_valid_entry_def eq_ignore_ascii_case_def ascii_lower_def)
  moreover have "parse_decimal_serial ex_numbers ''42'' = Some [42]"
    by (simp add: parse_decimal_serial_def ex_numbers_def is_ascii_digit_def decimal_value_def)
  ultimately show ?thesis by (simp add: parse_cert_entry_def entry_serial_def ex_valid_record_def)
qed

text \<open>A serial that is listed as revoked and then as valid is served as good.\<close>

theorem poll_keeps_last_duplicate_witness:
  "\<exists>st ck r. poll_loop example_E ex_numbers [Some (ex_entry_with ''1719878400000''), Some ex_valid_entry]
       (checkpoint_default\<lparr>ck_version := 1, ck_binding := ''b''\<rparr>, {}) = Some (Inr st) \<and>
     finish st False = Inr ck \<and> bt_get (ck_records ck) (hex_encode example_E [42]) = Some r \<and> stored_status r = CertGood"
proof -
  let ?es = "[Some (ex_entry_with ''1719878400000''), Some ex_valid_entry]"
  let ?ck = "checkpoint_default\<lparr>ck_version := 1, ck_binding := ''b''\<rparr>"
  obtain st where run: "poll_loop example_E ex_numbers ?es (?ck, {}) = Some (Inr st)"
    using ex_parsed ex_valid_parsed by (simp add: Let_def)
  have recs: "polled_records example_E ex_numbers ?es = [ex_record 1719878400] @ ex_valid_record # []"
    using ex_parsed ex_valid_parsed by (simp add: polled_records_def)
  have "\<exists>ck. finish st False = Inr ck \<and> bt_get (ck_records ck) (hex_encode example_E (sd_serial ex_valid_record)) = Some ex_valid_record"
    by (rule poll_keeps_last_duplicate [OF _ run recs]) simp_all
  then show ?thesis using run by (auto simp: ex_valid_record_def stored_status_def)
qed

end
