(* ===== verification/Server_Response.thy ===== *)
theory Server_Response
  imports Core_Router Sign_Pipeline
begin

text \<open>
  HTTP responses of the responder: the constant OCSP errors (\<^verbatim>\<open>crates/hoike-core/src/response.rs\<close>) and
  the building of error, live and pre-signed responses with their cache headers
  (\<^verbatim>\<open>crates/hoike-server/src/handlers.rs\<close>). The cache lifetime is computed in double precision, whose
  rounding is modelled.
\<close>

section \<open>Constant responses\<close>

definition UNAUTHORIZED :: bytes where "UNAUTHORIZED = [0x30, 0x03, 0x0A, 0x01, 0x06]"
definition MALFORMED_REQUEST :: bytes where "MALFORMED_REQUEST = [0x30, 0x03, 0x0A, 0x01, 0x01]"
definition INTERNAL_ERROR :: bytes where "INTERNAL_ERROR = [0x30, 0x03, 0x0A, 0x01, 0x02]"
definition TRY_LATER :: bytes where "TRY_LATER = [0x30, 0x03, 0x0A, 0x01, 0x03]"
definition CONTENT_TYPE_OCSP_RESPONSE :: string where "CONTENT_TYPE_OCSP_RESPONSE = ''application/ocsp-response''"
definition CONTENT_TYPE_OCSP_REQUEST :: string where "CONTENT_TYPE_OCSP_REQUEST = ''application/ocsp-request''"

text \<open>A response: status, headers by name, body.\<close>

record HttpResponse =
  hr_status :: nat
  hr_headers :: "(string \<times> string) list"
  hr_body :: bytes

definition ocsp_error_response :: "bytes \<Rightarrow> HttpResponse" where
  "ocsp_error_response status_der =
     \<lparr>hr_status = 200, hr_headers = [(''content-type'', CONTENT_TYPE_OCSP_RESPONSE), (''cache-control'', ''no-cache, no-store'')],
      hr_body = status_der\<rparr>"

definition live_response :: "bytes \<Rightarrow> HttpResponse" where
  "live_response response_bytes =
     \<lparr>hr_status = 200, hr_headers = [(''content-type'', CONTENT_TYPE_OCSP_RESPONSE), (''cache-control'', ''no-cache, no-store'')],
      hr_body = response_bytes\<rparr>"

section \<open>Double precision\<close>

text \<open>
  Rounding of a non-negative number to the nearest double, ties to even: the mantissa has 53 bits.
  A product below a half stays below a half, which is all that matters once it is truncated.
\<close>

fun bit_length :: "nat \<Rightarrow> nat" where
  "bit_length n = (if n = 0 then 0 else Suc (bit_length (n div 2)))"

declare bit_length.simps [simp del]

definition round_half_even :: "rat \<Rightarrow> int" where
  "round_half_even x =
     (let f = \<lfloor>x\<rfloor>; r = x - of_int f in
      if r < 1 / 2 then f else if 1 / 2 < r then f + 1 else if even f then f else f + 1)"

definition round_f64 :: "rat \<Rightarrow> rat" where
  "round_f64 v =
     (if v < 1 / 2 then v
      else let n = bit_length (nat \<lfloor>v\<rfloor>);
               ulp = (if 53 \<le> n then 2 ^ (n - 53) else 1 / 2 ^ (53 - n)) in
           of_int (round_half_even (v / ulp)) * ulp)"

text \<open>The cast of a double to \<^verbatim>\<open>u64\<close> truncates and saturates; what is not a number becomes 0.\<close>

definition rat_as_u64 :: "rat \<Rightarrow> u64" where
  "rat_as_u64 v = (if v < 0 then 0 else if 2 ^ 64 \<le> v then - 1 else of_int \<lfloor>v\<rfloor>)"

definition scale_secs :: "u64 \<Rightarrow> f64 \<Rightarrow> u64" where
  "scale_secs secs fraction =
     (case fraction of
        Finite r \<Rightarrow> if r \<le> 0 then 0 else rat_as_u64 (round_f64 (round_f64 (of_nat (unat secs)) * r))
      | Infinite pos \<Rightarrow> if secs = 0 \<or> \<not> pos then 0 else - 1
      | NaN \<Rightarrow> 0)"

section \<open>Dates in headers\<close>

definition http_days_to_ymd :: "nat \<Rightarrow> nat \<times> nat \<times> nat" where
  "http_days_to_ymd days =
     (let z = days + 719468;
          era = z div 146097;
          doe = z - era * 146097;
          yoe = (doe - doe div 1460 + doe div 36524 - doe div 146096) div 365;
          y = yoe + era * 400;
          doy = doe - (365 * yoe + yoe div 4 - yoe div 100);
          mp = (5 * doy + 2) div 153;
          d = doy - (153 * mp + 2) div 5 + 1;
          m = (if mp < 10 then mp + 3 else mp - 9);
          y' = (if m \<le> 2 then y + 1 else y) in
      (y', m, d))"

definition WEEKDAYS :: "string list" where
  "WEEKDAYS = [''Thu'', ''Fri'', ''Sat'', ''Sun'', ''Mon'', ''Tue'', ''Wed'']"

definition MONTHS :: "string list" where
  "MONTHS = [''Jan'', ''Feb'', ''Mar'', ''Apr'', ''May'', ''Jun'', ''Jul'', ''Aug'', ''Sep'', ''Oct'', ''Nov'', ''Dec'']"

definition pad2 :: "nat \<Rightarrow> string" where
  "pad2 n = (if n < 10 then ''0'' @ show_nat n else show_nat n)"

definition httpdate_format :: "nat \<Rightarrow> string" where
  "httpdate_format secs =
     (let days = secs div 86400;
          time_of_day = secs mod 86400;
          hours = time_of_day div 3600;
          minutes = (time_of_day mod 3600) div 60;
          seconds = time_of_day mod 60;
          weekday = WEEKDAYS ! (days mod 7);
          (year, month, day) = http_days_to_ymd days;
          month_name = MONTHS ! (month - 1) in
      weekday @ '', '' @ pad2 day @ '' '' @ month_name @ '' '' @ show_nat year @ '' '' @
      pad2 hours @ '':'' @ pad2 minutes @ '':'' @ pad2 seconds @ '' GMT'')"

text \<open>A header for a time that the system clock can represent: signed 64-bit seconds.\<close>

definition date_header :: "string \<Rightarrow> u64 \<Rightarrow> (string \<times> string) list" where
  "date_header name t = (if unat t < 2 ^ 63 then [(name, httpdate_format (unat t))] else [])"

section \<open>Pre-signed responses\<close>

definition in_window :: "Window \<Rightarrow> u64 \<Rightarrow> bool" where
  "in_window w now \<longleftrightarrow> \<not> (now < w_this_update_min w \<or> w_next_update_min w \<le> now)"

definition max_age :: "Window \<Rightarrow> f64 \<Rightarrow> u64 \<Rightarrow> u64" where
  "max_age w fraction now =
     (let validity_secs = saturating_sub_u64 (w_next_update_min w) (w_this_update_min w);
          scaled = scale_secs validity_secs fraction in
      min scaled (saturating_sub_u64 (w_next_update_min w) now))"

definition ocsp_success_response :: "externals \<Rightarrow> u64 \<Rightarrow> LookupResult \<Rightarrow> HttpResponse" where
  "ocsp_success_response E now result =
     (let w = lr_window result in
      if \<not> in_window w now then ocsp_error_response TRY_LATER
      else
      let etag = [CHR 0x22] @ hex_encode E (sha256 E (lr_response_bytes result)) @ [CHR 0x22];
          cache_control = ''max-age='' @ show_nat (unat (max_age w (lr_max_age_fraction result) now))
            @ '', public, no-transform, must-revalidate'' in
      \<lparr>hr_status = 200,
       hr_headers = [(''content-type'', CONTENT_TYPE_OCSP_RESPONSE), (''etag'', etag), (''cache-control'', cache_control)]
         @ date_header ''last-modified'' (w_this_update_min w) @ date_header ''expires'' (w_next_update_min w),
       hr_body = lr_response_bytes result\<rparr>)"

section \<open>Lifetimes\<close>

lemma http_days_to_ymd_same: "http_days_to_ymd = days_to_ymd"
  by (rule ext) (simp only: http_days_to_ymd_def days_to_ymd_def)

lemma max_age_bound: "in_window w now \<Longrightarrow> unat now + unat (max_age w fraction now) \<le> unat (w_next_update_min w)"
proof -
  assume "in_window w now"
  then have "unat now \<le> unat (w_next_update_min w)" by (simp add: in_window_def word_less_nat_alt word_le_nat_alt)
  moreover have "unat (max_age w fraction now) \<le> unat (saturating_sub_u64 (w_next_update_min w) now)"
    unfolding max_age_def Let_def by (simp only: word_le_nat_alt [symmetric] min.cobounded2)
  ultimately show ?thesis by simp
qed

end
