(* ===== verification/Server_Handlers.thy ===== *)
theory Server_Handlers
  imports Server_Response Hoike_Text
begin

text \<open>
  The OCSP endpoints (\<^verbatim>\<open>crates/hoike-server/src/handlers.rs\<close>) with the application state and the
  forwarding clients (\<^verbatim>\<open>state.rs\<close>, \<^verbatim>\<open>forwarding.rs\<close>). A request is parsed, its nonce checked, the
  certificate looked up, and the answer is a pre-signed response, one signed on demand, one fetched
  from an upstream responder, or an OCSP error. The HTTP client is third-party: a function from URL
  and body to an upstream response whose body arrives in chunks; counters and log lines are left out.
\<close>

section \<open>Upstream responders\<close>

datatype chunk_event = Chunk bytes | ChunkEnd | ChunkError string

record UpstreamResponse =
  up_status :: nat
  up_content_type :: "string option"
  up_content_length :: "u64 option"
  up_chunk :: "nat \<Rightarrow> chunk_event"

type_synonym client = "string \<Rightarrow> bytes \<Rightarrow> string + UpstreamResponse"

text \<open>What \<^verbatim>\<open>reqwest\<close> offers: the scheme of a URL, PEM bundles of roots, and clients for a root policy.\<close>

record http_externals =
  hx_url_scheme :: "string \<Rightarrow> string option"
  hx_roots_from_pem :: "bytes \<Rightarrow> string + bytes list"
  hx_build_client :: "bytes list option \<Rightarrow> string + client"

definition media_type_is :: "string \<Rightarrow> string \<Rightarrow> bool" where
  "media_type_is content_type expected \<longleftrightarrow>
     eq_ignore_ascii_case (trim (takeWhile (\<lambda>c. c \<noteq> CHR '';'') content_type)) expected"

definition MAX_FORWARD_RESPONSE :: nat where
  "MAX_FORWARD_RESPONSE = 65536"

text \<open>Reading the body: a loop over chunks, which ends only when the upstream or the bound ends it.\<close>

partial_function (option) read_body :: "(nat \<Rightarrow> chunk_event) \<Rightarrow> nat \<Rightarrow> bytes \<Rightarrow> (HttpResponse + bytes) option" where
  "read_body chunk n body =
     (case chunk n of
        Chunk c \<Rightarrow>
          if MAX_FORWARD_RESPONSE - length body < length c then Some (Inl (ocsp_error_response INTERNAL_ERROR))
          else read_body chunk (Suc n) (body @ c)
      | ChunkEnd \<Rightarrow> Some (Inr body)
      | ChunkError e \<Rightarrow> Some (Inl (ocsp_error_response TRY_LATER)))"

definition forward_permitted :: "http_externals \<Rightarrow> string \<Rightarrow> bool \<Rightarrow> bool" where
  "forward_permitted V url allow_insecure \<longleftrightarrow>
     (case hx_url_scheme V url of
        None \<Rightarrow> False
      | Some scheme \<Rightarrow> scheme = ''https'' \<or> allow_insecure \<and> scheme = ''http'')"

text \<open>\<^const>\<open>None\<close> is a request that never completes.\<close>

definition forward_request :: "http_externals \<Rightarrow> client \<Rightarrow> string \<Rightarrow> bytes \<Rightarrow> bool \<Rightarrow> HttpResponse option" where
  "forward_request V cl url der_bytes allow_insecure =
     (if \<not> forward_permitted V url allow_insecure then Some (ocsp_error_response INTERNAL_ERROR)
      else
      case cl url der_bytes of
        Inl e \<Rightarrow> Some (ocsp_error_response TRY_LATER)
      | Inr upstream \<Rightarrow>
          if \<not> (200 \<le> up_status upstream \<and> up_status upstream < 300) then Some (ocsp_error_response TRY_LATER)
          else if \<not> (case up_content_type upstream of
                       None \<Rightarrow> False | Some ct \<Rightarrow> media_type_is ct CONTENT_TYPE_OCSP_RESPONSE)
          then Some (ocsp_error_response TRY_LATER)
          else if (case up_content_length upstream of None \<Rightarrow> False | Some n \<Rightarrow> MAX_FORWARD_RESPONSE < unat n)
          then Some (ocsp_error_response INTERNAL_ERROR)
          else
          (case read_body (up_chunk upstream) 0 [] of
             None \<Rightarrow> None
           | Some (Inl resp) \<Rightarrow> Some resp
           | Some (Inr body) \<Rightarrow> Some (live_response body)))"

section \<open>Forwarding clients\<close>

text \<open>The roots that a CA's client trusts: \<^const>\<open>None\<close> for the bundled ones.\<close>

definition forward_roots ::
    "http_externals \<Rightarrow> (path \<Rightarrow> string + bytes) \<Rightarrow> CaConfig \<Rightarrow> string \<Rightarrow> string + bytes list option" where
  "forward_roots V read ca url =
     (case ca_forward_ca ca of
        None \<Rightarrow> Inr None
      | Some ca_path \<Rightarrow>
          if \<not> starts_with url ''https://''
          then Inl (''CA '' @ ca_label ca @ '': forward_ca requires an https:// forward_to (got '' @ url @ '')'')
          else
          bindR (map_errR (\<lambda>e. ''CA '' @ ca_label ca @ '': cannot read forward_ca '' @ show_path ca_path @ '': '' @ e)
                   (read ca_path)) (\<lambda>pem.
          bindR (map_errR (\<lambda>e. ''CA '' @ ca_label ca @ '': invalid forward_ca PEM bundle '' @ show_path ca_path @ '': '' @ e)
                   (hx_roots_from_pem V pem)) (\<lambda>roots.
          if roots = [] then Inl (''CA '' @ ca_label ca @ '': forward_ca '' @ show_path ca_path @ '' contains no certificates'')
          else Inr (Some roots))))"

fun build_clients ::
    "http_externals \<Rightarrow> (path \<Rightarrow> string + bytes) \<Rightarrow> string set \<Rightarrow> (string \<times> client) list \<Rightarrow> CaConfig list
      \<Rightarrow> string + (string \<times> client) list" where
  "build_clients V read labels clients [] = Inr clients"
| "build_clients V read labels clients (ca # cas) =
     (if ca_label ca \<in> labels
      then Inl (''duplicate CA label '' @ ca_label ca @ '' - each forwarding CA needs a unique trust policy'')
      else
      let labels' = insert (ca_label ca) labels in
      case ca_forward_to ca of
        None \<Rightarrow> build_clients V read labels' clients cas
      | Some url \<Rightarrow>
          bindR (forward_roots V read ca url) (\<lambda>roots.
          bindR (map_errR (\<lambda>e. ''CA '' @ ca_label ca @ '': building forwarding client: '' @ e) (hx_build_client V roots)) (\<lambda>cl.
          build_clients V read labels' (AList.update (ca_label ca) cl clients) cas)))"

definition build_forward_clients ::
    "http_externals \<Rightarrow> (path \<Rightarrow> string + bytes) \<Rightarrow> Config \<Rightarrow> string + (string \<times> client) list" where
  "build_forward_clients V read config = build_clients V read {} [] (cf_ca config)"

section \<open>Application state\<close>

record LiveSignerState =
  lv_signer :: signer
  lv_responder_key_bytes :: bytes
  lv_validity_secs :: u64
  lv_responder_cert_der :: "bytes option"

record AppState =
  ap_responder :: ResponderState
  ap_live_signers :: "(string \<times> LiveSignerState) list"
  ap_live_poisoned :: bool
  ap_config :: Config
  ap_forward_clients :: "(string \<times> client) list"

definition app_new :: "http_externals \<Rightarrow> (path \<Rightarrow> string + bytes) \<Rightarrow> ResponderState \<Rightarrow> Config \<Rightarrow> string + AppState" where
  "app_new V read responder config =
     bindR (build_forward_clients V read config) (\<lambda>forward_clients.
     Inr \<lparr>ap_responder = responder, ap_live_signers = [], ap_live_poisoned = False, ap_config = config,
          ap_forward_clients = forward_clients\<rparr>)"

definition forward_client_for :: "AppState \<Rightarrow> string \<Rightarrow> client option" where
  "forward_client_for app label = map_of (ap_forward_clients app) label"

text \<open>A poisoned lock makes the builder panic.\<close>

definition with_live_signer_for :: "string \<Rightarrow> LiveSignerState \<Rightarrow> AppState \<Rightarrow> AppState option" where
  "with_live_signer_for label live app =
     (if ap_live_poisoned app then None
      else Some (app\<lparr>ap_live_signers := AList.update label live (ap_live_signers app)\<rparr>))"

definition live_signer_for :: "AppState \<Rightarrow> string \<Rightarrow> LiveSignerState option" where
  "live_signer_for app label = (if ap_live_poisoned app then None else map_of (ap_live_signers app) label)"

definition ca_insecure :: "AppState \<Rightarrow> string \<Rightarrow> bool" where
  "ca_insecure app ca =
     (case find (\<lambda>c. ca_label c = ca) (cf_ca (ap_config app)) of None \<Rightarrow> False | Some c \<Rightarrow> ca_forward_insecure c)"

section \<open>Handling a request\<close>

text \<open>The clock as it is read on the way, after \<^verbatim>\<open>unwrap_or_default\<close>: at the lookup, when a live response
  is signed, and when the answer is built.\<close>

record request_clock =
  rc_lookup :: u64
  rc_sign :: u64
  rc_respond :: u64

record server_env =
  sx_ahu :: externals
  sx_request :: request_externals
  sx_ocsp :: ocsp_externals
  sx_cms :: cms_externals
  sx_http :: http_externals
  sx_metrics :: bool

type_synonym outcome = "HttpResponse \<times> string \<times> string"

definition presigned_status_label :: "server_env \<Rightarrow> bytes \<Rightarrow> string" where
  "presigned_status_label S response_bytes =
     (if sx_metrics S
      then (case extract_status_from_response (sx_ocsp S) response_bytes of
              Inr LiveGood \<Rightarrow> ''good''
            | Inr LiveUnknown \<Rightarrow> ''unknown''
            | Inr (LiveRevoked _ _) \<Rightarrow> ''revoked''
            | Inl _ \<Rightarrow> ''served'')
      else ''served'')"

definition internal_error :: "string \<Rightarrow> outcome option" where
  "internal_error ca = Some (ocsp_error_response INTERNAL_ERROR, ca, ''internalError'')"

definition malformed :: "outcome option" where
  "malformed = Some (ocsp_error_response MALFORMED_REQUEST, ''unknown'', ''malformed'')"

definition serve_live :: "server_env \<Rightarrow> AppState \<Rightarrow> request_clock \<Rightarrow> ParsedCertId \<Rightarrow> bytes \<Rightarrow> LookupResult \<Rightarrow> outcome option" where
  "serve_live S app clk cert_id nonce_bytes result =
     (let ca = lr_ca_label result in
      case live_signer_for app ca of
        None \<Rightarrow> internal_error ca
      | Some live \<Rightarrow>
          (case extract_status_for_cert (sx_ocsp S) (lr_response_bytes result) (pc_certid_der cert_id) of
             Inl _ \<Rightarrow> internal_error ca
           | Inr source \<Rightarrow>
               let now = rc_sign clk in
               (case sign_live_response_with_window (sx_ocsp S) (sx_cms S) (pc_certid_der cert_id) (ls_status source) nonce_bytes
                       (lv_responder_key_bytes live) (lv_signer live) now (ls_this_update source)
                       (min (min (ls_next_update source) (w_next_update_min (lr_window result)))
                          (saturating_add_u64 now (lv_validity_secs live)))
                       (lv_responder_cert_der live) of
                  Inr response_der \<Rightarrow> Some (live_response response_der, ca, ''live'')
                | Inl _ \<Rightarrow> internal_error ca)))"

definition serve_forward :: "server_env \<Rightarrow> AppState \<Rightarrow> bytes \<Rightarrow> LookupResult \<Rightarrow> outcome option" where
  "serve_forward S app der_bytes result =
     (let ca = lr_ca_label result in
      case lr_forward_to result of
        None \<Rightarrow> internal_error ca
      | Some url \<Rightarrow>
          (case forward_client_for app ca of
             None \<Rightarrow> internal_error ca
           | Some cl \<Rightarrow>
               map_option (\<lambda>resp. (resp, ca, ''forwarded'')) (forward_request (sx_http S) cl url der_bytes (ca_insecure app ca))))"

definition serve_hit ::
    "server_env \<Rightarrow> AppState \<Rightarrow> request_clock \<Rightarrow> bytes \<Rightarrow> ParsedRequest \<Rightarrow> ParsedCertId \<Rightarrow> LookupResult \<Rightarrow> outcome option" where
  "serve_hit S app clk der_bytes parsed cert_id result =
     (let ca = lr_ca_label result;
          presigned = Some (ocsp_success_response (sx_ahu S) (rc_respond clk) result, ca,
                            presigned_status_label S (lr_response_bytes result)) in
      if \<not> in_window (lr_window result) (rc_lookup clk)
      then Some (ocsp_error_response TRY_LATER, ca, ''tryLater'')
      else case pr_nonce parsed of
             None \<Rightarrow> presigned
           | Some nonce_bytes \<Rightarrow>
               if lr_nonce_policy result = ''live'' then serve_live S app clk cert_id nonce_bytes result
               else if lr_nonce_policy result = ''forward'' then serve_forward S app der_bytes result
               else presigned)"

definition unauthorized :: "outcome option" where
  "unauthorized = Some (ocsp_error_response UNAUTHORIZED, ''unknown'', ''unauthorized'')"

definition serve_miss ::
    "server_env \<Rightarrow> AppState \<Rightarrow> request_clock \<Rightarrow> bytes \<Rightarrow> ParsedRequest \<Rightarrow> ParsedCertId \<Rightarrow> outcome option" where
  "serve_miss S app clk der_bytes parsed cert_id =
     (case (pr_nonce parsed, scope_for_certid (rs_scope_map (ap_responder app)) cert_id) of
        (Some nonce_bytes, Some (ca, True, forward_to)) \<Rightarrow>
          (case live_signer_for app ca of
             Some live \<Rightarrow>
               (case sign_live_response (sx_ocsp S) (sx_cms S) (pc_certid_der cert_id) LiveUnknown nonce_bytes
                       (lv_responder_key_bytes live) (lv_signer live) (rc_sign clk) (lv_validity_secs live)
                       (lv_responder_cert_der live) of
                  Inr response_der \<Rightarrow> Some (live_response response_der, ca, ''unknown'')
                | Inl _ \<Rightarrow> unauthorized)
           | None \<Rightarrow>
               (case forward_to of
                  None \<Rightarrow> unauthorized
                | Some url \<Rightarrow>
                    (case forward_client_for app ca of
                       None \<Rightarrow> unauthorized
                     | Some cl \<Rightarrow>
                         map_option (\<lambda>resp. (resp, ca, ''forwarded''))
                           (forward_request (sx_http S) cl url der_bytes (ca_insecure app ca)))))
      | _ \<Rightarrow> unauthorized)"

definition process_request_inner :: "server_env \<Rightarrow> AppState \<Rightarrow> request_clock \<Rightarrow> bytes \<Rightarrow> outcome option" where
  "process_request_inner S app clk der_bytes =
     (case parse_ocsp_request (sx_ahu S) (sx_request S) der_bytes of
        Inl _ \<Rightarrow> malformed
      | Inr parsed \<Rightarrow>
          if map_option validate_nonce (pr_nonce parsed) = Some MalformedRequest then malformed
          else case pr_cert_ids parsed of
                 [] \<Rightarrow> malformed
               | cert_id # _ \<Rightarrow>
                   (case router_lookup (rs_scope_map (ap_responder app)) cert_id (pr_preferred_sig_algs parsed) of
                      Some result \<Rightarrow> serve_hit S app clk der_bytes parsed cert_id result
                    | None \<Rightarrow> serve_miss S app clk der_bytes parsed cert_id))"

definition process_request :: "server_env \<Rightarrow> AppState \<Rightarrow> request_clock \<Rightarrow> bytes \<Rightarrow> HttpResponse option" where
  "process_request S app clk der_bytes = map_option fst (process_request_inner S app clk der_bytes)"

definition handle_get_root :: HttpResponse where
  "handle_get_root = ocsp_error_response MALFORMED_REQUEST"

definition handle_get :: "server_env \<Rightarrow> AppState \<Rightarrow> request_clock \<Rightarrow> string \<Rightarrow> HttpResponse option" where
  "handle_get S app clk path =
     (case decode_get_path (sx_request S) path of
        Inl _ \<Rightarrow> Some (ocsp_error_response MALFORMED_REQUEST)
      | Inr der_bytes \<Rightarrow>
          if sc_max_request (cf_server (rs_config (ap_responder app))) < length der_bytes
          then Some (ocsp_error_response MALFORMED_REQUEST)
          else process_request S app clk der_bytes)"

text \<open>An unexpected content type of a POST is only logged.\<close>

definition handle_post :: "server_env \<Rightarrow> AppState \<Rightarrow> request_clock \<Rightarrow> bytes \<Rightarrow> HttpResponse option" where
  "handle_post S app clk body =
     (if sc_max_request (cf_server (rs_config (ap_responder app))) < length body
      then Some (ocsp_error_response MALFORMED_REQUEST)
      else process_request S app clk body)"

section \<open>Bodies from upstream\<close>

definition body_result_ok :: "bytes \<Rightarrow> HttpResponse + bytes \<Rightarrow> bool" where
  "body_result_ok body r \<longleftrightarrow> length body \<le> MAX_FORWARD_RESPONSE \<longrightarrow>
     (case r of Inl resp \<Rightarrow> resp \<in> {ocsp_error_response INTERNAL_ERROR, ocsp_error_response TRY_LATER}
      | Inr out \<Rightarrow> length out \<le> MAX_FORWARD_RESPONSE)"

lemma read_body_result:
  assumes "read_body chunk n body = Some r"
  shows "body_result_ok body r"
proof (rule read_body.raw_induct [where P = "\<lambda>chunk n body r. body_result_ok body r", OF _ assms])
  fix f :: "(nat \<Rightarrow> chunk_event) \<Rightarrow> nat \<Rightarrow> bytes \<Rightarrow> (HttpResponse + bytes) option"
  fix chunk n body r
  assume IH: "\<And>chunk n body r. f chunk n body = Some r \<Longrightarrow> body_result_ok body r"
    and step: "(case chunk n of
        Chunk c \<Rightarrow> if MAX_FORWARD_RESPONSE - length body < length c then Some (Inl (ocsp_error_response INTERNAL_ERROR))
          else f chunk (Suc n) (body @ c)
      | ChunkEnd \<Rightarrow> Some (Inr body)
      | ChunkError e \<Rightarrow> Some (Inl (ocsp_error_response TRY_LATER))) = Some r"
  show "body_result_ok body r"
  proof (cases "chunk n")
    case (Chunk c)
    show ?thesis
    proof (cases "MAX_FORWARD_RESPONSE - length body < length c")
      case True
      then show ?thesis using step Chunk by (auto simp: body_result_ok_def)
    next
      case False
      then have "body_result_ok (body @ c) r" using step Chunk IH by simp
      then show ?thesis using False by (auto simp: body_result_ok_def)
    qed
  qed (use step in \<open>auto simp: body_result_ok_def\<close>)
qed

text \<open>The loop ends when some chunk is the last one, and also when none is but all have data.\<close>

lemma read_body_ends:
  assumes "\<forall>c. chunk (n + k) \<noteq> Chunk c"
  shows "\<exists>r. read_body chunk n body = Some r"
  using assms
proof (induction k arbitrary: n body)
  case 0
  then show ?case by (subst read_body.simps) (auto split: chunk_event.split)
next
  case (Suc k)
  then show ?case by (subst read_body.simps) (auto split: chunk_event.split)
qed

lemma read_body_bounded:
  assumes "\<forall>k. chunk k \<noteq> Chunk []" and "length body \<le> MAX_FORWARD_RESPONSE"
  shows "\<exists>r. read_body chunk n body = Some r"
  using assms(2)
proof (induction "MAX_FORWARD_RESPONSE - length body" arbitrary: n body rule: less_induct)
  case less
  show ?case
  proof (cases "chunk n")
    case (Chunk c)
    have "c \<noteq> []" using assms(1) Chunk by metis
    show ?thesis
    proof (cases "MAX_FORWARD_RESPONSE - length body < length c")
      case True
      then show ?thesis using Chunk by (subst read_body.simps) simp
    next
      case False
      then have "MAX_FORWARD_RESPONSE - length (body @ c) < MAX_FORWARD_RESPONSE - length body"
        "length (body @ c) \<le> MAX_FORWARD_RESPONSE"
        using \<open>c \<noteq> []\<close> less.prems by (cases c; simp)+
      then have "\<exists>r. read_body chunk (Suc n) (body @ c) = Some r" by (rule less.hyps)
      then show ?thesis using Chunk False by (subst read_body.simps) simp
    qed
  qed (subst read_body.simps, simp)+
qed

section \<open>What an answer is\<close>

definition error_bodies :: "bytes set" where
  "error_bodies = {MALFORMED_REQUEST, INTERNAL_ERROR, TRY_LATER, UNAUTHORIZED}"

text \<open>The looked-up response itself, inside its window, cacheable no longer than it is valid.\<close>

definition presigned_answer :: "request_clock \<Rightarrow> LookupResult \<Rightarrow> HttpResponse \<Rightarrow> bool" where
  "presigned_answer clk result resp \<longleftrightarrow>
     hr_body resp = lr_response_bytes result \<and> in_window (lr_window result) (rc_lookup clk) \<and>
     in_window (lr_window result) (rc_respond clk) \<and>
     (\<exists>n. (''cache-control'', ''max-age='' @ show_nat n @ '', public, no-transform, must-revalidate'') \<in> set (hr_headers resp) \<and>
        unat (rc_respond clk) + n \<le> unat (w_next_update_min (lr_window result)))"

text \<open>A response signed now by the CA's own live signer, with the nonce, inside the given window.\<close>

definition live_answer ::
    "server_env \<Rightarrow> AppState \<Rightarrow> request_clock \<Rightarrow> string \<Rightarrow> ParsedCertId \<Rightarrow> bytes \<Rightarrow> LiveCertStatus \<Rightarrow> u64 \<Rightarrow> u64 \<Rightarrow> HttpResponse \<Rightarrow> bool" where
  "live_answer S app clk ca cert_id nonce status this_update next_update resp \<longleftrightarrow>
     (\<exists>live data sig. live_signer_for app ca = Some live \<and> lv_signer live 0 data = Inr sig \<and>
        oe_response_to_der (sx_ocsp S) \<lparr>so_data = data, so_signature = sig\<rparr> = Inr (hr_body resp) \<and>
        live_data_ok (sx_ocsp S) (sx_cms S) (pc_certid_der cert_id) status nonce (rc_sign clk) this_update next_update
          (lv_responder_cert_der live) data)"

text \<open>A bounded answer of the CA's own upstream, over a permitted channel.\<close>

definition forwarded_answer :: "server_env \<Rightarrow> AppState \<Rightarrow> string \<Rightarrow> string option \<Rightarrow> bytes \<Rightarrow> HttpResponse \<Rightarrow> bool" where
  "forwarded_answer S app ca forward_to der_bytes resp \<longleftrightarrow>
     (\<exists>url cl upstream. forward_to = Some url \<and> map_of (ap_forward_clients app) ca = Some cl \<and>
        forward_permitted (sx_http S) url (ca_insecure app ca) \<and> cl url der_bytes = Inr upstream \<and>
        read_body (up_chunk upstream) 0 [] = Some (Inr (hr_body resp)) \<and> length (hr_body resp) \<le> 65536)"

lemma error_response_body [simp]: "hr_body (ocsp_error_response b) = b" "hr_body (live_response b) = b"
  by (simp_all add: ocsp_error_response_def live_response_def)

lemma forward_request_Some:
  assumes "forward_request V cl url der ins = Some resp"
  shows "hr_body resp \<in> error_bodies \<or> forward_permitted V url ins \<and> (\<exists>upstream. cl url der = Inr upstream \<and>
    read_body (up_chunk upstream) 0 [] = Some (Inr (hr_body resp)) \<and> length (hr_body resp) \<le> 65536)"
proof (cases "\<exists>upstream body. forward_permitted V url ins \<and> cl url der = Inr upstream \<and>
    read_body (up_chunk upstream) 0 [] = Some (Inr body) \<and> resp = live_response body")
  case True
  then obtain upstream body where *: "forward_permitted V url ins" "cl url der = Inr upstream"
    "read_body (up_chunk upstream) 0 [] = Some (Inr body)" "resp = live_response body" by blast
  then show ?thesis using read_body_result [OF *(3)] by (simp add: body_result_ok_def MAX_FORWARD_RESPONSE_def)
next
  case False
  have "resp \<in> ocsp_error_response ` {INTERNAL_ERROR, TRY_LATER}"
  proof (cases "cl url der")
    case (Inl e)
    then show ?thesis using assms by (auto simp: forward_request_def split: if_splits)
  next
    case (Inr upstream)
    show ?thesis
    proof (cases "read_body (up_chunk upstream) 0 []")
      case None
      then show ?thesis using assms Inr by (auto simp: forward_request_def split: if_splits)
    next
      case (Some r)
      then show ?thesis
        using assms Inr False read_body_result [OF Some] by (cases r) (auto simp: forward_request_def body_result_ok_def split: if_splits)
    qed
  qed
  then show ?thesis by (auto simp: error_bodies_def)
qed

lemma forwarded_answerI:
  assumes "forward_request (sx_http S) cl url der (ca_insecure app ca) = Some resp" and "forward_client_for app ca = Some cl"
  shows "hr_body resp \<in> error_bodies \<or> forwarded_answer S app ca (Some url) der resp"
  using forward_request_Some [OF assms(1)] assms(2) unfolding forwarded_answer_def forward_client_for_def by auto

lemma live_answerI:
  assumes "live_signer_for app ca = Some live"
    and "sign_live_response_with_window (sx_ocsp S) (sx_cms S) (pc_certid_der cert_id) status nonce (lv_responder_key_bytes live)
      (lv_signer live) (rc_sign clk) this_update next_update (lv_responder_cert_der live) = Inr (hr_body resp)"
  shows "live_answer S app clk ca cert_id nonce status this_update next_update resp"
  using sign_live_response_with_window_Inr [OF assms(2)] assms(1) unfolding live_answer_def by blast

lemma presigned_response:
  assumes "in_window (lr_window result) (rc_lookup clk)"
  shows "hr_body (ocsp_success_response E (rc_respond clk) result) \<in> error_bodies \<or>
    presigned_answer clk result (ocsp_success_response E (rc_respond clk) result)"
proof (cases "in_window (lr_window result) (rc_respond clk)")
  case True
  then show ?thesis
    using assms max_age_bound [OF True, of "lr_max_age_fraction result"]
    by (auto simp: ocsp_success_response_def presigned_answer_def Let_def)
next
  case False
  then show ?thesis by (simp add: ocsp_success_response_def error_bodies_def)
qed

lemma serve_live_Some:
  assumes "serve_live S app clk cert_id nonce result = Some (resp, ca, status)"
  shows "hr_body resp \<in> error_bodies \<or>
    (\<exists>src next. extract_status_for_cert (sx_ocsp S) (lr_response_bytes result) (pc_certid_der cert_id) = Inr src \<and>
       next \<le> w_next_update_min (lr_window result) \<and> next \<le> ls_next_update src \<and>
       live_answer S app clk (lr_ca_label result) cert_id nonce (ls_status src) (ls_this_update src) next resp)"
proof (cases "live_signer_for app (lr_ca_label result)")
  case None
  then show ?thesis using assms by (auto simp: serve_live_def internal_error_def error_bodies_def)
next
  case (Some live)
  show ?thesis
  proof (cases "extract_status_for_cert (sx_ocsp S) (lr_response_bytes result) (pc_certid_der cert_id)")
    case (Inl e)
    then show ?thesis using assms Some by (auto simp: serve_live_def internal_error_def error_bodies_def)
  next
    case (Inr src)
    let ?next = "min (min (ls_next_update src) (w_next_update_min (lr_window result)))
      (saturating_add_u64 (rc_sign clk) (lv_validity_secs live))"
    let ?signed = "sign_live_response_with_window (sx_ocsp S) (sx_cms S) (pc_certid_der cert_id) (ls_status src) nonce
      (lv_responder_key_bytes live) (lv_signer live) (rc_sign clk) (ls_this_update src) ?next (lv_responder_cert_der live)"
    show ?thesis
    proof (cases ?signed)
      case (Inl e)
      then show ?thesis using assms Some Inr by (auto simp: serve_live_def internal_error_def error_bodies_def Let_def)
    next
      case signed: (Inr der)
      then have "resp = live_response der" using assms Some Inr by (simp add: serve_live_def Let_def)
      then have "live_answer S app clk (lr_ca_label result) cert_id nonce (ls_status src) (ls_this_update src) ?next resp"
        using Some signed by (intro live_answerI) simp_all
      moreover have "?next \<le> w_next_update_min (lr_window result)" "?next \<le> ls_next_update src"
        by (simp_all add: min.coboundedI1)
      ultimately show ?thesis using Inr by blast
    qed
  qed
qed

lemma serve_forward_Some:
  assumes "serve_forward S app der result = Some (resp, ca, status)"
  shows "hr_body resp \<in> error_bodies \<or> forwarded_answer S app (lr_ca_label result) (lr_forward_to result) der resp"
proof (cases "lr_forward_to result")
  case None
  then show ?thesis using assms by (auto simp: serve_forward_def internal_error_def error_bodies_def)
next
  case (Some url)
  show ?thesis
  proof (cases "forward_client_for app (lr_ca_label result)")
    case None
    then show ?thesis using assms Some by (auto simp: serve_forward_def internal_error_def error_bodies_def)
  next
    case cl: (Some cl)
    then have "forward_request (sx_http S) cl url der (ca_insecure app (lr_ca_label result)) = Some resp"
      using assms Some by (auto simp: serve_forward_def Let_def)
    then show ?thesis using forwarded_answerI cl unfolding Some by blast
  qed
qed

text \<open>A certificate that no bundle answers for: only a complete scope may say that it is unknown.\<close>

lemma serve_miss_Some:
  assumes "serve_miss S app clk der parsed cert_id = Some (resp, ca, status)"
  shows "hr_body resp \<in> error_bodies \<or>
    (\<exists>nonce forward_to. pr_nonce parsed = Some nonce \<and>
       scope_for_certid (rs_scope_map (ap_responder app)) cert_id = Some (ca, True, forward_to) \<and>
       ((\<exists>next. live_answer S app clk ca cert_id nonce LiveUnknown (rc_sign clk) next resp) \<or>
        forwarded_answer S app ca forward_to der resp))"
proof -
  let ?scope = "scope_for_certid (rs_scope_map (ap_responder app)) cert_id"
  have unauthorized: "serve_miss S app clk der parsed cert_id = unauthorized \<Longrightarrow> hr_body resp \<in> error_bodies"
    using assms by (auto simp: unauthorized_def error_bodies_def)
  show ?thesis
  proof (cases "\<exists>nonce ca forward_to. pr_nonce parsed = Some nonce \<and> ?scope = Some (ca, True, forward_to)")
    case False
    then have "serve_miss S app clk der parsed cert_id = unauthorized"
      by (auto simp: serve_miss_def split: option.splits bool.splits)
    then show ?thesis using unauthorized by blast
  next
    case True
    then obtain nonce ca' forward_to where scope: "pr_nonce parsed = Some nonce" "?scope = Some (ca', True, forward_to)" by blast
    show ?thesis
    proof (cases "live_signer_for app ca'")
      case (Some live)
      show ?thesis
      proof (cases "sign_live_response (sx_ocsp S) (sx_cms S) (pc_certid_der cert_id) LiveUnknown nonce
          (lv_responder_key_bytes live) (lv_signer live) (rc_sign clk) (lv_validity_secs live) (lv_responder_cert_der live)")
        case (Inl e)
        then have "serve_miss S app clk der parsed cert_id = unauthorized" using scope Some by (simp add: serve_miss_def)
        then show ?thesis using unauthorized by blast
      next
        case (Inr out)
        then obtain t where "sign_live_response_with_window (sx_ocsp S) (sx_cms S) (pc_certid_der cert_id) LiveUnknown nonce
            (lv_responder_key_bytes live) (lv_signer live) (rc_sign clk) (rc_sign clk) t (lv_responder_cert_der live) = Inr out"
          by (auto simp: sign_live_response_def result_inverts)
        moreover have "resp = live_response out" "ca = ca'" using assms scope Some Inr by (simp_all add: serve_miss_def)
        ultimately have "live_answer S app clk ca cert_id nonce LiveUnknown (rc_sign clk) t resp"
          using Some by (intro live_answerI) simp_all
        then show ?thesis using scope \<open>ca = ca'\<close> by blast
      qed
    next
      case None
      show ?thesis
      proof (cases "forward_to \<noteq> None \<and> forward_client_for app ca' \<noteq> None")
        case False
        then have "serve_miss S app clk der parsed cert_id = unauthorized"
          using scope None by (auto simp: serve_miss_def split: option.split)
        then show ?thesis using unauthorized by blast
      next
        case True
        then obtain url cl where fw: "forward_to = Some url" "forward_client_for app ca' = Some cl" by blast
        then have "forward_request (sx_http S) cl url der (ca_insecure app ca') = Some resp" "ca = ca'"
          using assms scope None by (auto simp: serve_miss_def)
        then show ?thesis
          using forwarded_answerI [of S cl url der app ca' resp] fw scope by blast
      qed
    qed
  qed
qed

text \<open>Every answer of the responder is one of these.\<close>

definition justified ::
    "server_env \<Rightarrow> AppState \<Rightarrow> request_clock \<Rightarrow> bytes \<Rightarrow> ParsedRequest \<Rightarrow> ParsedCertId \<Rightarrow> HttpResponse \<Rightarrow> bool" where
  "justified S app clk der parsed cert_id resp \<longleftrightarrow>
     (case router_lookup (rs_scope_map (ap_responder app)) cert_id (pr_preferred_sig_algs parsed) of
        Some result \<Rightarrow>
          presigned_answer clk result resp \<or>
          (\<exists>nonce src next. pr_nonce parsed = Some nonce \<and>
             extract_status_for_cert (sx_ocsp S) (lr_response_bytes result) (pc_certid_der cert_id) = Inr src \<and>
             next \<le> w_next_update_min (lr_window result) \<and> next \<le> ls_next_update src \<and>
             live_answer S app clk (lr_ca_label result) cert_id nonce (ls_status src) (ls_this_update src) next resp) \<or>
          forwarded_answer S app (lr_ca_label result) (lr_forward_to result) der resp
      | None \<Rightarrow>
          (\<exists>nonce ca forward_to. pr_nonce parsed = Some nonce \<and>
             scope_for_certid (rs_scope_map (ap_responder app)) cert_id = Some (ca, True, forward_to) \<and>
             ((\<exists>next. live_answer S app clk ca cert_id nonce LiveUnknown (rc_sign clk) next resp) \<or>
              forwarded_answer S app ca forward_to der resp)))"

lemma serve_hit_Some:
  assumes "serve_hit S app clk der parsed cert_id result = Some (resp, ca, status)"
    and "router_lookup (rs_scope_map (ap_responder app)) cert_id (pr_preferred_sig_algs parsed) = Some result"
  shows "hr_body resp \<in> error_bodies \<or> justified S app clk der parsed cert_id resp"
proof (cases "in_window (lr_window result) (rc_lookup clk)")
  case False
  then show ?thesis using assms(1) by (auto simp: serve_hit_def Let_def error_bodies_def)
next
  case True
  let ?presigned = "ocsp_success_response (sx_ahu S) (rc_respond clk) result"
  consider "resp = ?presigned"
    | nonce where "pr_nonce parsed = Some nonce" "serve_live S app clk cert_id nonce result = Some (resp, ca, status)"
    | "serve_forward S app der result = Some (resp, ca, status)"
    using assms(1) True by (auto simp: serve_hit_def Let_def split: option.splits if_splits)
  then show ?thesis
  proof cases
    case 1
    then show ?thesis using presigned_response [OF True, of "sx_ahu S"] assms(2) by (auto simp: justified_def)
  next
    case 2
    then show ?thesis using serve_live_Some [OF 2(2)] assms(2) by (auto simp: justified_def)
  next
    case 3
    then show ?thesis using serve_forward_Some [OF 3] assms(2) by (auto simp: justified_def)
  qed
qed

section \<open>Trust of the forwarding clients\<close>

definition client_ok :: "http_externals \<Rightarrow> (path \<Rightarrow> string + bytes) \<Rightarrow> CaConfig \<Rightarrow> client option \<Rightarrow> bool" where
  "client_ok V read ca c \<longleftrightarrow>
     (case ca_forward_to ca of
        None \<Rightarrow> c = None
      | Some url \<Rightarrow> \<exists>roots cl. forward_roots V read ca url = Inr roots \<and> hx_build_client V roots = Inr cl \<and> c = Some cl)"

lemma build_clients_Inr:
  assumes "build_clients V read labels clients cas = Inr cs" and "fst ` set clients \<subseteq> labels"
  shows "distinct (map ca_label cas) \<and> labels \<inter> set (map ca_label cas) = {} \<and>
    (\<forall>l \<in> labels. map_of cs l = map_of clients l) \<and> (\<forall>ca \<in> set cas. client_ok V read ca (map_of cs (ca_label ca)))"
  using assms
proof (induction cas arbitrary: labels clients)
  case (Cons ca cas)
  let ?labels = "insert (ca_label ca) labels"
  have new: "ca_label ca \<notin> labels" using Cons.prems(1) by (auto split: if_splits)
  then have fresh: "map_of clients (ca_label ca) = None" using Cons.prems(2) by (auto simp: map_of_eq_None_iff)
  show ?case
  proof (cases "ca_forward_to ca")
    case None
    then have "build_clients V read ?labels clients cas = Inr cs" using Cons.prems(1) new by simp
    from Cons.IH [OF this] Cons.prems(2) None new fresh show ?thesis
      by (auto simp: client_ok_def)
  next
    case (Some url)
    then obtain roots cl where *: "forward_roots V read ca url = Inr roots" "hx_build_client V roots = Inr cl"
      "build_clients V read ?labels (AList.update (ca_label ca) cl clients) cas = Inr cs"
      using Cons.prems(1) new by (auto simp: result_inverts)
    have "fst ` set (AList.update (ca_label ca) cl clients) \<subseteq> ?labels"
      using Cons.prems(2) by (simp add: dom_update) blast
    from Cons.IH [OF *(3) this] *(1,2) Some new show ?thesis
      by (auto simp: client_ok_def update_conv')
  qed
qed simp

lemma forward_roots_pinned:
  "forward_roots V read ca url = Inr roots \<longleftrightarrow>
     (case ca_forward_ca ca of
        None \<Rightarrow> roots = None
      | Some p \<Rightarrow> starts_with url ''https://'' \<and>
          (\<exists>pem rs. read p = Inr pem \<and> hx_roots_from_pem V pem = Inr rs \<and> rs \<noteq> [] \<and> roots = Some rs))"
  by (auto simp: forward_roots_def result_inverts split: option.splits if_splits)

section \<open>Malformed requests\<close>

lemma not_malformed:
  "serve_hit S app clk der parsed cert_id result \<noteq> malformed" "serve_miss S app clk der parsed cert_id \<noteq> malformed"
proof -
  show "serve_hit S app clk der parsed cert_id result \<noteq> malformed"
    by (auto simp: serve_hit_def serve_live_def serve_forward_def malformed_def internal_error_def presigned_status_label_def
        Let_def split: option.splits sum.splits LiveCertStatus.splits if_splits)
  show "serve_miss S app clk der parsed cert_id \<noteq> malformed"
    by (auto simp: serve_miss_def malformed_def unauthorized_def split: option.splits sum.splits bool.splits)
qed

lemma validate_nonce_malformed: "validate_nonce n = MalformedRequest \<longleftrightarrow> length n = 0 \<or> 128 < length n"
  by (auto simp: validate_nonce_def Let_def)

end
