(* ===== verification/Server_Properties.thy ===== *)
theory Server_Properties
  imports Server_Handlers Core_Examples
begin

text \<open>
  What the HTTP endpoints promise: every answer is an OCSP error or is justified by the working set,
  the CA's own live signer or its own upstream; every request is answered; exactly the malformed
  requests are refused as such; and a CA's upstream is contacted under that CA's trust roots only.
\<close>

section \<open>A small server\<close>

definition ex_app :: AppState where
  "ex_app = \<lparr>ap_responder = ex_responder, ap_live_signers = [], ap_live_poisoned = False, ap_config = ex_config,
     ap_forward_clients = []\<rparr>"

definition ex_server :: "ocsp_externals \<Rightarrow> cms_externals \<Rightarrow> http_externals \<Rightarrow> server_env" where
  "ex_server K X V = \<lparr>sx_ahu = example_E, sx_request = ex_request_externals, sx_ocsp = K, sx_cms = X, sx_http = V,
     sx_metrics = False\<rparr>"

definition ex_clock :: request_clock where
  "ex_clock = \<lparr>rc_lookup = 150, rc_sign = 150, rc_respond = 150\<rparr>"

definition ex_parsed_id :: ParsedCertId where
  "ex_parsed_id = \<lparr>pc_entry_key = replicate 32 0, pc_certid_der = [1, 2], pc_issuer_name_hash = [2], pc_issuer_key_hash = [3],
     pc_serial_number = [4], pc_hash_alg_oid = ''2.16.840.1.101.3.4.2.1''\<rparr>"

definition ex_parsed :: ParsedRequest where
  "ex_parsed = \<lparr>pr_cert_ids = [ex_parsed_id], pr_nonce = None, pr_preferred_sig_algs = []\<rparr>"

lemma ex_parse: "parse_ocsp_request example_E ex_request_externals [48] = Inr ex_parsed"
  by (simp add: parse_ocsp_request_def MAX_REQUEST_SIZE_def ex_request_externals_def parse_cert_id_def parse_nonce_def
      parse_preferred_sig_algs_def ex_parsed_def ex_parsed_id_def)

lemma ex_bundle_hit: "Ahu_Bundle.lookup ex_bundle (replicate 32 0) = Some [48, 3, 10, 1, 0]"
proof -
  have fits: "layout_fits example_E example_builder"
    by (rule build_layout_fits [OF wf_example_builder build_example]) simp
  have "sorted_index (b_index ex_bundle)" using ex_bundle_sound by (simp add: structurally_sound_def)
  then have "Ahu_Bundle.lookup ex_bundle (replicate 32 0) = opt_join (entry_map (bb_entries example_builder) (replicate 32 0, ALG_DISC_DEFAULT))"
    using lookup_bundle_map built_bundle_map [OF wf_example_builder fits] by (simp add: ex_bundle_def)
  also have "\<dots> = Some [48, 3, 10, 1, 0]"
    by (simp add: entry_map_def example_builder_entries record_key_def opt_join_def ALG_DISC_DEFAULT_def is_tombstone_def
        flags_contain_def TOMBSTONE_def example_key_1_def example_key_2_def)
  finally show ?thesis .
qed

definition ex_result :: LookupResult where
  "ex_result = \<lparr>lr_response_bytes = [48, 3, 10, 1, 0],
     lr_window = \<lparr>w_produced_at = 100, w_this_update_min = 100, w_next_update_min = 200, w_next_update_max = 300\<rparr>,
     lr_ca_label = ''ca1'', lr_nonce_policy = ''ignore'', lr_forward_to = None, lr_max_age_fraction = Finite (1 / 2)\<rparr>"

lemma ex_lookup: "router_lookup ex_map ex_parsed_id [] = Some ex_result"
proof -
  have "search_entry ex_map ex_parsed_id [] ex_entry = Some [48, 3, 10, 1, 0]"
    using ex_bundle_hit by (simp add: search_entry_def ex_map_def ex_entry_def ca_entry_def ex_parsed_id_def)
  moreover have "mf_window (b_manifest ex_bundle) = lr_window ex_result"
    by (simp add: ex_bundle_parts example_manifest_def ex_result_def)
  ultimately show ?thesis
    by (simp add: router_lookup_def) (simp add: ex_map_def ex_parsed_id_def ex_entry_def ca_entry_def ex_ca_def ex_result_def)
qed

lemma ex_processed:
  "process_request_inner (ex_server K X V) ex_app ex_clock [48] =
     Some (ocsp_success_response example_E 150 ex_result, ''ca1'', ''served'')"
proof -
  have "rs_scope_map ex_responder = ex_map" by (simp add: ex_responder_def)
  moreover have "in_window (lr_window ex_result) 150" by (simp add: in_window_def ex_result_def)
  ultimately show ?thesis
    using ex_parse ex_lookup
    by (simp add: process_request_inner_def ex_server_def ex_app_def ex_parsed_def serve_hit_def Let_def ex_clock_def
        presigned_status_label_def) (simp add: ex_result_def)
qed

lemma ex_body: "hr_body (ocsp_success_response example_E 150 ex_result) = [48, 3, 10, 1, 0]"
  by (simp add: ocsp_success_response_def Let_def in_window_def ex_result_def)

lemma ex_not_error: "[48, 3, 10, 1, 0] \<notin> error_bodies"
  by (simp add: error_bodies_def MALFORMED_REQUEST_def INTERNAL_ERROR_def TRY_LATER_def UNAUTHORIZED_def)

section \<open>Answers\<close>

text \<open>
  C5: Every answer is one of the four unsigned OCSP errors, or it is justified for the first
  certificate of the parsed request: the stored response, inside its window both at lookup and when
  it is sent and cacheable only until it expires; or, for a request with a nonce, a response signed
  by that CA's live signer with the stored status, no longer valid than the stored one; or at most
  64 KiB from that CA's upstream over a permitted channel; and where nothing is stored, only a
  complete scope answers that the certificate is unknown.
\<close>

theorem response_justified:
  assumes "process_request_inner S app clk der = Some (resp, ca, status)"
  shows "hr_body resp \<in> error_bodies \<or>
    (\<exists>parsed cert_id rest. parse_ocsp_request (sx_ahu S) (sx_request S) der = Inr parsed \<and>
       pr_cert_ids parsed = cert_id # rest \<and> justified S app clk der parsed cert_id resp)"
proof (cases "process_request_inner S app clk der = malformed")
  case True
  then show ?thesis using assms by (auto simp: malformed_def error_bodies_def)
next
  case False
  then obtain parsed cert_id rest where parsed: "parse_ocsp_request (sx_ahu S) (sx_request S) der = Inr parsed"
      "pr_cert_ids parsed = cert_id # rest"
    and run: "(case router_lookup (rs_scope_map (ap_responder app)) cert_id (pr_preferred_sig_algs parsed) of
        Some result \<Rightarrow> serve_hit S app clk der parsed cert_id result
      | None \<Rightarrow> serve_miss S app clk der parsed cert_id) = Some (resp, ca, status)"
    using assms unfolding process_request_inner_def by (auto split: sum.splits if_splits list.splits)
  have "hr_body resp \<in> error_bodies \<or> justified S app clk der parsed cert_id resp"
  proof (cases "router_lookup (rs_scope_map (ap_responder app)) cert_id (pr_preferred_sig_algs parsed)")
    case None
    then show ?thesis using run serve_miss_Some [of S app clk der parsed cert_id resp ca status] by (auto simp: justified_def)
  next
    case (Some result)
    then show ?thesis using run serve_hit_Some [OF _ Some] by simp
  qed
  then show ?thesis using parsed by blast
qed

theorem response_justified_witness:
  "\<forall>K X V. \<exists>resp. process_request_inner (ex_server K X V) ex_app ex_clock [48] = Some (resp, ''ca1'', ''served'') \<and>
     hr_body resp = [48, 3, 10, 1, 0] \<and> justified (ex_server K X V) ex_app ex_clock [48] ex_parsed ex_parsed_id resp"
proof (intro allI)
  fix K X V
  show "\<exists>resp. process_request_inner (ex_server K X V) ex_app ex_clock [48] = Some (resp, ''ca1'', ''served'') \<and>
     hr_body resp = [48, 3, 10, 1, 0] \<and> justified (ex_server K X V) ex_app ex_clock [48] ex_parsed ex_parsed_id resp"
    using response_justified [OF ex_processed, of K X V] ex_processed [of K X V] ex_body ex_not_error ex_parse
    by (simp add: ex_server_def ex_parsed_def)
qed

lemma forward_request_returns:
  assumes "\<And>upstream. cl url der = Inr upstream \<Longrightarrow>
      (\<exists>k. \<forall>c. up_chunk upstream k \<noteq> Chunk c) \<or> (\<forall>k. up_chunk upstream k \<noteq> Chunk [])"
  shows "\<exists>resp. forward_request V cl url der ins = Some resp"
proof (cases "cl url der")
  case (Inr upstream)
  then have "\<exists>r. read_body (up_chunk upstream) 0 [] = Some r"
    using assms [OF Inr] read_body_ends [of "up_chunk upstream" 0] read_body_bounded [of "up_chunk upstream" "[]" 0] by auto
  then obtain r where "read_body (up_chunk upstream) 0 [] = Some r" by blast
  then show ?thesis using Inr by (cases r) (simp_all add: forward_request_def)
qed (simp add: forward_request_def)

definition upstreams_end :: "AppState \<Rightarrow> bool" where
  "upstreams_end app \<longleftrightarrow>
     (\<forall>(label, cl) \<in> set (ap_forward_clients app). \<forall>url der upstream. cl url der = Inr upstream \<longrightarrow>
        (\<exists>k. \<forall>c. up_chunk upstream k \<noteq> Chunk c) \<or> (\<forall>k. up_chunk upstream k \<noteq> Chunk []))"

lemma forward_client_returns:
  assumes "upstreams_end app" and "forward_client_for app ca = Some cl"
  shows "\<exists>resp. forward_request V cl url der ins = Some resp"
proof (rule forward_request_returns)
  have "(ca, cl) \<in> set (ap_forward_clients app)" using assms(2) by (auto simp: forward_client_for_def dest: map_of_SomeD)
  then show "(\<exists>k. \<forall>c. up_chunk upstream k \<noteq> Chunk c) \<or> (\<forall>k. up_chunk upstream k \<noteq> Chunk [])"
    if "cl url der = Inr upstream" for upstream
    using assms(1) that unfolding upstreams_end_def by blast
qed

lemma process_request_inner_returns:
  assumes "upstreams_end app"
  shows "process_request_inner S app clk der \<noteq> None"
proof -
  note fwd = forward_client_returns [OF assms]
  have live: "serve_live S app clk cert_id nonce result \<noteq> None" for cert_id nonce result
    by (auto simp: serve_live_def internal_error_def Let_def split: option.splits sum.splits)
  have forward: "serve_forward S app der result \<noteq> None" for result
  proof (cases "lr_forward_to result"; cases "forward_client_for app (lr_ca_label result)")
    fix url cl assume "lr_forward_to result = Some url" and cl: "forward_client_for app (lr_ca_label result) = Some cl"
    then show ?thesis using fwd [OF cl, of "sx_http S" url der "ca_insecure app (lr_ca_label result)"]
      by (auto simp: serve_forward_def Let_def)
  qed (simp_all add: serve_forward_def internal_error_def Let_def)
  have "serve_hit S app clk der parsed cert_id result \<noteq> None" for parsed cert_id result
    using live forward by (simp add: serve_hit_def Let_def split: option.split)
  moreover have "serve_miss S app clk der parsed cert_id \<noteq> None" for parsed cert_id
  proof -
    have "map_option f (forward_request V cl url der ins) \<noteq> None" if "forward_client_for app ca = Some cl"
      for f :: "HttpResponse \<Rightarrow> outcome" and V cl url ins ca using fwd [OF that] by auto
    then show ?thesis by (simp add: serve_miss_def unauthorized_def split: option.split sum.split bool.split)
  qed
  ultimately show ?thesis
    by (simp add: process_request_inner_def malformed_def split: sum.split list.split option.split)
qed

text \<open>
  C16: Every GET and every POST is answered when each upstream response, if it is one at all, either
  ends or fails at some chunk or never sends an empty one: the loop that reads its body stops at the
  limit of 64 KiB at the latest.
\<close>

theorem requests_answered:
  assumes "upstreams_end app"
  shows "(\<exists>resp. handle_get S app clk path = Some resp) \<and> (\<exists>resp. handle_post S app clk body = Some resp)"
  using process_request_inner_returns [OF assms]
  by (simp add: handle_get_def handle_post_def process_request_def split: sum.split)

definition ex_endless :: client where
  "ex_endless _ _ = Inr \<lparr>up_status = 200, up_content_type = Some ''application/ocsp-response'', up_content_length = None,
     up_chunk = (\<lambda>_. Chunk [42])\<rparr>"

theorem requests_answered_witness:
  "\<forall>S clk. \<exists>resp. handle_post S (ex_app\<lparr>ap_forward_clients := [(''ca1'', ex_endless)]\<rparr>) clk [48] = Some resp"
  using requests_answered [of "ex_app\<lparr>ap_forward_clients := [(''ca1'', ex_endless)]\<rparr>"]
  by (simp add: upstreams_end_def ex_endless_def)

section \<open>Malformed requests\<close>

text \<open>
  C17: A request is answered as malformed, with that label, exactly when it does not parse or carries
  a nonce that is empty or longer than 128 bytes, whatever the nonce policy.
\<close>

theorem malformed_exact:
  "process_request_inner S app clk der = Some (ocsp_error_response MALFORMED_REQUEST, ''unknown'', ''malformed'') \<longleftrightarrow>
     (\<exists>e. parse_ocsp_request (sx_ahu S) (sx_request S) der = Inl e) \<or>
     (\<exists>parsed nonce. parse_ocsp_request (sx_ahu S) (sx_request S) der = Inr parsed \<and> pr_nonce parsed = Some nonce \<and>
        (nonce = [] \<or> 128 < length nonce))"
proof (cases "parse_ocsp_request (sx_ahu S) (sx_request S) der")
  case (Inl e)
  then show ?thesis by (simp add: process_request_inner_def malformed_def)
next
  case (Inr parsed)
  then have "pr_cert_ids parsed \<noteq> []" using parse_ocsp_request_Inr [OF Inr] by auto
  then obtain cert_id rest where ids: "pr_cert_ids parsed = cert_id # rest" by (cases "pr_cert_ids parsed") auto
  let ?bad = "map_option validate_nonce (pr_nonce parsed) = Some MalformedRequest"
  have "process_request_inner S app clk der = malformed \<longleftrightarrow> ?bad"
    using Inr ids not_malformed by (simp add: process_request_inner_def split: option.split)
  moreover have "?bad \<longleftrightarrow> (\<exists>nonce. pr_nonce parsed = Some nonce \<and> (nonce = [] \<or> 128 < length nonce))"
    by (cases "pr_nonce parsed") (simp_all add: validate_nonce_malformed)
  ultimately show ?thesis using Inr by (simp add: malformed_def)
qed

section \<open>Upstream trust\<close>

text \<open>
  C18: When the application state is built, CA labels are distinct, a CA without a forwarding target
  has no client, and the client of one with a target was built with exactly the certificates of its
  pinned bundle, which is not empty and requires HTTPS, or with the default roots where none is
  pinned.
\<close>

theorem forward_clients_trust:
  assumes "app_new V read responder config = Inr app"
  shows "distinct (map ca_label (cf_ca config)) \<and>
    (\<forall>ca \<in> set (cf_ca config).
       case ca_forward_to ca of
         None \<Rightarrow> forward_client_for app (ca_label ca) = None
       | Some url \<Rightarrow>
           \<exists>roots cl. forward_client_for app (ca_label ca) = Some cl \<and> hx_build_client V roots = Inr cl \<and>
             (case ca_forward_ca ca of
                None \<Rightarrow> roots = None
              | Some p \<Rightarrow> starts_with url ''https://'' \<and>
                  (\<exists>pem rs. read p = Inr pem \<and> hx_roots_from_pem V pem = Inr rs \<and> rs \<noteq> [] \<and> roots = Some rs)))"
proof -
  obtain cs where cs: "build_clients V read {} [] (cf_ca config) = Inr cs" "ap_forward_clients app = cs"
    using assms by (auto simp: app_new_def build_forward_clients_def result_inverts)
  then have ok: "distinct (map ca_label (cf_ca config))"
    "\<forall>ca \<in> set (cf_ca config). client_ok V read ca (forward_client_for app (ca_label ca))"
    using build_clients_Inr [OF cs(1)] by (simp_all add: forward_client_for_def)
  show ?thesis
  proof (intro conjI ballI)
    fix ca assume "ca \<in> set (cf_ca config)"
    then have "client_ok V read ca (forward_client_for app (ca_label ca))" using ok(2) by blast
    then show "case ca_forward_to ca of
         None \<Rightarrow> forward_client_for app (ca_label ca) = None
       | Some url \<Rightarrow>
           \<exists>roots cl. forward_client_for app (ca_label ca) = Some cl \<and> hx_build_client V roots = Inr cl \<and>
             (case ca_forward_ca ca of
                None \<Rightarrow> roots = None
              | Some p \<Rightarrow> starts_with url ''https://'' \<and>
                  (\<exists>pem rs. read p = Inr pem \<and> hx_roots_from_pem V pem = Inr rs \<and> rs \<noteq> [] \<and> roots = Some rs))"
      unfolding client_ok_def forward_roots_pinned by (cases "ca_forward_to ca") auto
  qed (rule ok(1))
qed

definition ex_http :: http_externals where
  "ex_http = \<lparr>hx_url_scheme = (\<lambda>_. Some ''https''), hx_roots_from_pem = (\<lambda>pem. Inr [pem]), hx_build_client = (\<lambda>_. Inr ex_endless)\<rparr>"

definition ex_forward_config :: Config where
  "ex_forward_config = ex_config\<lparr>cf_ca := [ex_ca\<lparr>ca_forward_to := Some ''https://ocsp.example/'', ca_forward_ca := Some ex_pin_path\<rparr>]\<rparr>"

theorem forward_clients_trust_witness:
  "\<exists>app. app_new ex_http (\<lambda>_. Inr [48]) ex_responder ex_forward_config = Inr app \<and>
     forward_client_for app ''ca1'' = Some ex_endless"
proof -
  let ?app = "\<lparr>ap_responder = ex_responder, ap_live_signers = [], ap_live_poisoned = False, ap_config = ex_forward_config,
    ap_forward_clients = [(''ca1'', ex_endless)]\<rparr>"
  have "app_new ex_http (\<lambda>_. Inr [48]) ex_responder ex_forward_config = Inr ?app"
    by (simp add: app_new_def build_forward_clients_def ex_forward_config_def ex_ca_def forward_roots_def starts_with_def ex_http_def)
  from this forward_clients_trust [OF this] show ?thesis
    by (simp add: ex_forward_config_def ex_ca_def) (auto simp: ex_http_def)
qed

end
