(* ===== verification/Hash_Table.thy ===== *)
theory Hash_Table
  imports Main "HOL-Library.AList"
begin

text \<open>
  \<^verbatim>\<open>std::collections::HashMap\<close> as the bounded tables of the server use it: an association list with
  distinct keys, in no particular order, that is pruned before an insertion.
\<close>

lemma set_alist_update: "(k', v') \<in> set (AList.update k v al) \<Longrightarrow> (k', v') = (k, v) \<or> (k', v') \<in> set al"
  by (induction al) (auto split: if_splits)

lemma length_alist_update: "length (AList.update k v al) = (if k \<in> fst ` set al then length al else Suc (length al))"
  by (induction al) auto

lemma alist_update_bounded:
  assumes "distinct (map fst al)" and "length al \<le> n" and "k \<in> fst ` set al \<or> length al < n"
  shows "distinct (map fst (AList.update k v al))" and "length (AList.update k v al) \<le> n"
  using assms by (auto simp: distinct_update length_alist_update)

lemma distinct_fst_filter: "distinct (map fst al) \<Longrightarrow> distinct (map fst (filter P al))"
  by (induction al) auto

end
