(* ===== verification/Gossip_Node.thy ===== *)
theory Gossip_Node
  imports Core_Storage Hoike_Text Hash_Table
begin

text \<open>
  The gossip crate, \<^verbatim>\<open>crates/hoike-gossip/src\<close>, and the consumer of its messages in the command line:
  the authentication policy (\<^verbatim>\<open>config.rs\<close>, \<^verbatim>\<open>crypto.rs\<close>), announcements and their admission
  (\<^verbatim>\<open>broadcast.rs\<close>), and a node with its table of generations (\<^verbatim>\<open>node.rs\<close>). Keys, signatures, JSON and
  the membership protocol belong to other crates and are parameters. A hash map is an association list
  with distinct keys, in no particular order.
\<close>

section \<open>Configuration\<close>

datatype GossipCryptoError = GossipIo | GossipDecode string | GossipConfigError string

datatype AuthMode = AuthRequired | AuthPermissive

definition auth_mode_from_str :: "string \<Rightarrow> GossipCryptoError + AuthMode" where
  "auth_mode_from_str s =
     (if s = ''required'' then Inr AuthRequired
      else if s = ''permissive'' then Inr AuthPermissive
      else Inl (GossipConfigError (''invalid gossip auth_mode '' @ s)))"

record GossipConfig =
  gf_enabled :: bool
  gf_bind :: string
  gf_seeds :: "string list"
  gf_node_name :: string
  gf_auth_mode :: AuthMode
  gf_identity_key :: "path option"
  gf_peer_keys :: "path list"
  gf_peer_identities :: "(string \<times> path) list"

text \<open>The settings that a server starts its node with.\<close>

definition gossip_settings :: "GossipConfigSection \<Rightarrow> GossipCryptoError + GossipConfig" where
  "gossip_settings g =
     bindR (auth_mode_from_str (gc_auth_mode g)) (\<lambda>auth_mode.
     Inr \<lparr>gf_enabled = True, gf_bind = gc_bind g, gf_seeds = gc_seeds g, gf_node_name = gc_node_name g,
          gf_auth_mode = auth_mode, gf_identity_key = gc_identity_key g, gf_peer_keys = gc_peer_keys g,
          gf_peer_identities = gc_peer_identities g\<rparr>)"

section \<open>Messages\<close>

datatype GossipMessage =
    is_GenerationAnnouncement: GenerationAnnouncement (gm_producer_id: string) (gm_issuer_key_hash: bytes) (gm_epoch: u64)
      (gm_manifest_digest: bytes) (gm_bundle_url: "string option") (gm_origin: string)
  | UrgentRevocation (gm_producer_id: string) (gm_issuer_key_hash: bytes) (gm_epoch: u64) (gm_origin: string)

definition scope_key :: "GossipMessage \<Rightarrow> string \<times> bytes" where
  "scope_key msg = (gm_producer_id msg, gm_issuer_key_hash msg)"

definition valid_bounds :: "GossipMessage \<Rightarrow> bool" where
  "valid_bounds msg \<longleftrightarrow>
     (let (producer, hash) = scope_key msg in
      producer \<noteq> [] \<and> length producer \<le> 256 \<and> length (gm_origin msg) \<le> 256 \<and>
      (length hash = 20 \<or> length hash = 32) \<and>
      (case msg of GenerationAnnouncement _ _ _ _ (Some url) _ \<Rightarrow> length url \<le> 1024 | _ \<Rightarrow> True))"

record BroadcastKey =
  bk_producer_id :: string
  bk_issuer_key_hash :: bytes
  bk_epoch :: u64

definition invalidates :: "BroadcastKey \<Rightarrow> BroadcastKey \<Rightarrow> bool" where
  "invalidates k other \<longleftrightarrow>
     bk_producer_id k = bk_producer_id other \<and> bk_issuer_key_hash k = bk_issuer_key_hash other \<and>
     bk_epoch other < bk_epoch k"

section \<open>Keys and signatures\<close>

text \<open>Ed25519 keys in their encodings, PKCS#8 and SPKI decoding, and JSON.\<close>

record gossip_externals =
  gx_ahu :: externals
  gx_signing_pem :: "bytes \<Rightarrow> string + bytes"
  gx_signing_der :: "bytes \<Rightarrow> string + bytes"
  gx_verifying_pem :: "bytes \<Rightarrow> string + bytes"
  gx_verifying_der :: "bytes \<Rightarrow> string + bytes"
  gx_public :: "bytes \<Rightarrow> bytes"
  gx_sign :: "bytes \<Rightarrow> bytes \<Rightarrow> bytes"
  gx_verify :: "bytes \<Rightarrow> bytes \<Rightarrow> bytes \<Rightarrow> bool"
  gx_verify_strict :: "bytes \<Rightarrow> bytes \<Rightarrow> bytes \<Rightarrow> bool"
  gx_to_json :: "GossipMessage \<Rightarrow> string + bytes"
  gx_from_json :: "bytes \<Rightarrow> string + GossipMessage"

text \<open>Well-formed UTF-8.\<close>

definition continuation :: "u8 \<Rightarrow> bool" where
  "continuation b \<longleftrightarrow> 0x80 \<le> b \<and> b \<le> 0xBF"

fun valid_utf8 :: "bytes \<Rightarrow> bool" where
  "valid_utf8 [] = True"
| "valid_utf8 (a # bs) =
     (if a < 0x80 then valid_utf8 bs
      else case bs of
        [] \<Rightarrow> False
      | b # cs \<Rightarrow>
          if 0xC2 \<le> a \<and> a \<le> 0xDF then continuation b \<and> valid_utf8 cs
          else case cs of
            [] \<Rightarrow> False
          | c # ds \<Rightarrow>
              if 0xE0 \<le> a \<and> a \<le> 0xEF
              then (if a = 0xE0 then 0xA0 \<le> b \<and> b \<le> 0xBF else if a = 0xED then 0x80 \<le> b \<and> b \<le> 0x9F else continuation b) \<and>
                   continuation c \<and> valid_utf8 ds
              else case ds of
                [] \<Rightarrow> False
              | d # es \<Rightarrow>
                  0xF0 \<le> a \<and> a \<le> 0xF4 \<and>
                  (if a = 0xF0 then 0x90 \<le> b \<and> b \<le> 0xBF else if a = 0xF4 then 0x80 \<le> b \<and> b \<le> 0x8F else continuation b) \<and>
                  continuation c \<and> continuation d \<and> valid_utf8 es)"

definition pem_armor :: bytes where
  "pem_armor = map of_char ''-----BEGIN''"

fun contains :: "bytes \<Rightarrow> bytes \<Rightarrow> bool" where
  "contains [] p = (p = [])"
| "contains (b # bs) p = (take (length p) (b # bs) = p \<or> contains bs p)"

definition load_key ::
    "(bytes \<Rightarrow> string + bytes) \<Rightarrow> (bytes \<Rightarrow> string + bytes) \<Rightarrow> string \<Rightarrow> fs \<Rightarrow> path \<Rightarrow> GossipCryptoError + bytes" where
  "load_key pem der kind s p =
     bindR (ok_orR GossipIo (fs_files s p)) (\<lambda>bytes.
     if valid_utf8 bytes \<and> contains bytes pem_armor
     then map_errR (\<lambda>e. GossipDecode (kind @ '' PEM: '' @ e)) (pem bytes)
     else map_errR (\<lambda>e. GossipDecode (kind @ '' DER: '' @ e)) (der bytes))"

definition load_signing_key :: "gossip_externals \<Rightarrow> fs \<Rightarrow> path \<Rightarrow> GossipCryptoError + bytes" where
  "load_signing_key G = load_key (gx_signing_pem G) (gx_signing_der G) ''PKCS#8''"

definition load_verifying_key :: "gossip_externals \<Rightarrow> fs \<Rightarrow> path \<Rightarrow> GossipCryptoError + bytes" where
  "load_verifying_key G = load_key (gx_verifying_pem G) (gx_verifying_der G) ''SPKI''"

definition SIGNED_TAG :: u8 where
  "SIGNED_TAG = 1"

definition SIG_LEN :: nat where
  "SIG_LEN = 64"

definition frame :: "gossip_externals \<Rightarrow> bytes \<Rightarrow> bytes \<Rightarrow> bytes" where
  "frame G key payload = SIGNED_TAG # gx_sign G key payload @ payload"

datatype VerifyOutcome = Accept bytes | Reject string

record GossipVerifier =
  gv_trusted :: "bytes list"
  gv_mode :: AuthMode
  gv_identities :: "(string \<times> bytes) list"

definition for_identities :: "(string \<times> bytes) list \<Rightarrow> AuthMode \<Rightarrow> GossipVerifier" where
  "for_identities identities mode = \<lparr>gv_trusted = map snd identities, gv_mode = mode, gv_identities = identities\<rparr>"

definition check :: "gossip_externals \<Rightarrow> GossipVerifier \<Rightarrow> bytes \<Rightarrow> VerifyOutcome" where
  "check G v data =
     (if data \<noteq> [] \<and> hd data = SIGNED_TAG
      then if length data < 1 + SIG_LEN then Reject ''truncated signed frame''
           else
           let sig = take SIG_LEN (drop 1 data);
               payload = drop (1 + SIG_LEN) data in
           if \<not> list_ex (\<lambda>k. gx_verify G k payload sig) (gv_trusted v) then Reject ''no trusted key verified signature''
           else if gv_identities v = [] then Accept payload
           else case gx_from_json G payload of
                  Inl _ \<Rightarrow> Reject ''invalid signed message''
                | Inr msg \<Rightarrow>
                    if list_ex (\<lambda>(name, key). name = gm_origin msg \<and> gx_verify_strict G key payload sig) (gv_identities v)
                    then Accept payload
                    else Reject ''signing key not authorized for origin''
      else case gv_mode v of
             AuthPermissive \<Rightarrow> Accept data
           | AuthRequired \<Rightarrow> Reject ''unsigned message under required-auth policy'')"

definition load_identity :: "gossip_externals \<Rightarrow> fs \<Rightarrow> GossipConfig \<Rightarrow> GossipCryptoError + bytes option" where
  "load_identity G s config =
     (case gf_identity_key config of
        None \<Rightarrow> Inr None
      | Some p \<Rightarrow>
          bindR (map_errR (\<lambda>_. GossipConfigError (''gossip.identity_key '' @ show_path p)) (load_signing_key G s p)) (\<lambda>key.
          Inr (Some key)))"

definition load_peer ::
    "gossip_externals \<Rightarrow> fs \<Rightarrow> GossipConfig \<Rightarrow> bytes option \<Rightarrow> (string \<times> bytes) list \<Rightarrow> string \<times> path
      \<Rightarrow> GossipCryptoError + (string \<times> bytes) list" where
  "load_peer G s config signer identities peer =
     (let (name, p) = peer in
      if name = [] \<or> 256 < length name
      then Inl (GossipConfigError ''gossip peer identity names must contain 1..=256 bytes'')
      else
      bindR (map_errR (\<lambda>_. GossipConfigError (''gossip.peer_identities '' @ name)) (load_verifying_key G s p)) (\<lambda>key.
      if name = gf_node_name config \<and> (case signer of Some sk \<Rightarrow> gx_public G sk \<noteq> key | None \<Rightarrow> False)
      then Inl (GossipConfigError (''gossip.peer_identities maps local node '' @ name @ '' to a different key than gossip.identity_key''))
      else Inr (identities @ [(name, key)])))"

definition load_authentication ::
    "gossip_externals \<Rightarrow> fs \<Rightarrow> GossipConfig \<Rightarrow> GossipCryptoError + bytes option \<times> GossipVerifier" where
  "load_authentication G s config =
     (if gf_peer_keys config \<noteq> []
      then Inl (GossipConfigError ''gossip.peer_keys is no longer safe: migrate to gossip.peer_identities'')
      else
      bindR (load_identity G s config) (\<lambda>signer.
      if gf_auth_mode config = AuthRequired \<and> signer = None
      then Inl (GossipConfigError (''gossip auth_mode required needs gossip.identity_key for node '' @ gf_node_name config))
      else
      bindR (foldR (load_peer G s config signer) [] (gf_peer_identities config)) (\<lambda>identities.
      let identities' =
            (case signer of
               None \<Rightarrow> identities
             | Some sk \<Rightarrow>
                 if (gf_node_name config, gx_public G sk) \<in> set identities then identities
                 else identities @ [(gf_node_name config, gx_public G sk)]) in
      Inr (signer, for_identities identities' (gf_auth_mode config)))))"

section \<open>Admission of announcements\<close>

text \<open>The bounded queue between the handler and the consumer. A message that does not fit is lost.\<close>

record channel =
  ch_capacity :: nat
  ch_queue :: "GossipMessage list"

definition try_send :: "GossipMessage \<Rightarrow> channel \<Rightarrow> channel" where
  "try_send msg ch = (if length (ch_queue ch) < ch_capacity ch then ch\<lparr>ch_queue := ch_queue ch @ [msg]\<rparr> else ch)"

type_synonym scope = "string \<times> bytes"

text \<open>Monotonic instants are nanoseconds; an instant before the other one has elapsed zero.\<close>

record HoikeBroadcastHandler =
  bh_verifier :: GossipVerifier
  bh_admitted :: "(scope \<times> nat) list"

definition broadcast_handler_new :: "GossipVerifier \<Rightarrow> HoikeBroadcastHandler" where
  "broadcast_handler_new verifier = \<lparr>bh_verifier = verifier, bh_admitted = []\<rparr>"

text \<open>The clock is read once for each admitted scope and once for the new one.\<close>

record receive_clock =
  rk_elapsed :: "scope \<Rightarrow> nat"
  rk_now :: nat

definition live_scopes :: "receive_clock \<Rightarrow> (scope \<times> nat) list \<Rightarrow> (scope \<times> nat) list" where
  "live_scopes clk = filter (\<lambda>(scope, seen). rk_elapsed clk scope - seen < 3600 * 10 ^ 9)"

definition receive_item ::
    "gossip_externals \<Rightarrow> receive_clock \<Rightarrow> bytes \<Rightarrow> HoikeBroadcastHandler \<times> channel
      \<Rightarrow> (string + BroadcastKey option) \<times> HoikeBroadcastHandler \<times> channel" where
  "receive_item G clk data = (\<lambda>(h, ch).
     if 2048 < length data then (Inr None, h, ch)
     else case check G (bh_verifier h) data of
       Reject _ \<Rightarrow> (Inr None, h, ch)
     | Accept payload \<Rightarrow>
         (case gx_from_json G payload of
            Inl e \<Rightarrow> (Inl (''decode: '' @ e), h, ch)
          | Inr msg \<Rightarrow>
              if \<not> valid_bounds msg then (Inr None, h, ch)
              else
              let kept = live_scopes clk (bh_admitted h);
                  scope = scope_key msg in
              if scope \<notin> fst ` set kept \<and> 4096 \<le> length kept then (Inr None, h\<lparr>bh_admitted := kept\<rparr>, ch)
              else (Inr (Some \<lparr>bk_producer_id = fst scope, bk_issuer_key_hash = snd scope, bk_epoch = gm_epoch msg\<rparr>),
                    h\<lparr>bh_admitted := AList.update scope (rk_now clk) kept\<rparr>, try_send msg ch)))"

section \<open>Nodes\<close>

datatype MemberState = MemberAlive | MemberSuspect | MemberDown

record NodeId =
  ni_addr :: string
  ni_name :: string
  ni_incarnation :: u64

definition renew :: "NodeId \<Rightarrow> NodeId option" where
  "renew n = Some (n\<lparr>ni_incarnation := ni_incarnation n + 1\<rparr>)"

definition win_addr_conflict :: "NodeId \<Rightarrow> NodeId \<Rightarrow> bool" where
  "win_addr_conflict n adversary \<longleftrightarrow> ni_incarnation adversary < ni_incarnation n"

record MemberInfo =
  mi_name :: string
  mi_addr :: string
  mi_incarnation :: u64
  mi_state :: MemberState
  mi_is_self :: bool

record GenRecord =
  gr_origin_node :: string
  gr_producer_id :: string
  gr_issuer_key_hash :: string
  gr_epoch :: u64
  gr_manifest_digest :: string
  gr_last_seen_unix :: u64

type_synonym GenKey = "string \<times> string \<times> string"

record GossipNode =
  gn_config :: GossipConfig
  gn_identity :: NodeId
  gn_generations :: "(GenKey \<times> GenRecord) list"
  gn_signer :: "bytes option"

text \<open>
  A start authenticates before it binds; the address it gets is the result of binding, and the node
  begins with an empty table and a handler for the verifier.
\<close>

definition gossip_start ::
    "gossip_externals \<Rightarrow> (string \<Rightarrow> string + string) \<Rightarrow> fs \<Rightarrow> GossipConfig
      \<Rightarrow> (GossipCryptoError + string) + GossipNode \<times> HoikeBroadcastHandler" where
  "gossip_start G bind_socket s config =
     bindR (map_errR Inl (load_authentication G s config)) (\<lambda>(signer, verifier).
     bindR (map_errR Inr (bind_socket (gf_bind config))) (\<lambda>local_addr.
     Inr (\<lparr>gn_config = config, gn_identity = \<lparr>ni_addr = local_addr, ni_name = gf_node_name config, ni_incarnation = 0\<rparr>,
           gn_generations = [], gn_signer = signer\<rparr>,
          broadcast_handler_new verifier)))"

definition frame_broadcast :: "gossip_externals \<Rightarrow> GossipNode \<Rightarrow> bytes \<Rightarrow> bytes" where
  "frame_broadcast G node payload =
     (case gn_signer node of Some key \<Rightarrow> frame G key payload | None \<Rightarrow> payload)"

text \<open>Both announcements hand a frame to the membership protocol, whose state has type \<^typ>\<open>'f\<close>.\<close>

definition broadcast ::
    "gossip_externals \<Rightarrow> (bytes \<Rightarrow> 'f \<Rightarrow> (string + unit) \<times> 'f) \<Rightarrow> GossipNode \<Rightarrow> GossipMessage \<Rightarrow> 'f \<Rightarrow> (string + unit) \<times> 'f" where
  "broadcast G add_broadcast node msg f =
     (case gx_to_json G msg of
        Inl e \<Rightarrow> (Inl e, f)
      | Inr payload \<Rightarrow> add_broadcast (frame_broadcast G node payload) f)"

definition announce_generation ::
    "gossip_externals \<Rightarrow> (bytes \<Rightarrow> 'f \<Rightarrow> (string + unit) \<times> 'f) \<Rightarrow> GossipNode \<Rightarrow> string \<Rightarrow> bytes \<Rightarrow> u64 \<Rightarrow> bytes \<Rightarrow> string option
      \<Rightarrow> 'f \<Rightarrow> (string + unit) \<times> 'f" where
  "announce_generation G add_broadcast node producer_id issuer_key_hash epoch manifest_digest bundle_url =
     broadcast G add_broadcast node
       (GenerationAnnouncement producer_id issuer_key_hash epoch manifest_digest bundle_url (ni_name (gn_identity node)))"

definition announce_urgent_revocation ::
    "gossip_externals \<Rightarrow> (bytes \<Rightarrow> 'f \<Rightarrow> (string + unit) \<times> 'f) \<Rightarrow> GossipNode \<Rightarrow> string \<Rightarrow> bytes \<Rightarrow> u64
      \<Rightarrow> 'f \<Rightarrow> (string + unit) \<times> 'f" where
  "announce_urgent_revocation G add_broadcast node producer_id issuer_key_hash epoch =
     broadcast G add_broadcast node
       (UrgentRevocation producer_id issuer_key_hash epoch (ni_name (gn_identity node)))"

definition members :: "(NodeId \<times> MemberState) list \<Rightarrow> GossipNode \<Rightarrow> MemberInfo list" where
  "members peers node =
     map (\<lambda>(n, st). \<lparr>mi_name = ni_name n, mi_addr = ni_addr n, mi_incarnation = ni_incarnation n, mi_state = st, mi_is_self = False\<rparr>) peers
       @ [let n = gn_identity node in
          \<lparr>mi_name = ni_name n, mi_addr = ni_addr n, mi_incarnation = ni_incarnation n, mi_state = MemberAlive, mi_is_self = True\<rparr>]"

definition live_rows :: "u64 \<Rightarrow> (GenKey \<times> GenRecord) list \<Rightarrow> (GenKey \<times> GenRecord) list" where
  "live_rows now = filter (\<lambda>(_, row). unat now - unat (gr_last_seen_unix row) < 3600)"

definition record_generation :: "gossip_externals \<Rightarrow> u64 \<Rightarrow> GossipMessage \<Rightarrow> GossipNode \<Rightarrow> GossipNode" where
  "record_generation G now msg node =
     (case msg of
        UrgentRevocation _ _ _ _ \<Rightarrow> node
      | GenerationAnnouncement producer_id issuer_key_hash epoch manifest_digest bundle_url origin_node \<Rightarrow>
          if \<not> valid_bounds msg then node
          else
          let ikh_hex = hex_encode (gx_ahu G) issuer_key_hash;
              key = (origin_node, producer_id, ikh_hex);
              digest = hex_encode (gx_ahu G) manifest_digest;
              table = live_rows now (gn_generations node) in
          if map_of table key = None \<and> 4096 \<le> length table then node\<lparr>gn_generations := table\<rparr>
          else
          let entry = (case map_of table key of
                 Some row \<Rightarrow> row
               | None \<Rightarrow> \<lparr>gr_origin_node = origin_node, gr_producer_id = producer_id, gr_issuer_key_hash = ikh_hex,
                          gr_epoch = epoch, gr_manifest_digest = digest, gr_last_seen_unix = now\<rparr>);
              entry' = (if gr_epoch entry \<le> epoch then entry\<lparr>gr_epoch := epoch, gr_manifest_digest := digest\<rparr> else entry) in
          node\<lparr>gn_generations := AList.update key (entry'\<lparr>gr_last_seen_unix := now\<rparr>) table\<rparr>)"

definition generations :: "u64 \<Rightarrow> GossipNode \<Rightarrow> GenRecord list \<times> GossipNode" where
  "generations now node =
     (let table = live_rows now (gn_generations node) in
      (map snd table, node\<lparr>gn_generations := table\<rparr>))"

section \<open>A running node\<close>

text \<open>
  Frames arrive in any order and from anyone; the consumer takes messages off the queue, at any time;
  and the table is read. The times are whatever the clocks say.
\<close>

type_synonym running = "HoikeBroadcastHandler \<times> channel \<times> GossipNode"

definition consume :: "gossip_externals \<Rightarrow> u64 \<Rightarrow> channel \<times> GossipNode \<Rightarrow> channel \<times> GossipNode" where
  "consume G now = (\<lambda>(ch, node).
     case ch_queue ch of
       [] \<Rightarrow> (ch, node)
     | msg # rest \<Rightarrow> (ch\<lparr>ch_queue := rest\<rparr>, record_generation G now msg node))"

inductive gossip_step :: "gossip_externals \<Rightarrow> running \<Rightarrow> running \<Rightarrow> bool"
  for G :: gossip_externals where
  receive: "receive_item G clk data (h, ch) = (r, h', ch') \<Longrightarrow> gossip_step G (h, ch, node) (h', ch', node)"
| consume: "consume G now (ch, node) = (ch', node') \<Longrightarrow> gossip_step G (h, ch, node) (h, ch', node')"
| view: "generations now node = (rows, node') \<Longrightarrow> gossip_step G (h, ch, node) (h, ch, node')"

inductive_cases gossip_stepE: "gossip_step G (h, ch, node) st'"

section \<open>What a configuration trusts\<close>

definition configured_key :: "gossip_externals \<Rightarrow> fs \<Rightarrow> GossipConfig \<Rightarrow> string \<Rightarrow> bytes \<Rightarrow> bool" where
  "configured_key G s config name key \<longleftrightarrow>
     (\<exists>p. (name, p) \<in> set (gf_peer_identities config) \<and> load_verifying_key G s p = Inr key) \<or>
     (name = gf_node_name config \<and>
      (\<exists>p sk. gf_identity_key config = Some p \<and> load_signing_key G s p = Inr sk \<and> key = gx_public G sk))"

lemma load_peers_set:
  assumes "foldR (load_peer G s config signer) acc peers = Inr identities"
  shows "set identities = set acc \<union> {(name, key). \<exists>p. (name, p) \<in> set peers \<and> load_verifying_key G s p = Inr key}"
  using assms
proof (induction peers arbitrary: acc)
  case (Cons peer peers)
  obtain name p where peer: "peer = (name, p)" by (cases peer)
  obtain acc' where step: "load_peer G s config signer acc peer = Inr acc'"
      "foldR (load_peer G s config signer) acc' peers = Inr identities"
    using Cons.prems by (auto simp: result_inverts)
  obtain key where "load_verifying_key G s p = Inr key" "acc' = acc @ [(name, key)]"
    using step(1) peer by (auto simp: load_peer_def Let_def result_inverts split: if_splits)
  note key = this(1) step(2) [unfolded this(2)]
  show ?case using Cons.IH [OF key(2)] key(1) peer by auto
qed simp

lemma load_authentication_Inr:
  assumes "load_authentication G s config = Inr (signer, v)"
  shows "gv_mode v = gf_auth_mode config" and "gv_trusted v = map snd (gv_identities v)"
    and "(name, key) \<in> set (gv_identities v) \<longleftrightarrow> configured_key G s config name key"
    and "gf_auth_mode config = AuthRequired \<Longrightarrow> gv_identities v \<noteq> []"
    and "signer = Some sk \<Longrightarrow> (gf_node_name config, gx_public G sk) \<in> set (gv_identities v)"
proof -
  obtain identities where ids: "load_identity G s config = Inr signer" "gf_auth_mode config = AuthRequired \<Longrightarrow> signer \<noteq> None"
      "foldR (load_peer G s config signer) [] (gf_peer_identities config) = Inr identities"
      "v = for_identities (case signer of
               None \<Rightarrow> identities
             | Some sk \<Rightarrow>
                 if (gf_node_name config, gx_public G sk) \<in> set identities then identities
                 else identities @ [(gf_node_name config, gx_public G sk)]) (gf_auth_mode config)"
    using assms by (auto simp: load_authentication_def Let_def result_inverts split: if_splits)
  then show "gv_mode v = gf_auth_mode config" "gv_trusted v = map snd (gv_identities v)" by (simp_all add: for_identities_def)
  show own: "signer = Some sk \<Longrightarrow> (gf_node_name config, gx_public G sk) \<in> set (gv_identities v)" for sk
    using ids(4) by (auto simp: for_identities_def)
  show "gf_auth_mode config = AuthRequired \<Longrightarrow> gv_identities v \<noteq> []"
    using ids(2) own by (cases signer) auto
  have own_key: "(\<exists>p sk. gf_identity_key config = Some p \<and> load_signing_key G s p = Inr sk \<and> key = gx_public G sk) \<longleftrightarrow>
      (\<exists>sk. signer = Some sk \<and> key = gx_public G sk)"
    using ids(1) by (auto simp: load_identity_def result_inverts split: option.splits)
  have "set (gv_identities v) = set identities \<union> {(gf_node_name config, gx_public G sk) | sk. signer = Some sk}"
    using ids(4) by (cases signer) (auto simp: for_identities_def)
  then show "(name, key) \<in> set (gv_identities v) \<longleftrightarrow> configured_key G s config name key"
    using load_peers_set [OF ids(3)] unfolding configured_key_def own_key by auto
qed

section \<open>Attribution\<close>

definition attributed :: "gossip_externals \<Rightarrow> GossipVerifier \<Rightarrow> GossipMessage \<Rightarrow> bool" where
  "attributed G v msg \<longleftrightarrow>
     (\<exists>key payload sig. (gm_origin msg, key) \<in> set (gv_identities v) \<and>
        gx_verify_strict G key payload sig \<and> gx_from_json G payload = Inr msg)"

lemma check_attributed:
  assumes "check G v data = Accept payload" and "gx_from_json G payload = Inr msg"
    and "gv_mode v = AuthRequired" and "gv_identities v \<noteq> []"
  shows "attributed G v msg"
  using assms by (auto simp: check_def attributed_def Let_def list_ex_iff split: if_splits sum.splits)

definition row_announced :: "gossip_externals \<Rightarrow> GossipMessage \<Rightarrow> GenRecord \<Rightarrow> bool" where
  "row_announced G msg row \<longleftrightarrow>
     is_GenerationAnnouncement msg \<and> gr_origin_node row = gm_origin msg \<and> gr_producer_id row = gm_producer_id msg \<and>
     gr_issuer_key_hash row = hex_encode (gx_ahu G) (gm_issuer_key_hash msg) \<and> gr_epoch row = gm_epoch msg \<and>
     gr_manifest_digest row = hex_encode (gx_ahu G) (gm_manifest_digest msg)"

definition row_key :: "GenRecord \<Rightarrow> GenKey" where
  "row_key row = (gr_origin_node row, gr_producer_id row, gr_issuer_key_hash row)"

definition table_ok :: "gossip_externals \<Rightarrow> (GossipMessage \<Rightarrow> bool) \<Rightarrow> (GenKey \<times> GenRecord) list \<Rightarrow> bool" where
  "table_ok G P table \<longleftrightarrow>
     distinct (map fst table) \<and> length table \<le> 4096 \<and>
     (\<forall>(key, row) \<in> set table. key = row_key row \<and> (\<exists>msg. P msg \<and> row_announced G msg row))"

definition running_ok :: "gossip_externals \<Rightarrow> GossipVerifier \<Rightarrow> nat \<Rightarrow> running \<Rightarrow> bool" where
  "running_ok G v capacity = (\<lambda>(h, ch, node).
     bh_verifier h = v \<and> distinct (map fst (bh_admitted h)) \<and> length (bh_admitted h) \<le> 4096 \<and>
     ch_capacity ch = capacity \<and> length (ch_queue ch) \<le> capacity \<and>
     (\<forall>msg \<in> set (ch_queue ch). attributed G v msg \<and> valid_bounds msg) \<and>
     table_ok G (\<lambda>msg. attributed G v msg \<and> valid_bounds msg) (gn_generations node))"

lemma live_rows_ok: "table_ok G P table \<Longrightarrow> table_ok G P (live_rows now table)"
  unfolding table_ok_def live_rows_def
  using le_trans [OF length_filter_le] by (auto simp: distinct_fst_filter)

text \<open>What an announcement does to the row of its key.\<close>

definition gen_key :: "gossip_externals \<Rightarrow> GossipMessage \<Rightarrow> GenKey" where
  "gen_key G msg = (gm_origin msg, gm_producer_id msg, hex_encode (gx_ahu G) (gm_issuer_key_hash msg))"

definition announced_row :: "gossip_externals \<Rightarrow> u64 \<Rightarrow> GossipMessage \<Rightarrow> GenRecord option \<Rightarrow> GenRecord" where
  "announced_row G now msg old =
     (case old of
        Some row \<Rightarrow>
          if gr_epoch row \<le> gm_epoch msg
          then row\<lparr>gr_epoch := gm_epoch msg, gr_manifest_digest := hex_encode (gx_ahu G) (gm_manifest_digest msg), gr_last_seen_unix := now\<rparr>
          else row\<lparr>gr_last_seen_unix := now\<rparr>
      | None \<Rightarrow> \<lparr>gr_origin_node = gm_origin msg, gr_producer_id = gm_producer_id msg,
                 gr_issuer_key_hash = hex_encode (gx_ahu G) (gm_issuer_key_hash msg), gr_epoch = gm_epoch msg,
                 gr_manifest_digest = hex_encode (gx_ahu G) (gm_manifest_digest msg), gr_last_seen_unix = now\<rparr>)"

lemma record_generation_table:
  "gn_generations (record_generation G now msg node) =
     (if \<not> is_GenerationAnnouncement msg \<or> \<not> valid_bounds msg then gn_generations node
      else let table = live_rows now (gn_generations node) in
           if map_of table (gen_key G msg) = None \<and> 4096 \<le> length table then table
           else AList.update (gen_key G msg) (announced_row G now msg (map_of table (gen_key G msg))) table)"
  by (cases msg) (auto simp: record_generation_def gen_key_def announced_row_def Let_def split: option.split)

lemma record_generation_ok:
  assumes "table_ok G P (gn_generations node)" and "P msg"
  shows "table_ok G P (gn_generations (record_generation G now msg node))"
proof -
  let ?table = "live_rows now (gn_generations node)" and ?k = "gen_key G msg"
  have live: "table_ok G P ?table" using assms(1) by (rule live_rows_ok)
  have "table_ok G P (AList.update ?k (announced_row G now msg (map_of ?table ?k)) ?table)"
    if gen: "is_GenerationAnnouncement msg" and room: "\<not> (map_of ?table ?k = None \<and> 4096 \<le> length ?table)"
  proof -
    have fresh: "?k = row_key row \<and> (\<exists>msg. P msg \<and> row_announced G msg row)"
      if row: "row = announced_row G now msg (map_of ?table ?k)" for row
    proof (cases "map_of ?table ?k")
      case None
      then show ?thesis using row gen assms(2)
        by (auto simp: announced_row_def row_key_def gen_key_def row_announced_def intro!: exI [of _ msg])
    next
      case (Some old)
      then have "(?k, old) \<in> set ?table" by (rule map_of_SomeD)
      then obtain m where old: "?k = row_key old" "P m" "row_announced G m old"
        using live unfolding table_ok_def by fast
      then show ?thesis
        using row Some gen assms(2) by (cases "gr_epoch old \<le> gm_epoch msg")
          (auto simp: announced_row_def row_key_def gen_key_def row_announced_def)
    qed
    have bounds: "distinct (map fst (AList.update ?k row ?table))" "length (AList.update ?k row ?table) \<le> 4096" for row
      using live room alist_update_bounded [of ?table 4096 ?k] by (auto simp: table_ok_def map_of_eq_None_iff)
    have "key = row_key row \<and> (\<exists>msg. P msg \<and> row_announced G msg row)"
      if "(key, row) \<in> set (AList.update ?k (announced_row G now msg (map_of ?table ?k)) ?table)" for key row
      using set_alist_update [OF that]
    proof
      assume "(key, row) = (?k, announced_row G now msg (map_of ?table ?k))"
      then show ?thesis using fresh by simp
    next
      assume "(key, row) \<in> set ?table"
      then show ?thesis using live unfolding table_ok_def by fast
    qed
    then show ?thesis using bounds unfolding table_ok_def by blast
  qed
  then show ?thesis using assms(1) live by (simp add: record_generation_table Let_def)
qed

lemma receive_item_ok:
  assumes "receive_item G clk data (h, ch) = (r, h', ch')" and "running_ok G v capacity (h, ch, node)"
    and "gv_mode v = AuthRequired" and "gv_identities v \<noteq> []"
  shows "running_ok G v capacity (h', ch', node)"
proof (cases "h' = h \<and> ch' = ch")
  case False
  let ?kept = "live_scopes clk (bh_admitted h)"
  have kept: "distinct (map fst ?kept)" "length ?kept \<le> 4096"
    using assms(2) le_trans [OF length_filter_le] by (auto simp: running_ok_def distinct_fst_filter live_scopes_def)
  obtain payload msg where msg: "check G v data = Accept payload" "gx_from_json G payload = Inr msg" "valid_bounds msg"
    and h': "h' = h\<lparr>bh_admitted := ?kept\<rparr> \<and> ch' = ch \<or>
      h' = h\<lparr>bh_admitted := AList.update (scope_key msg) (rk_now clk) ?kept\<rparr> \<and> ch' = try_send msg ch \<and>
      (scope_key msg \<in> fst ` set ?kept \<or> length ?kept < 4096)"
    using assms(1,2) False
    by (auto simp: receive_item_def running_ok_def Let_def not_le split: if_splits VerifyOutcome.splits sum.splits)
  have "attributed G v msg" using check_attributed [OF msg(1,2) assms(3,4)] .
  then show ?thesis
    using h' kept alist_update_bounded [OF kept, of "scope_key msg" "rk_now clk"] assms(2) msg(3)
    by (elim disjE conjE) (simp_all add: running_ok_def try_send_def)
qed (use assms(2) in simp)

lemma gossip_step_ok:
  assumes "gossip_step G st st'" and "running_ok G v capacity st" and "gv_mode v = AuthRequired" and "gv_identities v \<noteq> []"
  shows "running_ok G v capacity st'"
  using assms
proof (cases rule: gossip_step.cases)
  case (receive clk data h ch r h' ch' node)
  then show ?thesis using receive_item_ok assms(2-4) by blast
next
  case (consume now ch node ch' node' h)
  then show ?thesis using assms(2) by (cases "ch_queue ch") (auto simp: consume_def running_ok_def record_generation_ok)
next
  case (view now node rows node' h ch)
  then show ?thesis using assms(2) by (auto simp: generations_def running_ok_def Let_def live_rows_ok)
qed

lemma gossip_steps_ok:
  assumes "(gossip_step G)\<^sup>*\<^sup>* st st'" and "running_ok G v capacity st" and "gv_mode v = AuthRequired" and "gv_identities v \<noteq> []"
  shows "running_ok G v capacity st'"
  using assms by (induction rule: rtranclp_induct) (auto intro: gossip_step_ok)

section \<open>A row over time\<close>

text \<open>Which announcements concern a row, and that the clock never leaves an hour between them.\<close>

definition concerns :: "gossip_externals \<Rightarrow> GenKey \<Rightarrow> GossipMessage \<Rightarrow> bool" where
  "concerns G key msg \<longleftrightarrow> is_GenerationAnnouncement msg \<and> valid_bounds msg \<and> gen_key G msg = key"

fun kept_alive :: "gossip_externals \<Rightarrow> GenKey \<Rightarrow> u64 \<Rightarrow> (u64 \<times> GossipMessage) list \<Rightarrow> bool" where
  "kept_alive G key seen [] = True"
| "kept_alive G key seen ((now, msg) # evs) =
     (unat now - unat seen < 3600 \<and> kept_alive G key (if concerns G key msg then now else seen) evs)"

definition record_all :: "gossip_externals \<Rightarrow> (u64 \<times> GossipMessage) list \<Rightarrow> GossipNode \<Rightarrow> GossipNode" where
  "record_all G evs node = fold (\<lambda>(now, msg). record_generation G now msg) evs node"

lemma map_of_live_rows:
  assumes "map_of table key = Some row" and "distinct (map fst table)" and "unat now - unat (gr_last_seen_unix row) < 3600"
  shows "map_of (live_rows now table) key = Some row"
proof -
  have "(key, row) \<in> set (live_rows now table)" using map_of_SomeD [OF assms(1)] assms(3) by (simp add: live_rows_def)
  then show ?thesis
    using map_of_is_SomeI [OF distinct_fst_filter [OF assms(2)]] by (simp add: live_rows_def)
qed

lemma record_generation_row:
  assumes "map_of (gn_generations node) key = Some row" and "distinct (map fst (gn_generations node))"
    and "unat now - unat (gr_last_seen_unix row) < 3600"
  shows "map_of (gn_generations (record_generation G now msg node)) key =
      Some (if concerns G key msg then announced_row G now msg (Some row) else row)"
    and "distinct (map fst (gn_generations (record_generation G now msg node)))"
proof -
  have live: "map_of (live_rows now (gn_generations node)) key = Some row" using map_of_live_rows [OF assms] .
  have "distinct (map fst (live_rows now (gn_generations node)))" using assms(2) by (simp add: live_rows_def distinct_fst_filter)
  then show "distinct (map fst (gn_generations (record_generation G now msg node)))"
    using assms(2) by (simp add: record_generation_table Let_def distinct_update)
  show "map_of (gn_generations (record_generation G now msg node)) key =
      Some (if concerns G key msg then announced_row G now msg (Some row) else row)"
    using live assms(1) by (auto simp: record_generation_table Let_def concerns_def update_conv')
qed

definition newest_digest :: "gossip_externals \<Rightarrow> u64 \<Rightarrow> string \<Rightarrow> GossipMessage list \<Rightarrow> string" where
  "newest_digest G epoch old msgs =
     (case filter (\<lambda>m. gm_epoch m = epoch) msgs of
        [] \<Rightarrow> old
      | ms \<Rightarrow> hex_encode (gx_ahu G) (gm_manifest_digest (last ms)))"

lemma record_all_row:
  assumes "map_of (gn_generations node) key = Some row" and "distinct (map fst (gn_generations node))"
    and "kept_alive G key (gr_last_seen_unix row) evs"
  shows "\<exists>row'. map_of (gn_generations (record_all G evs node)) key = Some row' \<and>
    gr_epoch row' = fold max (map gm_epoch (filter (concerns G key) (map snd evs))) (gr_epoch row) \<and>
    gr_manifest_digest row' = newest_digest G (gr_epoch row')
      (gr_manifest_digest row) (filter (concerns G key) (map snd evs))"
  using assms
proof (induction evs arbitrary: node row)
  case Nil
  then show ?case by (simp add: record_all_def newest_digest_def)
next
  case (Cons ev evs)
  obtain now msg where ev: "ev = (now, msg)" by (cases ev)
  let ?row = "if concerns G key msg then announced_row G now msg (Some row) else row"
  let ?ms = "filter (concerns G key) (map snd evs)"
  have gap: "unat now - unat (gr_last_seen_unix row) < 3600" using Cons.prems(3) ev by simp
  note step = record_generation_row [OF Cons.prems(1,2) gap, of G msg]
  have "kept_alive G key (gr_last_seen_unix ?row) evs" using Cons.prems(3) ev by (auto simp: announced_row_def)
  then obtain row' where row': "map_of (gn_generations (record_all G (ev # evs) node)) key = Some row'"
      "gr_epoch row' = fold max (map gm_epoch ?ms) (gr_epoch ?row)"
      "gr_manifest_digest row' = newest_digest G (gr_epoch row') (gr_manifest_digest ?row) ?ms"
    using Cons.IH [OF step] ev by (auto simp: record_all_def)
  have attained: "fold max es x \<in> insert x (set es)" for x :: u64 and es
    by (induction es arbitrary: x) (simp, fastforce simp: max_def)
  have "gr_epoch ?row = (if concerns G key msg then max (gm_epoch msg) (gr_epoch row) else gr_epoch row)"
    by (auto simp: announced_row_def max_def)
  moreover have "newest_digest G (gr_epoch row') (gr_manifest_digest ?row) ?ms =
      newest_digest G (gr_epoch row') (gr_manifest_digest row) (if concerns G key msg then msg # ?ms else ?ms)"
  proof (cases "filter (\<lambda>m. gm_epoch m = gr_epoch row') ?ms")
    case Nil
    then have "gr_epoch row' \<notin> set (map gm_epoch ?ms)" by (auto simp: filter_empty_conv)
    then have "gr_epoch row' = gr_epoch ?row" using row'(2) attained [of "map gm_epoch ?ms" "gr_epoch ?row"] by auto
    then show ?thesis using Nil by (auto simp: newest_digest_def announced_row_def split: if_splits)
  qed (auto simp: newest_digest_def)
  ultimately show ?case using row' ev by (intro exI [of _ row']) auto
qed

section \<open>Announcements on the wire\<close>

text \<open>A signature has 64 bytes and verifies under the public half of its key.\<close>

definition signature_law :: "gossip_externals \<Rightarrow> bool" where
  "signature_law G \<longleftrightarrow>
     (\<forall>k p. length (gx_sign G k p) = SIG_LEN \<and> gx_verify G (gx_public G k) p (gx_sign G k p) \<and>
        gx_verify_strict G (gx_public G k) p (gx_sign G k p))"

lemma check_frame:
  assumes "signature_law G" and "(gm_origin msg, gx_public G sk) \<in> set (gv_identities v)"
    and "gv_trusted v = map snd (gv_identities v)" and "gx_from_json G payload = Inr msg"
  shows "check G v (frame G sk payload) = Accept payload"
proof -
  have sig: "length (gx_sign G sk payload) = SIG_LEN" "gx_verify G (gx_public G sk) payload (gx_sign G sk payload)"
      "gx_verify_strict G (gx_public G sk) payload (gx_sign G sk payload)"
    using assms(1) by (simp_all add: signature_law_def)
  have "gx_public G sk \<in> set (gv_trusted v)" using assms(2,3) by force
  then have "list_ex (\<lambda>k. gx_verify G k payload (gx_sign G sk payload)) (gv_trusted v)"
    using sig(2) by (auto simp: list_ex_iff)
  moreover have "list_ex (\<lambda>(name, key). name = gm_origin msg \<and> gx_verify_strict G key payload (gx_sign G sk payload)) (gv_identities v)"
    using sig(3) assms(2) by (force simp: list_ex_iff)
  ultimately show ?thesis using sig(1) assms(4) by (simp add: check_def frame_def Let_def)
qed

lemma receive_item_accepted:
  assumes "length data \<le> 2048" and "check G (bh_verifier h) data = Accept payload" and "gx_from_json G payload = Inr msg"
    and "valid_bounds msg" and "length (bh_admitted h) < 4096"
  shows "\<exists>h'. receive_item G clk data (h, ch) =
    (Inr (Some \<lparr>bk_producer_id = gm_producer_id msg, bk_issuer_key_hash = gm_issuer_key_hash msg, bk_epoch = gm_epoch msg\<rparr>),
     h', try_send msg ch)"
proof -
  have "length (live_scopes clk (bh_admitted h)) < 4096"
    using le_less_trans [OF length_filter_le assms(5)] by (simp add: live_scopes_def)
  then show ?thesis using assms(1-4) by (simp add: receive_item_def Let_def scope_key_def)
qed

end
