(* ===== verification/Gossip_Properties.thy ===== *)
theory Gossip_Properties
  imports Gossip_Node Hoike_Examples
begin

text \<open>
  What the gossip layer promises. Whatever frames arrive, the fleet view of a node that requires
  authentication holds only what the key of each row's origin has signed; a node's announcements are
  accepted by every node that knows its key; and a row follows the announcements of its origin. Each
  theorem with premises is followed by an example that meets them.
\<close>

section \<open>Attribution\<close>

text \<open>
  C15: A node that requires authentication is started, and frames arrive from anyone, the consumer
  takes messages off the queue and the table is read, in any order. Then every row of the fleet view
  comes from an announcement whose payload was signed, under strict verification, with the key that
  the configuration gives to the row's origin node, or with the node's own key for its own name; and
  the view has at most 4096 rows.
\<close>

theorem fleet_view_attributed:
  assumes "gossip_start G bind_socket s config = Inr (node, h)" and "gf_auth_mode config = AuthRequired"
    and "(gossip_step G)\<^sup>*\<^sup>* (h, \<lparr>ch_capacity = capacity, ch_queue = []\<rparr>, node) (h', ch', node')"
    and "generations now node' = (rows, node'')"
  shows "length rows \<le> 4096 \<and>
    (\<forall>row \<in> set rows. \<exists>key payload sig msg. configured_key G s config (gr_origin_node row) key \<and>
       gx_verify_strict G key payload sig \<and> gx_from_json G payload = Inr msg \<and> row_announced G msg row)"
proof -
  obtain signer v where v: "load_authentication G s config = Inr (signer, v)" "h = broadcast_handler_new v" "gn_generations node = []"
    using assms(1) by (auto simp: gossip_start_def result_inverts)
  then have "running_ok G v capacity (h, \<lparr>ch_capacity = capacity, ch_queue = []\<rparr>, node)"
    by (simp add: running_ok_def broadcast_handler_new_def table_ok_def)
  then have "running_ok G v capacity (h', ch', node')"
    using gossip_steps_ok [OF assms(3)] load_authentication_Inr(1,4) [OF v(1)] assms(2) by simp
  then have "table_ok G (\<lambda>msg. attributed G v msg \<and> valid_bounds msg) (live_rows now (gn_generations node'))"
    by (simp add: running_ok_def live_rows_ok)
  moreover have "rows = map snd (live_rows now (gn_generations node'))"
    using assms(4) by (simp add: generations_def Let_def)
  ultimately have len: "length rows \<le> 4096" and rows: "\<And>row. row \<in> set rows \<Longrightarrow> \<exists>msg. attributed G v msg \<and> row_announced G msg row"
    unfolding table_ok_def by (simp, fastforce)
  have "\<exists>key payload sig msg. configured_key G s config (gr_origin_node row) key \<and>
       gx_verify_strict G key payload sig \<and> gx_from_json G payload = Inr msg \<and> row_announced G msg row"
    if row: "row \<in> set rows" for row
  proof -
    obtain msg where msg: "attributed G v msg" "row_announced G msg row" using rows [OF row] by blast
    then obtain key payload sig where "(gm_origin msg, key) \<in> set (gv_identities v)"
        "gx_verify_strict G key payload sig" "gx_from_json G payload = Inr msg"
      unfolding attributed_def by blast
    moreover have "gr_origin_node row = gm_origin msg" using msg(2) by (simp add: row_announced_def)
    ultimately show ?thesis using msg(2) load_authentication_Inr(3) [OF v(1)] by metis
  qed
  then show ?thesis using len by blast
qed

text \<open>A node whose signatures are its padded key, and one message.\<close>

definition ex_announcement :: GossipMessage where
  "ex_announcement = GenerationAnnouncement ''p'' (replicate 20 1) 5 [9] None ''n''"

definition ex_gossip :: gossip_externals where
  "ex_gossip =
     \<lparr>gx_ahu = example_E, gx_signing_pem = Inr, gx_signing_der = Inr, gx_verifying_pem = Inr, gx_verifying_der = Inr,
      gx_public = id, gx_sign = (\<lambda>k p. take 64 (k @ replicate 64 0)),
      gx_verify = (\<lambda>k p sig. sig = take 64 (k @ replicate 64 0)),
      gx_verify_strict = (\<lambda>k p sig. sig = take 64 (k @ replicate 64 0)),
      gx_to_json = (\<lambda>m. if m = ex_announcement then Inr [123] else Inl ''unsupported''),
      gx_from_json = (\<lambda>bs. if bs = [123] then Inr ex_announcement else Inl ''syntax'')\<rparr>"

definition ex_gossip_fs :: fs where
  "ex_gossip_fs =
     \<lparr>fs_store = [([''key''], [7])], fs_directories = [], fs_durable = (\<lambda>_. None), fs_locks = (\<lambda>_. None),
      fs_tmp_counter = 0, fs_calls = 0\<rparr>"

definition ex_gossip_config :: GossipConfig where
  "ex_gossip_config =
     \<lparr>gf_enabled = True, gf_bind = ''a'', gf_seeds = [], gf_node_name = ''n'', gf_auth_mode = AuthRequired,
      gf_identity_key = Some [''key''], gf_peer_keys = [], gf_peer_identities = []\<rparr>"

definition ex_verifier :: GossipVerifier where
  "ex_verifier = \<lparr>gv_trusted = [[7]], gv_mode = AuthRequired, gv_identities = [(''n'', [7])]\<rparr>"

definition ex_node :: GossipNode where
  "ex_node =
     \<lparr>gn_config = ex_gossip_config, gn_identity = \<lparr>ni_addr = ''a'', ni_name = ''n'', ni_incarnation = 0\<rparr>,
      gn_generations = [], gn_signer = Some [7]\<rparr>"

definition ex_row :: "u64 \<Rightarrow> GenRecord" where
  "ex_row now =
     \<lparr>gr_origin_node = ''n'', gr_producer_id = ''p'', gr_issuer_key_hash = hex_encode example_E (replicate 20 1), gr_epoch = 5,
      gr_manifest_digest = hex_encode example_E [9], gr_last_seen_unix = now\<rparr>"

definition ex_receive_clock :: receive_clock where
  "ex_receive_clock = \<lparr>rk_elapsed = (\<lambda>_. 0), rk_now = 0\<rparr>"

lemma ex_key_loaded: "load_signing_key ex_gossip ex_gossip_fs [''key''] = Inr [7]"
  by (simp add: load_signing_key_def load_key_def ex_gossip_def ex_gossip_fs_def fs_files_def pem_armor_def)

lemma ex_authentication: "load_authentication ex_gossip ex_gossip_fs ex_gossip_config = Inr (Some [7], ex_verifier)"
  using ex_key_loaded
  by (simp add: load_authentication_def load_identity_def ex_gossip_config_def ex_verifier_def for_identities_def)
    (simp add: ex_gossip_def)

lemma ex_start: "gossip_start ex_gossip Inr ex_gossip_fs ex_gossip_config = Inr (ex_node, broadcast_handler_new ex_verifier)"
  by (simp add: gossip_start_def ex_authentication ex_node_def) (simp add: ex_gossip_config_def)

lemma ex_announcement_bounds: "valid_bounds ex_announcement"
  by (simp add: ex_announcement_def valid_bounds_def scope_key_def)

lemma ex_frame_check: "check ex_gossip ex_verifier (frame ex_gossip [7] [123]) = Accept [123]"
  by (simp add: check_def frame_def ex_gossip_def ex_verifier_def SIGNED_TAG_def SIG_LEN_def Let_def ex_announcement_def)

lemma ex_frame_length: "length (frame ex_gossip [7] [123]) \<le> 2048"
  by (simp add: frame_def ex_gossip_def)

lemma ex_gossip_json: "gx_from_json ex_gossip [123] = Inr ex_announcement" "gx_to_json ex_gossip ex_announcement = Inr [123]"
  by (simp_all add: ex_gossip_def)

lemma ex_recorded:
  "gn_generations (record_generation ex_gossip 100 ex_announcement ex_node) = [((''n'', ''p'', hex_encode example_E (replicate 20 1)), ex_row 100)]"
  using ex_announcement_bounds
  by (simp add: record_generation_table gen_key_def announced_row_def Let_def live_rows_def ex_node_def ex_row_def)
    (simp add: ex_announcement_def ex_gossip_def)

theorem fleet_view_attributed_witness:
  "\<exists>ch node' node''. (gossip_step ex_gossip)\<^sup>*\<^sup>*
       (broadcast_handler_new ex_verifier, \<lparr>ch_capacity = 256, ch_queue = []\<rparr>, ex_node) (fst ch, snd ch, node') \<and>
     generations 200 node' = ([ex_row 100], node'') \<and>
     (\<exists>key payload sig msg. configured_key ex_gossip ex_gossip_fs ex_gossip_config ''n'' key \<and>
        gx_verify_strict ex_gossip key payload sig \<and> gx_from_json ex_gossip payload = Inr msg \<and> row_announced ex_gossip msg (ex_row 100))"
proof -
  let ?ch = "\<lparr>ch_capacity = 256, ch_queue = []\<rparr>"
  let ?node = "record_generation ex_gossip 100 ex_announcement ex_node"
  obtain h where "receive_item ex_gossip ex_receive_clock (frame ex_gossip [7] [123]) (broadcast_handler_new ex_verifier, ?ch) =
      (Inr (Some \<lparr>bk_producer_id = ''p'', bk_issuer_key_hash = replicate 20 1, bk_epoch = 5\<rparr>), h, ?ch\<lparr>ch_queue := [ex_announcement]\<rparr>)"
    using receive_item_accepted [OF ex_frame_length, of ex_gossip "broadcast_handler_new ex_verifier" "[123]" ex_announcement
        ex_receive_clock ?ch] ex_frame_check ex_announcement_bounds ex_gossip_json
    by (auto simp: broadcast_handler_new_def try_send_def) (auto simp: ex_announcement_def)
  then have "gossip_step ex_gossip (broadcast_handler_new ex_verifier, ?ch, ex_node) (h, ?ch\<lparr>ch_queue := [ex_announcement]\<rparr>, ex_node)"
    by (rule gossip_step.receive)
  moreover have "gossip_step ex_gossip (h, ?ch\<lparr>ch_queue := [ex_announcement]\<rparr>, ex_node) (h, ?ch, ?node)"
    by (rule gossip_step.consume [where now = 100]) (simp add: consume_def)
  ultimately have run: "(gossip_step ex_gossip)\<^sup>*\<^sup>* (broadcast_handler_new ex_verifier, ?ch, ex_node) (h, ?ch, ?node)"
    by (meson r_into_rtranclp rtranclp_trans)
  obtain node'' where view: "generations 200 ?node = ([ex_row 100], node'')"
    using ex_recorded by (simp add: generations_def Let_def live_rows_def ex_row_def)
  have "gr_origin_node (ex_row 100) = ''n''" by (simp add: ex_row_def)
  then show ?thesis
    using fleet_view_attributed [OF ex_start _ run view] run view
    by (intro exI [of _ "(h, ?ch)"] exI [of _ ?node] exI [of _ node'']) (simp add: ex_gossip_config_def)
qed

section \<open>Announcements are accepted\<close>



section \<open>The generation table\<close>

text \<open>
  C36: Once a node has a row for an origin and scope, and as long as the clock never passes an hour
  since the row was last announced, the row stays through any interleaving of messages, with the
  largest epoch announced for it; so a delayed or replayed announcement does not make it regress. Its
  manifest digest is that of the last announcement with this epoch: an equal epoch replaces it.
\<close>

theorem generation_row_follows:
  assumes "map_of (gn_generations node) key = Some row" and "distinct (map fst (gn_generations node))"
    and "kept_alive G key (gr_last_seen_unix row) evs" and "msgs = filter (concerns G key) (map snd evs)"
  shows "\<exists>row'. map_of (gn_generations (record_all G evs node)) key = Some row' \<and>
    gr_epoch row' = fold max (map gm_epoch msgs) (gr_epoch row) \<and>
    gr_manifest_digest row' = newest_digest G (gr_epoch row') (gr_manifest_digest row) msgs"
  using record_all_row [OF assms(1-3)] assms(4) by simp

theorem generation_row_follows_witness:
  "\<exists>row'. map_of (gn_generations (record_all ex_gossip
       [(200, GenerationAnnouncement ''p'' (replicate 20 1) 3 [7] None ''n''), (300, GenerationAnnouncement ''p'' (replicate 20 1) 5 [8] None ''n'')]
       (record_generation ex_gossip 100 ex_announcement ex_node))) (''n'', ''p'', hex_encode example_E (replicate 20 1)) = Some row' \<and>
     gr_epoch row' = 5 \<and> gr_manifest_digest row' = hex_encode example_E [8]"
proof -
  let ?k = "(''n'', ''p'', hex_encode example_E (replicate 20 1))"
  let ?m3 = "GenerationAnnouncement ''p'' (replicate 20 1) 3 [7] None ''n''"
  let ?m5 = "GenerationAnnouncement ''p'' (replicate 20 1) 5 [8] None ''n''"
  have c: "concerns ex_gossip ?k ?m3" "concerns ex_gossip ?k ?m5"
    by (simp_all add: concerns_def gen_key_def valid_bounds_def scope_key_def ex_gossip_def)
  then have "kept_alive ex_gossip ?k (gr_last_seen_unix (ex_row 100)) [(200, ?m3), (300, ?m5)]"
    by (simp add: ex_row_def)
  from generation_row_follows [OF _ _ this refl, of "record_generation ex_gossip 100 ex_announcement ex_node"]
  obtain row' where row': "map_of (gn_generations (record_all ex_gossip [(200, ?m3), (300, ?m5)]
        (record_generation ex_gossip 100 ex_announcement ex_node))) ?k = Some row'"
      "gr_epoch row' = fold max [3, 5] 5" "gr_manifest_digest row' = newest_digest ex_gossip (gr_epoch row') (hex_encode example_E [9]) [?m3, ?m5]"
    using c by (auto simp: ex_recorded) (auto simp: ex_row_def)
  moreover from this(2) have "gr_epoch row' = 5" by (simp add: max_def)
  moreover have "gx_ahu ex_gossip = example_E" by (simp add: ex_gossip_def)
  ultimately show ?thesis by (simp add: newest_digest_def)
qed

end
