(* ===== verification/Spec2Isabelle.thy ===== *)
theory Spec2Isabelle
  imports Ahu_Properties Core_Properties Sign_Properties Source_Properties Server_Properties
    Gossip_Properties
begin

text \<open>
  A verification library for hoike, an OCSP responder that answers from pre-signed responses.

  \<^bold>\<open>The program.\<close> A signer turns the revocation state of a certification authority into a sealed
  file, a bundle, with one signed OCSP response per certificate (\<^verbatim>\<open>crates/hoike-sign\<close>). Bundles have
  their own file format (\<^verbatim>\<open>crates/ahu\<close>): a header, a CBOR manifest, a CMS seal over the manifest, a
  sorted index and a data section whose digests are in the manifest. A responder (\<^verbatim>\<open>crates/hoike-core\<close>)
  admits bundles under pinned certificates or trust anchors, guards against rollback by persistent
  high-water marks, keeps a working set and answers lookups. HTTP endpoints (\<^verbatim>\<open>crates/hoike-server\<close>)
  parse requests and answer from the working set, sign on demand or forward.

  \<^bold>\<open>Conventions.\<close> Machine integers are words of their width; where the code uses checked or
  saturating arithmetic the model does too, and plain arithmetic wraps. Fallible functions return
  \<^typ>\<open>'e + 'a\<close> with the program's error enumeration on the left. Operations on files are functions from
  a file system to a result and a file system (\<^verbatim>\<open>Core_Storage\<close>), in which each system call may fail
  and only synced directory entries survive a crash. Code outside the repository is a parameter:
  records of functions (\<^verbatim>\<open>externals\<close>, \<^verbatim>\<open>cms_externals\<close>, \<^verbatim>\<open>request_externals\<close>, \<^verbatim>\<open>core_env\<close>,
  \<^verbatim>\<open>ocsp_externals\<close>, \<^verbatim>\<open>http_externals\<close>) hold digests, hexadecimal, CBOR, DER, CMS, signature primitives,
  JSON, the clock and the HTTP client, and the few theorems that rely on a law of one of them (a
  digest's length, a codec's round trip) name it as a premise. Log lines, counters and the texts of
  messages are left out unless a function returns them.

  \<^bold>\<open>The bundle format\<close> (\<^verbatim>\<open>crates/ahu/src\<close>).
  \<^item> \<^verbatim>\<open>Ahu_Header\<close>, \<^verbatim>\<open>Ahu_Index\<close>, \<^verbatim>\<open>Ahu_Manifest\<close>: the codecs of \<^verbatim>\<open>header.rs\<close>, \<^verbatim>\<open>index.rs\<close> and
    \<^verbatim>\<open>manifest.rs\<close>, the binary searches and the sort-order check.
  \<^item> \<^verbatim>\<open>Ahu_Bundle\<close> (\<^verbatim>\<open>bundle.rs\<close>): reading, writing, lookups and the builder. \<^verbatim>\<open>Ahu_Mmap\<close>
    (\<^verbatim>\<open>mmap_bundle.rs\<close>): the same lookups in place. Both implement one interface, a map from key and
    algorithm discriminator to response.
  \<^item> \<^verbatim>\<open>Ahu_Verify\<close> (\<^verbatim>\<open>verify.rs\<close>), \<^verbatim>\<open>Ahu_Ops\<close> (\<^verbatim>\<open>ops.rs\<close>: diff and delta chains over \<^verbatim>\<open>Btree_Map\<close>),
    \<^verbatim>\<open>Ahu_Seal\<close> (\<^verbatim>\<open>seal.rs\<close>: the checks of a CMS seal).
  \<^item> \<^verbatim>\<open>Ahu_Properties\<close>: what is built is found and verifies; codecs invert each other; the checks accept
    exactly what they should; an accepted seal is authentic; a delta chain materialises to the overlay.

  \<^bold>\<open>The responder core\<close> (\<^verbatim>\<open>crates/hoike-core/src\<close>).
  \<^item> \<^verbatim>\<open>Core_Config\<close> (\<^verbatim>\<open>config.rs\<close>), \<^verbatim>\<open>Core_Storage\<close> (\<^verbatim>\<open>storage.rs\<close>), \<^verbatim>\<open>Core_State\<close> (\<^verbatim>\<open>state.rs\<close>),
    \<^verbatim>\<open>Core_Admission\<close> (\<^verbatim>\<open>admission.rs\<close>), \<^verbatim>\<open>Core_Install\<close> (\<^verbatim>\<open>install.rs\<close>), \<^verbatim>\<open>Core_Request\<close>
    (\<^verbatim>\<open>request.rs\<close>), \<^verbatim>\<open>Core_Router\<close> (\<^verbatim>\<open>router.rs\<close>).
  \<^item> \<^verbatim>\<open>Core_Recovery\<close>, \<^verbatim>\<open>Core_Progress\<close>, \<^verbatim>\<open>Core_Loading\<close>: what a crash leaves, that nothing failing means
    success, and the working set over time as a step relation of reloads and outside changes.
  \<^item> \<^verbatim>\<open>Core_Properties\<close>: no rollback, atomic and authentic installation, one writer, admission, lookup.

  \<^bold>\<open>The signer\<close> (\<^verbatim>\<open>crates/hoike-sign/src\<close>).
  \<^item> \<^verbatim>\<open>Sign_Source\<close> (\<^verbatim>\<open>source.rs\<close>, \<^verbatim>\<open>error.rs\<close>), \<^verbatim>\<open>Sign_Calendar\<close> and \<^verbatim>\<open>Sign_Generate\<close>
    (\<^verbatim>\<open>generate.rs\<close>), \<^verbatim>\<open>Sign_Live\<close> (\<^verbatim>\<open>live.rs\<close>).
  \<^item> \<^verbatim>\<open>Sign_Pipeline\<close>, \<^verbatim>\<open>Sign_Properties\<close>: the status given for a certificate is what a lookup in the
    produced bundle answers with; live responses are fresh; dates survive the calendar.
  \<^item> \<^verbatim>\<open>Sign_Dogtag\<close> (\<^verbatim>\<open>dogtag_sync.rs\<close>, over the text functions of \<^verbatim>\<open>Hoike_Text\<close>): the directory
    source, with the entry parser, the RFC 4533 reducer, the full poll and the checkpoint file; the LDAP
    client is the parameter \<^verbatim>\<open>ldap_externals\<close>, and a panic of its parsers is \<^const>\<open>None\<close>.
    \<^verbatim>\<open>Source_Properties\<close>: a snapshot is what the directory holds.

  \<^bold>\<open>The endpoints\<close> (\<^verbatim>\<open>crates/hoike-server/src\<close>).
  \<^item> \<^verbatim>\<open>Server_Response\<close> (the responses of \<^verbatim>\<open>handlers.rs\<close> and the constants of \<^verbatim>\<open>hoike-core/src/response.rs\<close>;
    the floating-point product behind max-age is rounded to 53 bits, ties to even), \<^verbatim>\<open>Server_Handlers\<close>
    (\<^verbatim>\<open>handlers.rs\<close>, \<^verbatim>\<open>forwarding.rs\<close>, \<^verbatim>\<open>state.rs\<close>), \<^verbatim>\<open>Server_Properties\<close>.
  \<^item> This theory: from the state directory to the HTTP answer.

  \<^bold>\<open>The gossip layer\<close> (\<^verbatim>\<open>crates/hoike-gossip/src\<close>), over which nodes announce generations.
  \<^item> \<^verbatim>\<open>Gossip_Node\<close> (\<^verbatim>\<open>config.rs\<close>, \<^verbatim>\<open>crypto.rs\<close>, \<^verbatim>\<open>broadcast.rs\<close>, \<^verbatim>\<open>node.rs\<close> and the consumer in
    \<^verbatim>\<open>hoike-cli/src/main.rs\<close>): policy, frames, admission, the generation table, and a step relation of
    frames that arrive, messages that are consumed and reads. \<^verbatim>\<open>Gossip_Properties\<close>: rows are attributed
    to their origin's key, announcements are accepted, rows follow them.

  \<^bold>\<open>Bounds.\<close> No definition has fuel. Loops are structural or have a termination proof; the one loop
  that a remote party drives, \<^verbatim>\<open>read_body\<close>, is a partial function whose not returning is \<^const>\<open>None\<close>,
  and \<^verbatim>\<open>requests_answered\<close> shows when it returns.

  \<^bold>\<open>Not modelled.\<close> TOML reading; TLS listeners, route tables and metrics (wiring of axum, rustls and
  the metrics crates); the SWIM protocol (the foca crate) and the socket and timer loops that drive it; the LDAP protocol itself and PKCS#11 traffic; the command line's
  argument parsing and printing.
\<close>

section \<open>From the state directory to the HTTP answer\<close>







end
